theory Spec2Isabelle
  imports Main "HOL-Library.Sublist" "HOL-Library.Word"
begin

section \<open>DNS configuration parsing (package dns)\<close>

text \<open>
  Go strings are byte sequences and \<open>len\<close> counts bytes; they are modelled as
  \<^typ>\<open>string\<close>, whose \<^const>\<open>length\<close> counts the same bytes.
\<close>

subsection \<open>The string helpers of Go's \<open>strings\<close> package that the parser uses\<close>

fun HasPrefix :: "string \<Rightarrow> string \<Rightarrow> bool" where
  "HasPrefix s [] = True"
| "HasPrefix [] (p # ps) = False"
| "HasPrefix (c # cs) (p # ps) = (c = p \<and> HasPrefix cs ps)"

fun Contains :: "string \<Rightarrow> string \<Rightarrow> bool" where
  "Contains [] sub = (sub = [])"
| "Contains (c # cs) sub = (HasPrefix (c # cs) sub \<or> Contains cs sub)"

subsection \<open>Search domains\<close>

definition k8sServiceInfix :: string where
  "k8sServiceInfix = ''.svc.''"

text \<open>\<open>GetDomainName\<close>: the loop keeps \<open>selected\<close>, replaced only by a strictly longer entry.\<close>

fun GetDomainName_loop :: "string list \<Rightarrow> string \<Rightarrow> string" where
  "GetDomainName_loop [] selected = selected"
| "GetDomainName_loop (d # ds) selected =
     GetDomainName_loop ds (if length d > length selected then d else selected)"

definition GetDomainName :: "string list \<Rightarrow> string" where
  "GetDomainName searchDomains = GetDomainName_loop searchDomains ''''"

definition GetServiceDomainList :: "string list \<Rightarrow> string list" where
  "GetServiceDomainList searchDomains = filter (\<lambda>d. Contains d k8sServiceInfix) searchDomains"

definition GetLongestServiceDomainName :: "string list \<Rightarrow> string" where
  "GetLongestServiceDomainName searchDomains = GetDomainName (GetServiceDomainList searchDomains)"

definition DomainNameWithSubdomain :: "string list \<Rightarrow> string \<Rightarrow> string" where
  "DomainNameWithSubdomain searchDomains subdomain =
     (if subdomain = '''' then ''''
      else let domainName = GetLongestServiceDomainName searchDomains
           in if domainName \<noteq> '''' \<and> \<not> HasPrefix domainName (subdomain @ ''.'')
              then subdomain @ ''.'' @ domainName
              else '''')"

text \<open>
  The specification's wording of "the longest entry, ties broken by first occurrence":
  \<open>L\<close> sits at some position of the list, no entry is longer, and every earlier entry
  is strictly shorter.
\<close>

definition longest_first :: "string list \<Rightarrow> string \<Rightarrow> bool" where
  "longest_first xs L \<longleftrightarrow>
     (\<exists>i < length xs. xs ! i = L
        \<and> (\<forall>j < length xs. length (xs ! j) \<le> length L)
        \<and> (\<forall>j < i. length (xs ! j) < length L))"

definition service_domains :: "string list \<Rightarrow> string list" where
  "service_domains ds = filter (\<lambda>d. \<exists>a b. d = a @ ''.svc.'' @ b) ds"

subsection \<open>Nameservers\<close>

text \<open>
  \<open>ParseNameservers\<close> reads its input through Go's \<open>bufio.Scanner\<close> with the default
  line splitter. The scanner hands out the text between newlines, drops one trailing
  carriage return of each line, produces no token for empty trailing input, and stops with
  \<open>ErrTooLong\<close> at a line that does not fit its buffer of \<open>MaxScanTokenSize\<close> bytes
  (64 * 1024): a line of that many bytes or more. Lines before the long one are
  delivered.
\<close>

datatype scan_error = ErrTooLong

definition MaxScanTokenSize :: nat where
  "MaxScanTokenSize = 64 * 1024"

definition newline :: char where
  "newline = CHR 0x0A"

definition carriage_return :: char where
  "carriage_return = CHR 0x0D"

definition dropCR :: "string \<Rightarrow> string" where
  "dropCR data = (if data \<noteq> [] \<and> last data = carriage_return then butlast data else data)"

function (sequential) scanLines :: "string \<Rightarrow> string list \<times> scan_error option" where
  "scanLines [] = ([], None)"
| "scanLines content =
     (let line = takeWhile (\<lambda>c. c \<noteq> newline) content;
          rest = dropWhile (\<lambda>c. c \<noteq> newline) content
      in if MaxScanTokenSize \<le> length line then ([], Some ErrTooLong)
         else (case scanLines (drop 1 rest) of (ls, e) \<Rightarrow> (dropCR line # ls, e)))"
  by pat_completeness auto
termination
proof (relation "measure length")
  fix c :: char and cs :: string and line rest :: string
  assume rest: "rest = dropWhile (\<lambda>c. c \<noteq> newline) (c # cs)"
  have "length (dropWhile (\<lambda>c. c \<noteq> newline) (c # cs)) \<le> length (c # cs)"
    by (rule length_dropWhile_le)
  with rest have "length rest \<le> length (c # cs)"
    by blast
  then show "(drop 1 rest, c # cs) \<in> measure length"
    by (cases rest) auto
qed simp

text \<open>
  \<open>net.IP\<close> is a byte slice; the nil slice is the empty list. The address parser
  \<open>net.ParseIP\<close> and the two compiled regular expressions \<open>reIPv6\<close> and \<open>reIPv4\<close>
  (used through \<open>FindString\<close>) belong to Go's standard library and are parameters.
\<close>

type_synonym ip = "8 word list"

record netfuns =
  ParseIP :: "string \<Rightarrow> ip"
  reIPv6_FindString :: "string \<Rightarrow> string"
  reIPv4_FindString :: "string \<Rightarrow> string"

definition nameserverPrefix :: string where
  "nameserverPrefix = ''nameserver''"

definition defaultIPv4DNS :: string where
  "defaultIPv4DNS = ''8.8.8.8''"

text \<open>The body of the scanning loop, on the two accumulated lists.\<close>

definition nameserver_line :: "netfuns \<Rightarrow> ip list \<times> ip list \<Rightarrow> string \<Rightarrow> ip list \<times> ip list" where
  "nameserver_line lib acc line =
     (case acc of (ipv4Nameservers, ipv6Nameservers) \<Rightarrow>
        if HasPrefix line nameserverPrefix then
          (let nameserver = ParseIP lib (reIPv6_FindString lib line)
           in if nameserver \<noteq> [] then (ipv4Nameservers, ipv6Nameservers @ [nameserver])
              else (let nameserver4 = ParseIP lib (reIPv4_FindString lib line)
                    in if nameserver4 \<noteq> [] then (ipv4Nameservers @ [nameserver4], ipv6Nameservers)
                       else (ipv4Nameservers, ipv6Nameservers)))
        else (ipv4Nameservers, ipv6Nameservers))"

definition ParseNameservers :: "netfuns \<Rightarrow> string \<Rightarrow> ip list \<times> ip list \<times> scan_error option" where
  "ParseNameservers lib content =
     (case scanLines content of (lines, err) \<Rightarrow>
        (case foldl (nameserver_line lib) ([], []) lines of (ipv4Nameservers, ipv6Nameservers) \<Rightarrow>
           (case err of
              Some e \<Rightarrow> (ipv4Nameservers, ipv6Nameservers, Some e)
            | None \<Rightarrow>
                if length ipv4Nameservers = 0 \<and> length ipv6Nameservers = 0
                then (ipv4Nameservers @ [ParseIP lib defaultIPv4DNS], ipv6Nameservers, None)
                else (ipv4Nameservers, ipv6Nameservers, None))))"

text \<open>
  For the statements: a text has no over-long line when every run of bytes without a
  newline in it is shorter than the scanner's buffer; its nameserver lines are the scanned
  lines that start with the keyword.
\<close>

definition no_long_line :: "string \<Rightarrow> bool" where
  "no_long_line content \<longleftrightarrow>
     (\<forall>a l b. content = a @ l @ b \<and> newline \<notin> set l \<longrightarrow> length l < MaxScanTokenSize)"

definition nameserver_lines :: "string \<Rightarrow> string list" where
  "nameserver_lines content = filter (\<lambda>l. prefix ''nameserver'' l) (fst (scanLines content))"

definition ipv6_found :: "netfuns \<Rightarrow> string list \<Rightarrow> ip list" where
  "ipv6_found lib ls =
     map (\<lambda>l. ParseIP lib (reIPv6_FindString lib l))
       (filter (\<lambda>l. ParseIP lib (reIPv6_FindString lib l) \<noteq> []) ls)"

definition ipv4_found :: "netfuns \<Rightarrow> string list \<Rightarrow> ip list" where
  "ipv4_found lib ls =
     map (\<lambda>l. ParseIP lib (reIPv4_FindString lib l))
       (filter (\<lambda>l. ParseIP lib (reIPv6_FindString lib l) = []
                  \<and> ParseIP lib (reIPv4_FindString lib l) \<noteq> []) ls)"

text \<open>
  A small instance of the library parameters for concrete runs: it recognises the
  address \<open>8.8.8.8\<close> after the keyword and nothing else.
\<close>

definition sample_netfuns :: netfuns where
  "sample_netfuns =
     \<lparr>ParseIP = (\<lambda>s. if s = ''8.8.8.8'' then [0,0,0,0,0,0,0,0,0,0,255,255,8,8,8,8] else []),
      reIPv6_FindString = (\<lambda>s. []),
      reIPv4_FindString = (\<lambda>s. drop 11 s)\<rparr>"

section \<open>Guest-agent interface statuses (package agentpoller)\<close>

text \<open>
  The JSON records of the agent's reply (\<open>Interface\<close>, \<open>IP\<close>), the hypervisor's
  interface (\<open>api.Interface\<close>, of which the merge reads \<open>MAC.MAC\<close> and
  \<open>Alias.GetName()\<close>; both pointers are taken as set) and the status record
  (\<open>api.InterfaceStatus\<close>). The three info-source constants of package \<open>vmispec\<close> are
  the constructors of a datatype, with \<open>InfoSourceUnset\<close> for the zero value of the field.
\<close>

record AgentIP =
  IP_IP :: string
  IP_Type :: string
  IP_Prefix :: int

record AgentInterface =
  Interface_MAC :: string
  Interface_IPs :: "AgentIP list"
  Interface_Name :: string

record DomInterface =
  Dom_MAC :: string
  Dom_Alias :: string

datatype info_source =
  InfoSourceUnset | InfoSourceDomain | InfoSourceGuestAgent | InfoSourceDomainAndGA

record InterfaceStatus =
  Name :: string
  Mac :: string
  Ip :: string
  IPs :: "string list"
  InterfaceName :: string
  InfoSource :: info_source

fun extractIPs_loop :: "AgentIP list \<Rightarrow> string \<Rightarrow> string list \<Rightarrow> string \<times> string list" where
  "extractIPs_loop [] interfaceIP interfaceIPs = (interfaceIP, interfaceIPs)"
| "extractIPs_loop (ipAddr # rest) interfaceIP interfaceIPs =
     extractIPs_loop rest
       (if IP_Type ipAddr = ''ipv4'' \<and> interfaceIP = '''' then IP_IP ipAddr else interfaceIP)
       (interfaceIPs @ [IP_IP ipAddr])"

definition extractIPs :: "AgentIP list \<Rightarrow> string \<times> string list" where
  "extractIPs ipAddresses =
     (case extractIPs_loop ipAddresses '''' [] of (interfaceIP, interfaceIPs) \<Rightarrow>
        if interfaceIP = '''' \<and> length interfaceIPs > 0
        then (interfaceIPs ! 0, interfaceIPs)
        else (interfaceIP, interfaceIPs))"

fun convertInterfaceStatusesFromAgentJSON :: "AgentInterface list \<Rightarrow> InterfaceStatus list" where
  "convertInterfaceStatusesFromAgentJSON [] = []"
| "convertInterfaceStatusesFromAgentJSON (ifc # agentResult) =
     (if Interface_Name ifc = ''lo'' then convertInterfaceStatusesFromAgentJSON agentResult
      else (case extractIPs (Interface_IPs ifc) of (interfaceIP, interfaceIPs) \<Rightarrow>
              \<lparr>Name = '''', Mac = Interface_MAC ifc, Ip = interfaceIP, IPs = interfaceIPs,
               InterfaceName = Interface_Name ifc, InfoSource = InfoSourceUnset\<rparr>
              # convertInterfaceStatusesFromAgentJSON agentResult))"

text \<open>The first loop of the merge fills the map; a later interface with the same MAC overwrites.\<close>

fun aliasByMac_loop :: "DomInterface list \<Rightarrow> (string \<rightharpoonup> string) \<Rightarrow> (string \<rightharpoonup> string)" where
  "aliasByMac_loop [] aliasByMac = aliasByMac"
| "aliasByMac_loop (ifc # domInterfaces) aliasByMac =
     aliasByMac_loop domInterfaces (aliasByMac(Dom_MAC ifc \<mapsto> Dom_Alias ifc))"

text \<open>The second loop tags the agent's statuses in place and collects the aliases it used.\<close>

fun agent_loop ::
  "(string \<rightharpoonup> string) \<Rightarrow> InterfaceStatus list \<Rightarrow> string list \<Rightarrow> InterfaceStatus list \<times> string list" where
  "agent_loop aliasByMac [] aliasesCoveredByAgent = ([], aliasesCoveredByAgent)"
| "agent_loop aliasByMac (interfaceStatus # rest) aliasesCoveredByAgent =
     (case aliasByMac (Mac interfaceStatus) of
        Some alias \<Rightarrow>
          (case agent_loop aliasByMac rest (aliasesCoveredByAgent @ [alias]) of (done, covered) \<Rightarrow>
             (interfaceStatus\<lparr>Name := alias, InfoSource := InfoSourceDomainAndGA\<rparr> # done, covered))
      | None \<Rightarrow>
          (case agent_loop aliasByMac rest aliasesCoveredByAgent of (done, covered) \<Rightarrow>
             (interfaceStatus\<lparr>InfoSource := InfoSourceGuestAgent\<rparr> # done, covered)))"

text \<open>
  The third loop ranges over the map. Go fixes no order for that; the order in which the
  keys are visited is the parameter \<open>visit\<close>, a list of the map's keys.
\<close>

fun domain_loop ::
  "(string \<rightharpoonup> string) \<Rightarrow> string list \<Rightarrow> string list \<Rightarrow> InterfaceStatus list" where
  "domain_loop aliasByMac aliasesCoveredByAgent [] = []"
| "domain_loop aliasByMac aliasesCoveredByAgent (mac # visit) =
     (case aliasByMac mac of
        None \<Rightarrow> domain_loop aliasByMac aliasesCoveredByAgent visit
      | Some alias \<Rightarrow>
          (if list_ex (\<lambda>coveredAlias. alias = coveredAlias) aliasesCoveredByAgent
           then domain_loop aliasByMac aliasesCoveredByAgent visit
           else \<lparr>Name = alias, Mac = mac, Ip = '''', IPs = [], InterfaceName = '''',
                 InfoSource = InfoSourceDomain\<rparr>
                # domain_loop aliasByMac aliasesCoveredByAgent visit))"

definition MergeAgentStatusesWithDomainData ::
  "string list \<Rightarrow> DomInterface list \<Rightarrow> InterfaceStatus list \<Rightarrow> InterfaceStatus list" where
  "MergeAgentStatusesWithDomainData visit domInterfaces interfaceStatuses =
     (let aliasByMac = aliasByMac_loop domInterfaces Map.empty
      in case agent_loop aliasByMac interfaceStatuses [] of (tagged, aliasesCoveredByAgent) \<Rightarrow>
           tagged @ domain_loop aliasByMac aliasesCoveredByAgent visit)"

text \<open>
  The merged list of a poll: the agent's reply converted, then merged with the
  hypervisor's interfaces.
\<close>

definition merged_statuses ::
  "string list \<Rightarrow> DomInterface list \<Rightarrow> AgentInterface list \<Rightarrow> InterfaceStatus list" where
  "merged_statuses visit domInterfaces agentResult =
     MergeAgentStatusesWithDomainData visit domInterfaces
       (convertInterfaceStatusesFromAgentJSON agentResult)"

text \<open>
  For the statements. A visiting order of the map is a duplicate-free list of the MACs
  of the hypervisor's interfaces. The summary address in the words of the specification,
  with "IPv4 address" read as one whose address string is not empty. The record appended
  for a hypervisor interface.
\<close>

definition visits :: "string list \<Rightarrow> DomInterface list \<Rightarrow> bool" where
  "visits visit domInterfaces \<longleftrightarrow> distinct visit \<and> set visit = Dom_MAC ` set domInterfaces"

definition summary_ip :: "AgentIP list \<Rightarrow> string" where
  "summary_ip ips =
     (case filter (\<lambda>a. IP_Type a = ''ipv4'' \<and> IP_IP a \<noteq> '''') ips of
        a # _ \<Rightarrow> IP_IP a
      | [] \<Rightarrow> (case ips of [] \<Rightarrow> '''' | a # _ \<Rightarrow> IP_IP a))"

definition domain_status :: "DomInterface \<Rightarrow> InterfaceStatus" where
  "domain_status d =
     \<lparr>Name = Dom_Alias d, Mac = Dom_MAC d, Ip = '''', IPs = [], InterfaceName = '''',
      InfoSource = InfoSourceDomain\<rparr>"

definition agent_entries :: "AgentInterface list \<Rightarrow> AgentInterface list" where
  "agent_entries agentResult = filter (\<lambda>ifc. Interface_Name ifc \<noteq> ''lo'') agentResult"

text \<open>What the conversion makes of one agent entry, and what the tagging loop makes of one status.\<close>

definition agent_status :: "AgentInterface \<Rightarrow> InterfaceStatus" where
  "agent_status ifc =
     \<lparr>Name = '''', Mac = Interface_MAC ifc, Ip = summary_ip (Interface_IPs ifc),
      IPs = map IP_IP (Interface_IPs ifc), InterfaceName = Interface_Name ifc,
      InfoSource = InfoSourceUnset\<rparr>"

definition tag_status :: "(string \<rightharpoonup> string) \<Rightarrow> InterfaceStatus \<Rightarrow> InterfaceStatus" where
  "tag_status m s =
     (case m (Mac s) of
        Some alias \<Rightarrow> s\<lparr>Name := alias, InfoSource := InfoSourceDomainAndGA\<rparr>
      | None \<Rightarrow> s\<lparr>InfoSource := InfoSourceGuestAgent\<rparr>)"

section \<open>Router-mode pod network configurator (package infraconfigurators)\<close>

subsection \<open>Data of the network libraries\<close>

text \<open>
  Errors are their messages. The records keep the fields of the \<open>net\<close> and
  \<open>netlink\<close> types that the configurator reads or writes; \<open>net.HardwareAddr\<close> is a
  byte slice like \<open>net.IP\<close>. The numeric constants are those of the Linux headers.
\<close>

type_synonym error = string

type_synonym HardwareAddr = "8 word list"

record IPNet =
  IPNet_IP :: ip
  IPNet_Mask :: "8 word list"

record Addr =
  Addr_IP :: ip
  Addr_Mask :: "8 word list"

record Link =
  Link_Name :: string
  Link_Index :: int
  Link_MTU :: int
  Link_HardwareAddr :: HardwareAddr
  Link_Type :: string

record Route =
  Route_LinkIndex :: int
  Route_Scope :: int
  Route_Flags :: int
  Route_Dst :: "IPNet option"
  Route_Gw :: ip

record Neigh =
  Neigh_LinkIndex :: int
  Neigh_Family :: int
  Neigh_State :: int
  Neigh_Flags :: int
  Neigh_IP :: ip
  Neigh_HardwareAddr :: HardwareAddr

datatype Protocol = ProtocolIPv4 | ProtocolIPv6

record Port =
  Port_Name :: string
  Port_Port :: int
  Port_Protocol :: string

definition FAMILY_V4 :: int where "FAMILY_V4 = 2"
definition FAMILY_V6 :: int where "FAMILY_V6 = 10"
definition FLAG_ONLINK :: int where "FLAG_ONLINK = 4"
definition SCOPE_UNIVERSE :: int where "SCOPE_UNIVERSE = 0"
definition SCOPE_HOST :: int where "SCOPE_HOST = 254"
definition NUD_PERMANENT :: int where "NUD_PERMANENT = 128"
definition NTF_PROXY :: int where "NTF_PROXY = 8"

definition CIDRMask :: "nat \<Rightarrow> 8 word list" where
  "CIDRMask bytes = replicate bytes 255"

definition localIPv4Addr :: IPNet where
  "localIPv4Addr = \<lparr>IPNet_IP = [169, 254, 75, 1], IPNet_Mask = CIDRMask 4\<rparr>"

definition localIPv6Addr :: IPNet where
  "localIPv6Addr =
     \<lparr>IPNet_IP = [0xfc, 0x00, 0xee, 0xee, 0xee, 0xee, 0xee, 0xee,
                  0xee, 0xee, 0xee, 0xee, 0xee, 0xee, 0xee, 0xee],
      IPNet_Mask = CIDRMask 16\<rparr>"

definition gatewayMacAddress :: HardwareAddr where
  "gatewayMacAddress = [0xee, 0xee, 0xee, 0xee, 0xee, 0xee]"

definition localIPv4Addr_String :: string where
  "localIPv4Addr_String = ''169.254.75.1/32''"

definition localIPv6Addr_String :: string where
  "localIPv6Addr_String = ''fc00:eeee:eeee:eeee:eeee:eeee:eeee:eeee/128''"

subsection \<open>The virtual machine instance and reserved ports\<close>

record VirtualMachineInstance =
  Annotations :: "string \<rightharpoonup> string"
  NetworkInterfaceMultiQueue :: "bool option"

record VMIInterface =
  VMIInterface_Name :: string
  VMIInterface_MacAddress :: string

definition RESERVED_PORTS_ANNOTATION :: string where
  "RESERVED_PORTS_ANNOTATION = ''kubevirt.io/reserved-ports''"

definition default_reserved_ports :: "Port list" where
  "default_reserved_ports =
     [\<lparr>Port_Name = ''vnc'', Port_Port = 5900, Port_Protocol = ''TCP''\<rparr>,
      \<lparr>Port_Name = ''vnc-ws'', Port_Port = 5901, Port_Protocol = ''TCP''\<rparr>]"

text \<open>
  \<open>json.Unmarshal(data, &ports)\<close> returns an error and leaves in \<open>ports\<close> what it
  decoded. Go's decoder checks the syntax of the whole input before it stores anything:
  after leading white space a JSON value must begin with one of the bytes
  \<open>{ [ " - 0..9 t f n\<close>, and an input that is empty or begins otherwise is a syntax
  error with the target untouched. The decoding of an input that begins like a value is
  the parameter \<open>decode\<close>.
\<close>

datatype json_error = SyntaxError | OtherJSONError

type_synonym port_decoder = "string \<Rightarrow> Port list \<Rightarrow> json_error option \<times> Port list"

definition json_space :: "char \<Rightarrow> bool" where
  "json_space c \<longleftrightarrow> c = CHR '' '' \<or> c = CHR 0x09 \<or> c = CHR 0x0A \<or> c = CHR 0x0D"

definition begins_json_value :: "string \<Rightarrow> bool" where
  "begins_json_value data =
     (case dropWhile json_space data of
        [] \<Rightarrow> False
      | c # _ \<Rightarrow> c \<in> set ''{[-0123456789tfn'' \<or> c = CHR 0x22)"

definition Unmarshal :: "port_decoder \<Rightarrow> string \<Rightarrow> Port list \<Rightarrow> json_error option \<times> Port list" where
  "Unmarshal decode data v =
     (if begins_json_value data then decode data v else (Some SyntaxError, v))"

definition reservedPortsInPod :: "port_decoder \<Rightarrow> VirtualMachineInstance \<Rightarrow> Port list" where
  "reservedPortsInPod decode vmi =
     (case Annotations vmi RESERVED_PORTS_ANNOTATION of
        None \<Rightarrow> default_reserved_ports
      | Some data \<Rightarrow> (case Unmarshal decode data [] of (_, ports) \<Rightarrow> ports))"

text \<open>
  For concrete runs: the one-port annotation of the specification's example,
  \<^verbatim>\<open>[{"name":"ssh","port":22,"protocol":"TCP"}]\<close>, and a decoder that knows it.
\<close>

definition dquote :: char where
  "dquote = CHR 0x22"

definition ssh_annotation :: string where
  "ssh_annotation =
     ''[{'' @ [dquote] @ ''name'' @ [dquote] @ '':'' @ [dquote] @ ''ssh'' @ [dquote] @ '',''
     @ [dquote] @ ''port'' @ [dquote] @ '':22,''
     @ [dquote] @ ''protocol'' @ [dquote] @ '':'' @ [dquote] @ ''TCP'' @ [dquote] @ ''}]''"

definition sample_decoder :: port_decoder where
  "sample_decoder data v =
     (if data = ssh_annotation
      then (None, [\<lparr>Port_Name = ''ssh'', Port_Port = 22, Port_Protocol = ''TCP''\<rparr>])
      else (Some OtherJSONError, v))"

subsection \<open>The network handler and the trace of its calls\<close>

text \<open>
  The configurator touches the host only through the \<open>NetworkHandler\<close> interface. A
  call is recorded with its arguments; the strings that the NAT rules build with
  \<open>fmt.Sprintf("%d", port.Port)\<close> and \<open>IP.String()\<close> are kept as tokens.
\<close>

datatype token = Lit string | Dec int | IPString ip

datatype call =
    CLinkByName string
  | CReadIPv4AndIPv6AddrFromLink string
  | CEnableIPv6Flags
  | CRouteList Link int
  | CGetDefaultGateway int
  | CLinkSetDown Link
  | CAddrDel Link Addr
  | CSetRandomMac string
  | CLinkSetUp Link
  | CCreateTapDevice string "32 word" int int string
  | CLinkAdd Link
  | CLinkSetMaster Link Link
  | CParseAddr string
  | CAddrAdd Link "Addr option"
  | CConfigureIpForwarding Protocol
  | CNftablesLoad Protocol
  | CNftablesAppendRule Protocol string string "token list"
  | CHasNatIptables Protocol
  | CIptablesAppendRule Protocol string string "token list"
  | CRouteAdd Route
  | CNeighAdd Neigh
  | CEnableIpv4ArpProxyOnIface string
  | CEnableIpv6NdpProxyForAll
  | CEnableIpv6NdpProxyOnIface string

text \<open>
  What a handler method answers may depend on everything done to the host before, so
  every method takes the calls made so far. This covers every deterministic handler,
  the real one included.
\<close>

record NetworkHandler =
  h_LinkByName :: "call list \<Rightarrow> string \<Rightarrow> error + Link"
  h_ReadIPv4AndIPv6AddrFromLink :: "call list \<Rightarrow> string \<Rightarrow> error + (Addr option \<times> Addr option)"
  h_EnableIPv6Flags :: "call list \<Rightarrow> error option"
  h_RouteList :: "call list \<Rightarrow> Link \<Rightarrow> int \<Rightarrow> error + Route list"
  h_GetDefaultGateway :: "call list \<Rightarrow> int \<Rightarrow> error + ip"
  h_LinkSetDown :: "call list \<Rightarrow> Link \<Rightarrow> error option"
  h_AddrDel :: "call list \<Rightarrow> Link \<Rightarrow> Addr \<Rightarrow> error option"
  h_SetRandomMac :: "call list \<Rightarrow> string \<Rightarrow> error + HardwareAddr"
  h_LinkSetUp :: "call list \<Rightarrow> Link \<Rightarrow> error option"
  h_CreateTapDevice :: "call list \<Rightarrow> string \<Rightarrow> 32 word \<Rightarrow> int \<Rightarrow> int \<Rightarrow> string \<Rightarrow> error option"
  h_LinkAdd :: "call list \<Rightarrow> Link \<Rightarrow> error option"
  h_LinkSetMaster :: "call list \<Rightarrow> Link \<Rightarrow> Link \<Rightarrow> error option"
  h_ParseAddr :: "call list \<Rightarrow> string \<Rightarrow> error + Addr"
  h_AddrAdd :: "call list \<Rightarrow> Link \<Rightarrow> Addr option \<Rightarrow> error option"
  h_ConfigureIpForwarding :: "call list \<Rightarrow> Protocol \<Rightarrow> error option"
  h_NftablesLoad :: "call list \<Rightarrow> Protocol \<Rightarrow> error option"
  h_NftablesAppendRule :: "call list \<Rightarrow> Protocol \<Rightarrow> string \<Rightarrow> string \<Rightarrow> token list \<Rightarrow> error option"
  h_HasNatIptables :: "call list \<Rightarrow> Protocol \<Rightarrow> bool"
  h_IptablesAppendRule :: "call list \<Rightarrow> Protocol \<Rightarrow> string \<Rightarrow> string \<Rightarrow> token list \<Rightarrow> error option"
  h_RouteAdd :: "call list \<Rightarrow> Route \<Rightarrow> error option"
  h_NeighAdd :: "call list \<Rightarrow> Neigh \<Rightarrow> error option"
  h_EnableIpv4ArpProxyOnIface :: "call list \<Rightarrow> string \<Rightarrow> error option"
  h_EnableIpv6NdpProxyForAll :: "call list \<Rightarrow> error option"
  h_EnableIpv6NdpProxyOnIface :: "call list \<Rightarrow> string \<Rightarrow> error option"

text \<open>
  The trace tags each call with the method of the configurator that made it. The
  handler sees the calls, not the tags.
\<close>

datatype step =
    StepDiscover | StepLearnRoutes
  | StepPodNic | StepTap | StepBridge | StepNAT Protocol | StepNeighbourReply

type_synonym trace = "(step \<times> call) list"

definition history :: "trace \<Rightarrow> call list" where
  "history t = map snd t"

definition invoke :: "step \<Rightarrow> call \<Rightarrow> (call list \<Rightarrow> 'r) \<Rightarrow> trace \<Rightarrow> 'r \<times> trace" where
  "invoke s c answer t = (answer (history t), t @ [(s, c)])"

text \<open>The error that the handler gives for a call after a history, if it gives one.\<close>

definition left_error :: "error + 'a \<Rightarrow> error option" where
  "left_error r = (case r of Inl e \<Rightarrow> Some e | Inr _ \<Rightarrow> None)"

fun call_error :: "NetworkHandler \<Rightarrow> call list \<Rightarrow> call \<Rightarrow> error option" where
  "call_error h hist (CLinkByName n) = left_error (h_LinkByName h hist n)"
| "call_error h hist (CReadIPv4AndIPv6AddrFromLink n) = left_error (h_ReadIPv4AndIPv6AddrFromLink h hist n)"
| "call_error h hist CEnableIPv6Flags = h_EnableIPv6Flags h hist"
| "call_error h hist (CRouteList l f) = left_error (h_RouteList h hist l f)"
| "call_error h hist (CGetDefaultGateway f) = left_error (h_GetDefaultGateway h hist f)"
| "call_error h hist (CLinkSetDown l) = h_LinkSetDown h hist l"
| "call_error h hist (CAddrDel l a) = h_AddrDel h hist l a"
| "call_error h hist (CSetRandomMac n) = left_error (h_SetRandomMac h hist n)"
| "call_error h hist (CLinkSetUp l) = h_LinkSetUp h hist l"
| "call_error h hist (CCreateTapDevice n q pid mtu owner) = h_CreateTapDevice h hist n q pid mtu owner"
| "call_error h hist (CLinkAdd l) = h_LinkAdd h hist l"
| "call_error h hist (CLinkSetMaster l m) = h_LinkSetMaster h hist l m"
| "call_error h hist (CParseAddr s) = left_error (h_ParseAddr h hist s)"
| "call_error h hist (CAddrAdd l a) = h_AddrAdd h hist l a"
| "call_error h hist (CConfigureIpForwarding p) = h_ConfigureIpForwarding h hist p"
| "call_error h hist (CNftablesLoad p) = h_NftablesLoad h hist p"
| "call_error h hist (CNftablesAppendRule p tb ch r) = h_NftablesAppendRule h hist p tb ch r"
| "call_error h hist (CHasNatIptables p) = None"
| "call_error h hist (CIptablesAppendRule p tb ch r) = h_IptablesAppendRule h hist p tb ch r"
| "call_error h hist (CRouteAdd r) = h_RouteAdd h hist r"
| "call_error h hist (CNeighAdd n) = h_NeighAdd h hist n"
| "call_error h hist (CEnableIpv4ArpProxyOnIface n) = h_EnableIpv4ArpProxyOnIface h hist n"
| "call_error h hist CEnableIpv6NdpProxyForAll = h_EnableIpv6NdpProxyForAll h hist"
| "call_error h hist (CEnableIpv6NdpProxyOnIface n) = h_EnableIpv6NdpProxyOnIface h hist n"

subsection \<open>The configurator\<close>

text \<open>
  Functions and constants of other packages that the configurator calls
  (\<open>converter\<close>, \<open>util\<close>, \<open>netdriver\<close>, \<open>link\<close>, \<open>netlink\<close>) are parameters,
  and \<open>cache.DHCPConfig\<close> is a record of the fields that are set.
  \<open>HostAddr ip bits\<close> stands for
  \<open>netlink.ParseAddr(fmt.Sprintf("%s/%d", ip.String(), bits))\<close>, \<open>None\<close> for its nil
  result.
\<close>

record DHCPConfig =
  DHCP_MAC :: HardwareAddr
  DHCP_IPAMDisabled :: bool
  DHCP_IP :: Addr
  DHCP_IPv6 :: Addr
  DHCP_Routes :: "Route list option"
  DHCP_IPv6Routes :: "Route list option"
  DHCP_Gateway :: ip
  DHCP_IPv6Gateway :: ip

record Deps =
  CalculateNetworkQueues :: "VirtualMachineInstance \<Rightarrow> 32 word"
  IsNonRootVMI :: "VirtualMachineInstance \<Rightarrow> bool"
  LibvirtUserAndGroupId :: string
  NonRootUID_Itoa :: string
  GenerateTapDeviceName :: "string \<Rightarrow> string"
  GenerateInPodBridgeInterfaceName :: "string \<Rightarrow> string"
  RetrieveMacAddressFromVMISpecIface :: "VMIInterface \<Rightarrow> error + HardwareAddr option"
  DefaultIPv4Dst :: IPNet
  DefaultIPv6Dst :: IPNet
  HostAddr :: "ip \<Rightarrow> nat \<Rightarrow> Addr option"
  FilterPodNetworkRoutes :: "Route list \<Rightarrow> DHCPConfig \<Rightarrow> Route list"
  decode_ports :: port_decoder

text \<open>
  The fields of \<open>RouterPodNetworkConfigurator\<close>, the handler apart (it is passed along).
  The links that Prepare looks up, and the pointer \<open>vmMac\<close> that Discover sets, are
  \<open>None\<close> while the Go field is nil.
\<close>

record RouterPodNetworkConfigurator =
  vmi :: VirtualMachineInstance
  vmiSpecIface :: VMIInterface
  ipv4Enabled :: bool
  ipv6Enabled :: bool
  launcherPID :: int
  vmMac :: "HardwareAddr option"
  podNicLink :: Link
  tapDeviceName :: string
  tapNicLink :: "Link option"
  bridgeDeviceName :: string
  bridgeLink :: "Link option"
  podIfaceIPv4Routes :: "Route list"
  podIPv4Addr :: Addr
  podIfaceIPv6Routes :: "Route list"
  podIPv6Addr :: Addr
  defaultIPv4Gateway :: ip
  defaultIPv6Gateway :: ip

text \<open>
  A method of the configurator ends by returning nil, by returning an error, or in a
  panic on a nil pointer.
\<close>

datatype outcome = Success | Failure error | Panic

definition zero_Addr :: Addr where
  "zero_Addr = \<lparr>Addr_IP = [], Addr_Mask = []\<rparr>"

definition isMultiqueue :: "VirtualMachineInstance \<Rightarrow> bool" where
  "isMultiqueue v \<longleftrightarrow> NetworkInterfaceMultiQueue v \<noteq> None \<and> NetworkInterfaceMultiQueue v = Some True"

definition calculateNetworkQueues :: "Deps \<Rightarrow> VirtualMachineInstance \<Rightarrow> 32 word" where
  "calculateNetworkQueues deps v = (if isMultiqueue v then CalculateNetworkQueues deps v else 0)"

subsection \<open>Discovery\<close>


text \<open>
  \<open>NewRouterPodNetworkConfigurator\<close> sets four fields and leaves the others zero; the
  pod link is nil until discovery has looked it up, so the record of the configurator
  exists from that point on.
\<close>

definition zero_Link :: Link where
  "zero_Link = \<lparr>Link_Name = [], Link_Index = 0, Link_MTU = 0, Link_HardwareAddr = [], Link_Type = []\<rparr>"




subsection \<open>The DHCP configuration\<close>

datatype panic = NilPointerDereference | IndexOutOfRange

definition zero_DHCPConfig :: DHCPConfig where
  "zero_DHCPConfig =
     \<lparr>DHCP_MAC = [], DHCP_IPAMDisabled = False, DHCP_IP = zero_Addr, DHCP_IPv6 = zero_Addr,
      DHCP_Routes = None, DHCP_IPv6Routes = None, DHCP_Gateway = [], DHCP_IPv6Gateway = []\<rparr>"

definition dhcp_ipv4 :: "Deps \<Rightarrow> RouterPodNetworkConfigurator \<Rightarrow> DHCPConfig \<Rightarrow> panic + DHCPConfig" where
  "dhcp_ipv4 deps b dhcpConfig =
     (case HostAddr deps (Addr_IP (podIPv4Addr b)) (8 * 4) of
        None \<Rightarrow> Inl NilPointerDereference
      | Some ipv4Addr \<Rightarrow>
          (let c1 = dhcpConfig\<lparr>DHCP_IP := ipv4Addr\<rparr>;
               c2 = (if length (podIfaceIPv4Routes b) > 1
                     then c1\<lparr>DHCP_Routes := Some (FilterPodNetworkRoutes deps (podIfaceIPv4Routes b) c1)\<rparr>
                     else c1)
           in Inr (c2\<lparr>DHCP_Gateway := IPNet_IP localIPv4Addr\<rparr>)))"

definition dhcp_ipv6 :: "Deps \<Rightarrow> RouterPodNetworkConfigurator \<Rightarrow> DHCPConfig \<Rightarrow> panic + DHCPConfig" where
  "dhcp_ipv6 deps b dhcpConfig =
     (case HostAddr deps (Addr_IP (podIPv6Addr b)) (8 * 16) of
        None \<Rightarrow> Inl NilPointerDereference
      | Some ipv6Addr \<Rightarrow>
          (let c1 = dhcpConfig\<lparr>DHCP_IPv6 := ipv6Addr\<rparr>;
               c2 = (if length (podIfaceIPv6Routes b) > 1
                     then c1\<lparr>DHCP_IPv6Routes := Some (FilterPodNetworkRoutes deps (podIfaceIPv6Routes b) c1)\<rparr>
                     else c1)
           in Inr (c2\<lparr>DHCP_IPv6Gateway := defaultIPv6Gateway b\<rparr>)))"

text \<open>
  With a family enabled the configuration copies \<open>*b.vmMac\<close>: a nil pointer, as the
  constructor leaves it until Discover has run, is dereferenced.
\<close>

definition GenerateNonRecoverableDHCPConfig ::
  "Deps \<Rightarrow> RouterPodNetworkConfigurator \<Rightarrow> panic + DHCPConfig" where
  "GenerateNonRecoverableDHCPConfig deps b =
     (if \<not> ipv4Enabled b \<and> \<not> ipv6Enabled b then Inr (zero_DHCPConfig\<lparr>DHCP_IPAMDisabled := True\<rparr>)
      else (case vmMac b of
              None \<Rightarrow> Inl NilPointerDereference
            | Some mac \<Rightarrow>
                (let dhcpConfig = zero_DHCPConfig\<lparr>DHCP_MAC := mac, DHCP_IPAMDisabled := False\<rparr> in
                 case (if ipv4Enabled b then dhcp_ipv4 deps b dhcpConfig else Inr dhcpConfig) of
                   Inl p \<Rightarrow> Inl p
                 | Inr c4 \<Rightarrow> (if ipv6Enabled b then dhcp_ipv6 deps b c4 else Inr c4))))"

subsection \<open>Concrete parameters for runs\<close>

text \<open>
  An instance of the parameters, and a configurator as discovery leaves it for a
  dual-stack pod whose link \<open>eth0\<close> has the addresses 10.244.0.7 and fd00::7 and whose
  default gateways are 10.244.0.1 and fe80::1.
\<close>

definition sample_deps :: Deps where
  "sample_deps =
     \<lparr>CalculateNetworkQueues = (\<lambda>v. 4),
      IsNonRootVMI = (\<lambda>v. False),
      LibvirtUserAndGroupId = ''0'',
      NonRootUID_Itoa = ''107'',
      GenerateTapDeviceName = (\<lambda>n. ''tap'' @ drop 3 n),
      GenerateInPodBridgeInterfaceName = (\<lambda>n. ''k6t-'' @ n),
      RetrieveMacAddressFromVMISpecIface = (\<lambda>i. Inr None),
      DefaultIPv4Dst = \<lparr>IPNet_IP = [0, 0, 0, 0], IPNet_Mask = [0, 0, 0, 0]\<rparr>,
      DefaultIPv6Dst = \<lparr>IPNet_IP = replicate 16 0, IPNet_Mask = replicate 16 0\<rparr>,
      HostAddr = (\<lambda>a bits. Some \<lparr>Addr_IP = a, Addr_Mask = CIDRMask (bits div 8)\<rparr>),
      FilterPodNetworkRoutes = (\<lambda>routes c. routes),
      decode_ports = sample_decoder\<rparr>"

definition sample_vmi :: VirtualMachineInstance where
  "sample_vmi = \<lparr>Annotations = Map.empty, NetworkInterfaceMultiQueue = None\<rparr>"

definition eth0 :: Link where
  "eth0 = \<lparr>Link_Name = ''eth0'', Link_Index = 3, Link_MTU = 1500,
           Link_HardwareAddr = [0x0a, 0x58, 0x0a, 0xf4, 0x00, 0x07], Link_Type = ''veth''\<rparr>"

definition fe80_1 :: ip where
  "fe80_1 = [0xfe, 0x80, 0, 0, 0, 0, 0, 0, 0, 0, 0, 0, 0, 0, 0, 1]"

definition fd00_7 :: ip where
  "fd00_7 = [0xfd, 0x00, 0, 0, 0, 0, 0, 0, 0, 0, 0, 0, 0, 0, 0, 7]"

definition sample_route :: "ip \<Rightarrow> Route" where
  "sample_route gw =
     \<lparr>Route_LinkIndex = 3, Route_Scope = SCOPE_UNIVERSE, Route_Flags = 0, Route_Dst = None, Route_Gw = gw\<rparr>"

definition discovered :: RouterPodNetworkConfigurator where
  "discovered =
     \<lparr>vmi = sample_vmi,
      vmiSpecIface = \<lparr>VMIInterface_Name = ''default'', VMIInterface_MacAddress = []\<rparr>,
      ipv4Enabled = True, ipv6Enabled = True, launcherPID = 42,
      vmMac = Some [0x0a, 0x58, 0x0a, 0xf4, 0x00, 0x07],
      podNicLink = eth0, tapDeviceName = ''tap0'', tapNicLink = None,
      bridgeDeviceName = ''k6t-eth0'', bridgeLink = None,
      podIfaceIPv4Routes = [sample_route [10, 244, 0, 1]],
      podIPv4Addr = \<lparr>Addr_IP = [10, 244, 0, 7], Addr_Mask = CIDRMask 3\<rparr>,
      podIfaceIPv6Routes = [sample_route fe80_1],
      podIPv6Addr = \<lparr>Addr_IP = fd00_7, Addr_Mask = CIDRMask 8\<rparr>,
      defaultIPv4Gateway = [10, 244, 0, 1],
      defaultIPv6Gateway = fe80_1\<rparr>"

subsection \<open>Preparation\<close>

definition configurePodNic ::
  "NetworkHandler \<Rightarrow> RouterPodNetworkConfigurator \<Rightarrow> trace \<Rightarrow> outcome \<times> trace" where
  "configurePodNic h b t0 =
     (case invoke StepPodNic (CLinkSetDown (podNicLink b)) (\<lambda>hist. h_LinkSetDown h hist (podNicLink b)) t0 of
        (Some err, t1) \<Rightarrow> (Failure err, t1)
      | (None, t1) \<Rightarrow>
          (let t2 = (if ipv4Enabled b \<or> ipv6Enabled b then
                       (let t1a = (if ipv4Enabled b
                                   then snd (invoke StepPodNic (CAddrDel (podNicLink b) (podIPv4Addr b))
                                               (\<lambda>hist. h_AddrDel h hist (podNicLink b) (podIPv4Addr b)) t1)
                                   else t1)
                        in if ipv6Enabled b
                           then snd (invoke StepPodNic (CAddrDel (podNicLink b) (podIPv6Addr b))
                                       (\<lambda>hist. h_AddrDel h hist (podNicLink b) (podIPv6Addr b)) t1a)
                           else t1a)
                     else t1)
           in case invoke StepPodNic (CSetRandomMac (Link_Name (podNicLink b)))
                     (\<lambda>hist. h_SetRandomMac h hist (Link_Name (podNicLink b))) t2 of
                (Inl err, t3) \<Rightarrow> (Failure err, t3)
              | (Inr mac, t3) \<Rightarrow>
                  (case invoke StepPodNic (CLinkSetUp (podNicLink b))
                          (\<lambda>hist. h_LinkSetUp h hist (podNicLink b)) t3 of
                     (Some err, t4) \<Rightarrow> (Failure err, t4)
                   | (None, t4) \<Rightarrow> (Success, t4))))"

definition createTapDevice ::
  "NetworkHandler \<Rightarrow> Deps \<Rightarrow> RouterPodNetworkConfigurator \<Rightarrow> trace
     \<Rightarrow> outcome \<times> RouterPodNetworkConfigurator \<times> trace" where
  "createTapDevice h deps b t0 =
     (let tapOwner = (if IsNonRootVMI deps (vmi b) then NonRootUID_Itoa deps
                      else LibvirtUserAndGroupId deps);
          queues = calculateNetworkQueues deps (vmi b)
      in case invoke StepTap
                (CCreateTapDevice (tapDeviceName b) queues (launcherPID b) (Link_MTU (podNicLink b)) tapOwner)
                (\<lambda>hist. h_CreateTapDevice h hist (tapDeviceName b) queues (launcherPID b)
                           (Link_MTU (podNicLink b)) tapOwner) t0 of
           (Some err, t1) \<Rightarrow> (Failure err, b, t1)
         | (None, t1) \<Rightarrow>
             (case invoke StepTap (CLinkByName (tapDeviceName b))
                     (\<lambda>hist. h_LinkByName h hist (tapDeviceName b)) t1 of
                (Inl err, t2) \<Rightarrow> (Failure err, b\<lparr>tapNicLink := None\<rparr>, t2)
              | (Inr link, t2) \<Rightarrow>
                  (case invoke StepTap (CLinkSetUp link) (\<lambda>hist. h_LinkSetUp h hist link) t2 of
                     (Some err, t3) \<Rightarrow> (Failure err, b\<lparr>tapNicLink := Some link\<rparr>, t3)
                   | (None, t3) \<Rightarrow> (Success, b\<lparr>tapNicLink := Some link\<rparr>, t3))))"

text \<open>
  The bridge handed to the handler is the literal
  \<open>&netlink.Bridge{LinkAttrs: netlink.LinkAttrs{Name: b.bridgeDeviceName}}\<close>. A nil tap
  link at this point would be dereferenced, by the handler or by the error log.
\<close>

definition new_bridge :: "string \<Rightarrow> Link" where
  "new_bridge name = zero_Link\<lparr>Link_Name := name, Link_Type := ''bridge''\<rparr>"

definition right_option :: "error + 'a \<Rightarrow> 'a option" where
  "right_option r = (case r of Inl e \<Rightarrow> None | Inr a \<Rightarrow> Some a)"

definition bridge_address ::
  "NetworkHandler \<Rightarrow> Link \<Rightarrow> string \<Rightarrow> trace \<Rightarrow> error option \<times> trace" where
  "bridge_address h bridge text t0 =
     (case invoke StepBridge (CParseAddr text) (\<lambda>hist. h_ParseAddr h hist text) t0 of
        (parsed, t1) \<Rightarrow>
          invoke StepBridge (CAddrAdd bridge (right_option parsed))
            (\<lambda>hist. h_AddrAdd h hist bridge (right_option parsed)) t1)"

definition createBridge ::
  "NetworkHandler \<Rightarrow> RouterPodNetworkConfigurator \<Rightarrow> trace
     \<Rightarrow> outcome \<times> RouterPodNetworkConfigurator \<times> trace" where
  "createBridge h b t0 =
     (let bridge = new_bridge (bridgeDeviceName b) in
      case invoke StepBridge (CLinkAdd bridge) (\<lambda>hist. h_LinkAdd h hist bridge) t0 of
        (Some err, t1) \<Rightarrow> (Failure err, b, t1)
      | (None, t1) \<Rightarrow>
          (case tapNicLink b of
             None \<Rightarrow> (Panic, b, t1)
           | Some tap \<Rightarrow>
               (case invoke StepBridge (CLinkSetMaster tap bridge)
                       (\<lambda>hist. h_LinkSetMaster h hist tap bridge) t1 of
                  (Some err, t2) \<Rightarrow> (Failure err, b, t2)
                | (None, t2) \<Rightarrow>
                    (case invoke StepBridge (CLinkSetUp bridge) (\<lambda>hist. h_LinkSetUp h hist bridge) t2 of
                       (Some err, t3) \<Rightarrow> (Failure err, b, t3)
                     | (None, t3) \<Rightarrow>
                         (case (if ipv4Enabled b then bridge_address h bridge localIPv4Addr_String t3
                                else (None, t3)) of
                            (Some err, t4) \<Rightarrow> (Failure err, b, t4)
                          | (None, t4) \<Rightarrow>
                              (case (if ipv6Enabled b then bridge_address h bridge localIPv6Addr_String t4
                                     else (None, t4)) of
                                 (Some err, t5) \<Rightarrow> (Failure err, b, t5)
                               | (None, t5) \<Rightarrow>
                                   (case invoke StepBridge (CLinkByName (bridgeDeviceName b))
                                           (\<lambda>hist. h_LinkByName h hist (bridgeDeviceName b)) t5 of
                                      (Inl err, t6) \<Rightarrow> (Failure err, b\<lparr>bridgeLink := None\<rparr>, t6)
                                    | (Inr link, t6) \<Rightarrow>
                                        (Success, b\<lparr>bridgeLink := Some link\<rparr>, t6))))))))"

definition protoToken :: "Port \<Rightarrow> string" where
  "protoToken port = (if Port_Protocol port = ''UDP'' then ''udp'' else ''tcp'')"

definition nft_rule :: "string \<Rightarrow> ip \<Rightarrow> Port \<Rightarrow> token list" where
  "nft_rule ifname localIP port =
     [Lit ''iifname'', Lit ifname, Lit (protoToken port), Lit ''dport'', Dec (Port_Port port),
      Lit ''dnat'', IPString localIP]"

definition ipt_rule :: "ip \<Rightarrow> Port \<Rightarrow> token list" where
  "ipt_rule localIP port =
     [Lit ''-p'', Lit (protoToken port), Lit ''--dport'', Dec (Port_Port port),
      Lit ''--jump'', Lit ''DNAT'', Lit ''--to-destination'', IPString localIP]"

fun nftables_rules ::
  "NetworkHandler \<Rightarrow> Protocol \<Rightarrow> string \<Rightarrow> ip \<Rightarrow> Port list \<Rightarrow> trace \<Rightarrow> outcome \<times> trace" where
  "nftables_rules h proto ifname localIP [] t0 = (Success, t0)"
| "nftables_rules h proto ifname localIP (port # ports) t0 =
     (case invoke (StepNAT proto)
             (CNftablesAppendRule proto ''nat'' ''prerouting'' (nft_rule ifname localIP port))
             (\<lambda>hist. h_NftablesAppendRule h hist proto ''nat'' ''prerouting''
                        (nft_rule ifname localIP port)) t0 of
        (Some err, t1) \<Rightarrow> (Failure err, t1)
      | (None, t1) \<Rightarrow> nftables_rules h proto ifname localIP ports t1)"

fun iptables_rules ::
  "NetworkHandler \<Rightarrow> Protocol \<Rightarrow> ip \<Rightarrow> Port list \<Rightarrow> trace \<Rightarrow> outcome \<times> trace" where
  "iptables_rules h proto localIP [] t0 = (Success, t0)"
| "iptables_rules h proto localIP (port # ports) t0 =
     (case invoke (StepNAT proto)
             (CIptablesAppendRule proto ''nat'' ''PREROUTING'' (ipt_rule localIP port))
             (\<lambda>hist. h_IptablesAppendRule h hist proto ''nat'' ''PREROUTING''
                        (ipt_rule localIP port)) t0 of
        (Some err, t1) \<Rightarrow> (Failure err, t1)
      | (None, t1) \<Rightarrow> iptables_rules h proto localIP ports t1)"

definition gateway_route :: "RouterPodNetworkConfigurator \<Rightarrow> IPNet \<Rightarrow> ip \<Rightarrow> Route" where
  "gateway_route b defaultDst defaultGateway =
     \<lparr>Route_LinkIndex = Link_Index (podNicLink b), Route_Scope = SCOPE_UNIVERSE,
      Route_Flags = FLAG_ONLINK, Route_Dst = Some defaultDst, Route_Gw = defaultGateway\<rparr>"

definition gateway_neigh ::
  "RouterPodNetworkConfigurator \<Rightarrow> Protocol \<Rightarrow> ip \<Rightarrow> HardwareAddr \<Rightarrow> Neigh" where
  "gateway_neigh b proto defaultGateway gatewayMacAddr =
     \<lparr>Neigh_LinkIndex = Link_Index (podNicLink b),
      Neigh_Family = (if proto = ProtocolIPv6 then FAMILY_V6 else FAMILY_V4),
      Neigh_State = NUD_PERMANENT, Neigh_Flags = 0,
      Neigh_IP = defaultGateway, Neigh_HardwareAddr = gatewayMacAddr\<rparr>"

definition pod_route :: "Link \<Rightarrow> IPNet \<Rightarrow> Route" where
  "pod_route bridge podIP =
     \<lparr>Route_LinkIndex = Link_Index bridge, Route_Scope = SCOPE_HOST,
      Route_Flags = 0, Route_Dst = Some podIP, Route_Gw = []\<rparr>"

text \<open>
  \<open>createNATRulesForReservedPorts\<close> in its three parts: IP forwarding, the DNAT rules
  through whichever backend is there, and the routes and the neighbour entry.
\<close>

definition dnat_rules ::
  "NetworkHandler \<Rightarrow> RouterPodNetworkConfigurator \<Rightarrow> Protocol \<Rightarrow> Port list \<Rightarrow> IPNet \<Rightarrow> trace
     \<Rightarrow> outcome \<times> trace" where
  "dnat_rules h b proto ports localAddr t1 =
     (case invoke (StepNAT proto) (CNftablesLoad proto) (\<lambda>hist. h_NftablesLoad h hist proto) t1 of
        (None, t2) \<Rightarrow>
          nftables_rules h proto (Link_Name (podNicLink b)) (IPNet_IP localAddr) ports t2
      | (Some loadErr, t2) \<Rightarrow>
          (case invoke (StepNAT proto) (CHasNatIptables proto)
                  (\<lambda>hist. h_HasNatIptables h hist proto) t2 of
             (True, t3) \<Rightarrow> iptables_rules h proto (IPNet_IP localAddr) ports t3
           | (False, t3) \<Rightarrow> (Success, t3)))"

definition routes_and_neigh ::
  "NetworkHandler \<Rightarrow> RouterPodNetworkConfigurator \<Rightarrow> Protocol \<Rightarrow> IPNet \<Rightarrow> IPNet \<Rightarrow> ip
     \<Rightarrow> HardwareAddr \<Rightarrow> trace \<Rightarrow> outcome \<times> trace" where
  "routes_and_neigh h b proto podIP defaultDst defaultGateway gatewayMacAddr t4 =
     (case invoke (StepNAT proto) (CRouteAdd (gateway_route b defaultDst defaultGateway))
             (\<lambda>hist. h_RouteAdd h hist (gateway_route b defaultDst defaultGateway)) t4 of
        (Some err, t5) \<Rightarrow> (Failure err, t5)
      | (None, t5) \<Rightarrow>
          (case invoke (StepNAT proto)
                  (CNeighAdd (gateway_neigh b proto defaultGateway gatewayMacAddr))
                  (\<lambda>hist. h_NeighAdd h hist
                             (gateway_neigh b proto defaultGateway gatewayMacAddr)) t5 of
             (Some err, t6) \<Rightarrow> (Failure err, t6)
           | (None, t6) \<Rightarrow>
               (case bridgeLink b of
                  None \<Rightarrow> (Panic, t6)
                | Some bridge \<Rightarrow>
                    (case invoke (StepNAT proto) (CRouteAdd (pod_route bridge podIP))
                            (\<lambda>hist. h_RouteAdd h hist (pod_route bridge podIP)) t6 of
                       (Some err, t7) \<Rightarrow> (Failure err, t7)
                     | (None, t7) \<Rightarrow> (Success, t7)))))"

definition createNATRulesForReservedPorts ::
  "NetworkHandler \<Rightarrow> RouterPodNetworkConfigurator \<Rightarrow> Protocol \<Rightarrow> Port list \<Rightarrow> IPNet \<Rightarrow> IPNet
     \<Rightarrow> IPNet \<Rightarrow> ip \<Rightarrow> HardwareAddr \<Rightarrow> trace \<Rightarrow> outcome \<times> trace" where
  "createNATRulesForReservedPorts h b proto ports localAddr podIP defaultDst defaultGateway
       gatewayMacAddr t0 =
     (case invoke (StepNAT proto) (CConfigureIpForwarding proto)
             (\<lambda>hist. h_ConfigureIpForwarding h hist proto) t0 of
        (Some err, t1) \<Rightarrow> (Failure err, t1)
      | (None, t1) \<Rightarrow>
          (case dnat_rules h b proto ports localAddr t1 of
             (Success, t4) \<Rightarrow>
               routes_and_neigh h b proto podIP defaultDst defaultGateway gatewayMacAddr t4
           | failed \<Rightarrow> failed))"

definition proxy_neigh :: "RouterPodNetworkConfigurator \<Rightarrow> int \<Rightarrow> ip \<Rightarrow> Neigh" where
  "proxy_neigh b family addr =
     \<lparr>Neigh_LinkIndex = Link_Index (podNicLink b), Neigh_Family = family, Neigh_State = 0,
      Neigh_Flags = NTF_PROXY, Neigh_IP = addr, Neigh_HardwareAddr = []\<rparr>"

definition configureNeighbourReply ::
  "NetworkHandler \<Rightarrow> RouterPodNetworkConfigurator \<Rightarrow> trace \<Rightarrow> outcome \<times> trace" where
  "configureNeighbourReply h b t0 =
     (case
        (if ipv4Enabled b then
           (case invoke StepNeighbourReply (CEnableIpv4ArpProxyOnIface (Link_Name (podNicLink b)))
                   (\<lambda>hist. h_EnableIpv4ArpProxyOnIface h hist (Link_Name (podNicLink b))) t0 of
              (Some err, t1) \<Rightarrow> (Failure err, t1)
            | (None, t1) \<Rightarrow>
                (case invoke StepNeighbourReply
                        (CNeighAdd (proxy_neigh b FAMILY_V4 (Addr_IP (podIPv4Addr b))))
                        (\<lambda>hist. h_NeighAdd h hist (proxy_neigh b FAMILY_V4 (Addr_IP (podIPv4Addr b)))) t1 of
                   (Some err, t2) \<Rightarrow> (Failure err, t2)
                 | (None, t2) \<Rightarrow> (Success, t2)))
         else (Success, t0)) of
        (Success, t2) \<Rightarrow>
          (if ipv6Enabled b then
             (case invoke StepNeighbourReply CEnableIpv6NdpProxyForAll
                     (\<lambda>hist. h_EnableIpv6NdpProxyForAll h hist) t2 of
                (Some err, t3) \<Rightarrow> (Failure err, t3)
              | (None, t3) \<Rightarrow>
                  (case invoke StepNeighbourReply (CEnableIpv6NdpProxyOnIface (Link_Name (podNicLink b)))
                          (\<lambda>hist. h_EnableIpv6NdpProxyOnIface h hist (Link_Name (podNicLink b))) t3 of
                     (Some err, t4) \<Rightarrow> (Failure err, t4)
                   | (None, t4) \<Rightarrow>
                       (case invoke StepNeighbourReply
                               (CNeighAdd (proxy_neigh b FAMILY_V6 (Addr_IP (podIPv6Addr b))))
                               (\<lambda>hist. h_NeighAdd h hist
                                          (proxy_neigh b FAMILY_V6 (Addr_IP (podIPv6Addr b)))) t4 of
                          (Some err, t5) \<Rightarrow> (Failure err, t5)
                        | (None, t5) \<Rightarrow> (Success, t5))))
           else (Success, t2))
      | failed \<Rightarrow> failed)"

definition PreparePodNetworkInterface ::
  "NetworkHandler \<Rightarrow> Deps \<Rightarrow> RouterPodNetworkConfigurator \<Rightarrow> trace
     \<Rightarrow> outcome \<times> RouterPodNetworkConfigurator \<times> trace" where
  "PreparePodNetworkInterface h deps b t0 =
     (case configurePodNic h b t0 of
        (Success, t1) \<Rightarrow>
          (case createTapDevice h deps b t1 of
             (Success, b2, t2) \<Rightarrow>
               (case createBridge h b2 t2 of
                  (Success, b3, t3) \<Rightarrow>
                    (let reservedPorts = reservedPortsInPod (decode_ports deps) (vmi b3) in
                     case (if ipv4Enabled b3
                           then createNATRulesForReservedPorts h b3 ProtocolIPv4 reservedPorts
                                  localIPv4Addr
                                  \<lparr>IPNet_IP = Addr_IP (podIPv4Addr b3), IPNet_Mask = CIDRMask 4\<rparr>
                                  (DefaultIPv4Dst deps) (defaultIPv4Gateway b3) gatewayMacAddress t3
                           else (Success, t3)) of
                       (Success, t4) \<Rightarrow>
                         (case (if ipv6Enabled b3
                                then createNATRulesForReservedPorts h b3 ProtocolIPv6 reservedPorts
                                       localIPv6Addr
                                       \<lparr>IPNet_IP = Addr_IP (podIPv6Addr b3), IPNet_Mask = CIDRMask 16\<rparr>
                                       (DefaultIPv6Dst deps) (defaultIPv6Gateway b3) gatewayMacAddress t4
                                else (Success, t4)) of
                            (Success, t5) \<Rightarrow>
                              (case configureNeighbourReply h b3 t5 of
                                 (r, t6) \<Rightarrow> (r, b3, t6))
                          | (failed, t5) \<Rightarrow> (failed, b3, t5))
                     | (failed, t4) \<Rightarrow> (failed, b3, t4))
                | failed \<Rightarrow> failed)
           | failed \<Rightarrow> failed)
      | (failed, t1) \<Rightarrow> (failed, b, t1))"

subsection \<open>Notions for the statements about the configurator\<close>

text \<open>
  The steps of Prepare in the order of the specification, as ranks of the tags.
\<close>

fun step_rank :: "step \<Rightarrow> nat" where
  "step_rank StepDiscover = 0"
| "step_rank StepLearnRoutes = 1"
| "step_rank StepPodNic = 2"
| "step_rank StepTap = 3"
| "step_rank StepBridge = 4"
| "step_rank (StepNAT ProtocolIPv4) = 5"
| "step_rank (StepNAT ProtocolIPv6) = 6"
| "step_rank StepNeighbourReply = 7"

text \<open>
  The handler calls of the first step in the order of the specification: link down, delete
  the addresses of the enabled families, random MAC, link up.
\<close>

definition pod_nic_plan :: "RouterPodNetworkConfigurator \<Rightarrow> call list" where
  "pod_nic_plan b =
     [CLinkSetDown (podNicLink b)]
     @ (if ipv4Enabled b then [CAddrDel (podNicLink b) (podIPv4Addr b)] else [])
     @ (if ipv6Enabled b then [CAddrDel (podNicLink b) (podIPv6Addr b)] else [])
     @ [CSetRandomMac (Link_Name (podNicLink b)), CLinkSetUp (podNicLink b)]"

text \<open>
  Three handler methods are called with their error dropped or taken as a choice, so
  that their failure is not a failure of the step: \<open>AddrDel\<close> (\<open>_ =\<close>), \<open>ParseAddr\<close>
  (\<open>addr, _ :=\<close>) and \<open>NftablesLoad\<close> (whose error selects the iptables path).
\<close>

fun tolerated :: "call \<Rightarrow> bool" where
  "tolerated (CAddrDel l a) = True"
| "tolerated (CParseAddr s) = True"
| "tolerated (CNftablesLoad p) = True"
| "tolerated c = False"

text \<open>
  A run of events is clean after a history when every call in it succeeded or is
  tolerated; it is aborted with \<open>e\<close> when that holds for all calls but the last, and the
  last call is not tolerated and failed with \<open>e\<close>. A run is faithful to an outcome when it
  is clean for success and aborted with the returned error for a failure.
\<close>

fun clean :: "NetworkHandler \<Rightarrow> call list \<Rightarrow> (step \<times> call) list \<Rightarrow> bool" where
  "clean h hist [] = True"
| "clean h hist (ev # evs) =
     ((tolerated (snd ev) \<or> call_error h hist (snd ev) = None) \<and> clean h (hist @ [snd ev]) evs)"

fun aborted :: "NetworkHandler \<Rightarrow> call list \<Rightarrow> (step \<times> call) list \<Rightarrow> error \<Rightarrow> bool" where
  "aborted h hist [] e = False"
| "aborted h hist [ev] e = (\<not> tolerated (snd ev) \<and> call_error h hist (snd ev) = Some e)"
| "aborted h hist (ev # ev' # evs) e =
     ((tolerated (snd ev) \<or> call_error h hist (snd ev) = None)
      \<and> aborted h (hist @ [snd ev]) (ev' # evs) e)"

definition faithful :: "NetworkHandler \<Rightarrow> call list \<Rightarrow> outcome \<Rightarrow> (step \<times> call) list \<Rightarrow> bool" where
  "faithful h hist r evs =
     (case r of Success \<Rightarrow> clean h hist evs | Failure e \<Rightarrow> aborted h hist evs e | Panic \<Rightarrow> False)"


text \<open>
  A handler for concrete runs: every method succeeds; the lookups answer for the
  dual-stack pod of \<open>discovered\<close>.
\<close>

definition sample_handler :: NetworkHandler where
  "sample_handler =
     \<lparr>h_LinkByName = (\<lambda>hist n. Inr (if n = ''eth0'' then eth0
                                     else zero_Link\<lparr>Link_Name := n, Link_Index := 4 + int (length hist)\<rparr>)),
      h_ReadIPv4AndIPv6AddrFromLink =
        (\<lambda>hist n. Inr (Some \<lparr>Addr_IP = [10, 244, 0, 7], Addr_Mask = CIDRMask 3\<rparr>,
                        Some \<lparr>Addr_IP = fd00_7, Addr_Mask = CIDRMask 8\<rparr>)),
      h_EnableIPv6Flags = (\<lambda>hist. None),
      h_RouteList = (\<lambda>hist l f. Inr [sample_route (if f = FAMILY_V4 then [10, 244, 0, 1] else fe80_1)]),
      h_GetDefaultGateway = (\<lambda>hist f. Inr (if f = FAMILY_V4 then [10, 244, 0, 1] else fe80_1)),
      h_LinkSetDown = (\<lambda>hist l. None),
      h_AddrDel = (\<lambda>hist l a. None),
      h_SetRandomMac = (\<lambda>hist n. Inr [0x02, 0x00, 0x00, 0x12, 0x34, 0x56]),
      h_LinkSetUp = (\<lambda>hist l. None),
      h_CreateTapDevice = (\<lambda>hist n q pid mtu owner. None),
      h_LinkAdd = (\<lambda>hist l. None),
      h_LinkSetMaster = (\<lambda>hist l m. None),
      h_ParseAddr = (\<lambda>hist s. if s = localIPv4Addr_String
                                then Inr \<lparr>Addr_IP = IPNet_IP localIPv4Addr, Addr_Mask = IPNet_Mask localIPv4Addr\<rparr>
                                else Inr \<lparr>Addr_IP = IPNet_IP localIPv6Addr, Addr_Mask = IPNet_Mask localIPv6Addr\<rparr>),
      h_AddrAdd = (\<lambda>hist l a. None),
      h_ConfigureIpForwarding = (\<lambda>hist p. None),
      h_NftablesLoad = (\<lambda>hist p. None),
      h_NftablesAppendRule = (\<lambda>hist p tb ch r. None),
      h_HasNatIptables = (\<lambda>hist p. True),
      h_IptablesAppendRule = (\<lambda>hist p tb ch r. None),
      h_RouteAdd = (\<lambda>hist r. None),
      h_NeighAdd = (\<lambda>hist n. None),
      h_EnableIpv4ArpProxyOnIface = (\<lambda>hist n. None),
      h_EnableIpv6NdpProxyForAll = (\<lambda>hist. None),
      h_EnableIpv6NdpProxyOnIface = (\<lambda>hist n. None)\<rparr>"


text \<open>
  Variations of the handler: the tap device cannot be created; the pod link has no IPv6
  route; neither nftables nor iptables NAT is there.
\<close>

definition tap_failing_handler :: NetworkHandler where
  "tap_failing_handler =
     sample_handler\<lparr>h_CreateTapDevice :=
       (\<lambda>hist n q pid mtu owner. Some ''tap: device or resource busy'')\<rparr>"




subsection \<open>The handler calls of a preparation, step by step\<close>

text \<open>
  Modelled from the spec: what each step of Prepare asks of the handler, as the list of
  calls in the order of section 4.4 (for the pod NIC this is \<open>pod_nic_plan\<close> above).
  These lists are what the runs of \<open>PreparePodNetworkInterface\<close> are compared with.
  Where an argument of a call is an answer of the handler (the link that \<open>LinkByName\<close>
  returns for the tap and for the bridge, the address that \<open>ParseAddr\<close> returns, the
  NAT backend that \<open>NftablesLoad\<close> and \<open>HasNatIptables\<close> report), the list asks the
  handler at the history reached by then.
\<close>

definition tagged :: "step \<Rightarrow> call list \<Rightarrow> trace" where
  "tagged s cs = map (Pair s) cs"

text \<open>
  A run follows a plan when its events are an initial part of the plan, and all of the
  plan when the outcome is success.
\<close>

definition follows :: "outcome \<Rightarrow> trace \<Rightarrow> trace \<Rightarrow> bool" where
  "follows r evs plan = (prefix evs plan \<and> (r = Success \<longrightarrow> evs = plan))"

text \<open>
  Step 2: create the tap device, owned by the hypervisor process, with the queues of the
  interface and the MTU of the pod link; look it up; link it up.
\<close>

definition tap_create :: "Deps \<Rightarrow> RouterPodNetworkConfigurator \<Rightarrow> call" where
  "tap_create deps b =
     CCreateTapDevice (tapDeviceName b) (calculateNetworkQueues deps (vmi b)) (launcherPID b)
       (Link_MTU (podNicLink b))
       (if IsNonRootVMI deps (vmi b) then NonRootUID_Itoa deps else LibvirtUserAndGroupId deps)"

definition tap_link ::
  "NetworkHandler \<Rightarrow> Deps \<Rightarrow> RouterPodNetworkConfigurator \<Rightarrow> call list \<Rightarrow> error + Link" where
  "tap_link h deps b hist = h_LinkByName h (hist @ [tap_create deps b]) (tapDeviceName b)"

definition tap_plan ::
  "NetworkHandler \<Rightarrow> Deps \<Rightarrow> RouterPodNetworkConfigurator \<Rightarrow> call list \<Rightarrow> call list" where
  "tap_plan h deps b hist =
     [tap_create deps b, CLinkByName (tapDeviceName b)]
     @ (case tap_link h deps b hist of Inl e \<Rightarrow> [] | Inr tap \<Rightarrow> [CLinkSetUp tap])"

text \<open>
  Step 3: create the bridge, attach the tap to it, bring the bridge up, give it the fixed
  local address of each enabled family, and look it up.
\<close>

definition bridge_address_plan :: "NetworkHandler \<Rightarrow> Link \<Rightarrow> string \<Rightarrow> call list \<Rightarrow> call list" where
  "bridge_address_plan h bridge text hist =
     [CParseAddr text, CAddrAdd bridge (right_option (h_ParseAddr h hist text))]"

definition bridge_setup ::
  "NetworkHandler \<Rightarrow> RouterPodNetworkConfigurator \<Rightarrow> Link \<Rightarrow> call list \<Rightarrow> call list" where
  "bridge_setup h b tap hist =
     (let bridge = new_bridge (bridgeDeviceName b);
          create = [CLinkAdd bridge, CLinkSetMaster tap bridge, CLinkSetUp bridge];
          v4 = (if ipv4Enabled b
                then bridge_address_plan h bridge localIPv4Addr_String (hist @ create) else []);
          v6 = (if ipv6Enabled b
                then bridge_address_plan h bridge localIPv6Addr_String (hist @ create @ v4) else [])
      in create @ v4 @ v6)"

definition bridge_link ::
  "NetworkHandler \<Rightarrow> RouterPodNetworkConfigurator \<Rightarrow> Link \<Rightarrow> call list \<Rightarrow> error + Link" where
  "bridge_link h b tap hist =
     h_LinkByName h (hist @ bridge_setup h b tap hist) (bridgeDeviceName b)"

definition bridge_plan ::
  "NetworkHandler \<Rightarrow> RouterPodNetworkConfigurator \<Rightarrow> Link \<Rightarrow> call list \<Rightarrow> call list" where
  "bridge_plan h b tap hist = bridge_setup h b tap hist @ [CLinkByName (bridgeDeviceName b)]"

text \<open>
  Step 4, for one family: IP forwarding; the DNAT rule of every reserved port through
  nftables, or through iptables when nftables cannot be loaded and iptables NAT is there;
  the on-link route to the gateway, the permanent neighbour entry of the gateway, and the
  route of the pod address to the bridge.
\<close>

definition dnat_plan ::
  "NetworkHandler \<Rightarrow> RouterPodNetworkConfigurator \<Rightarrow> Protocol \<Rightarrow> Port list \<Rightarrow> IPNet
     \<Rightarrow> call list \<Rightarrow> call list" where
  "dnat_plan h b proto ports localAddr hist =
     CNftablesLoad proto
     # (if h_NftablesLoad h hist proto = None
        then map (\<lambda>port. CNftablesAppendRule proto ''nat'' ''prerouting''
                           (nft_rule (Link_Name (podNicLink b)) (IPNet_IP localAddr) port)) ports
        else CHasNatIptables proto
             # (if h_HasNatIptables h (hist @ [CNftablesLoad proto]) proto
                then map (\<lambda>port. CIptablesAppendRule proto ''nat'' ''PREROUTING''
                                   (ipt_rule (IPNet_IP localAddr) port)) ports
                else []))"

definition routes_plan ::
  "RouterPodNetworkConfigurator \<Rightarrow> Link \<Rightarrow> Protocol \<Rightarrow> IPNet \<Rightarrow> IPNet \<Rightarrow> ip \<Rightarrow> HardwareAddr
     \<Rightarrow> call list" where
  "routes_plan b bridge proto podIP defaultDst defaultGateway gatewayMacAddr =
     [CRouteAdd (gateway_route b defaultDst defaultGateway),
      CNeighAdd (gateway_neigh b proto defaultGateway gatewayMacAddr),
      CRouteAdd (pod_route bridge podIP)]"

definition nat_plan ::
  "NetworkHandler \<Rightarrow> RouterPodNetworkConfigurator \<Rightarrow> Link \<Rightarrow> Protocol \<Rightarrow> Port list \<Rightarrow> IPNet
     \<Rightarrow> IPNet \<Rightarrow> IPNet \<Rightarrow> ip \<Rightarrow> HardwareAddr \<Rightarrow> call list \<Rightarrow> call list" where
  "nat_plan h b bridge proto ports localAddr podIP defaultDst defaultGateway gatewayMacAddr hist =
     CConfigureIpForwarding proto
     # dnat_plan h b proto ports localAddr (hist @ [CConfigureIpForwarding proto])
     @ routes_plan b bridge proto podIP defaultDst defaultGateway gatewayMacAddr"

text \<open>
  Step 5: proxy ARP on the pod link and the proxy neighbour entry of the pod's IPv4
  address; NDP proxy for all links and on the pod link, and the proxy neighbour entry of
  the pod's IPv6 address.
\<close>

definition neigh_plan :: "RouterPodNetworkConfigurator \<Rightarrow> call list" where
  "neigh_plan b =
     (if ipv4Enabled b
      then [CEnableIpv4ArpProxyOnIface (Link_Name (podNicLink b)),
            CNeighAdd (proxy_neigh b FAMILY_V4 (Addr_IP (podIPv4Addr b)))]
      else [])
     @ (if ipv6Enabled b
        then [CEnableIpv6NdpProxyForAll,
              CEnableIpv6NdpProxyOnIface (Link_Name (podNicLink b)),
              CNeighAdd (proxy_neigh b FAMILY_V6 (Addr_IP (podIPv6Addr b)))]
        else [])"

text \<open>
  The whole preparation: the steps one after the other, each at the history that the
  steps before it leave, the NAT step once for each enabled family with the reserved ports
  of the instance. The tap link and the bridge link are what the lookups of steps 2 and 3
  answer; where a lookup fails the plan ends with its step, as no later call can be
  written down without the link.
\<close>

definition plan_after_bridge ::
  "NetworkHandler \<Rightarrow> Deps \<Rightarrow> RouterPodNetworkConfigurator \<Rightarrow> Link \<Rightarrow> call list \<Rightarrow> trace" where
  "plan_after_bridge h deps b bridge hist =
     (let ports = reservedPortsInPod (decode_ports deps) (vmi b);
          v4 = (if ipv4Enabled b
                then nat_plan h b bridge ProtocolIPv4 ports localIPv4Addr
                       \<lparr>IPNet_IP = Addr_IP (podIPv4Addr b), IPNet_Mask = CIDRMask 4\<rparr>
                       (DefaultIPv4Dst deps) (defaultIPv4Gateway b) gatewayMacAddress hist
                else []);
          v6 = (if ipv6Enabled b
                then nat_plan h b bridge ProtocolIPv6 ports localIPv6Addr
                       \<lparr>IPNet_IP = Addr_IP (podIPv6Addr b), IPNet_Mask = CIDRMask 16\<rparr>
                       (DefaultIPv6Dst deps) (defaultIPv6Gateway b) gatewayMacAddress (hist @ v4)
                else [])
      in tagged (StepNAT ProtocolIPv4) v4 @ tagged (StepNAT ProtocolIPv6) v6
         @ tagged StepNeighbourReply (neigh_plan b))"

definition plan_after_tap ::
  "NetworkHandler \<Rightarrow> Deps \<Rightarrow> RouterPodNetworkConfigurator \<Rightarrow> Link \<Rightarrow> call list \<Rightarrow> trace" where
  "plan_after_tap h deps b tap hist =
     tagged StepBridge (bridge_plan h b tap hist)
     @ (case bridge_link h b tap hist of
          Inl e \<Rightarrow> []
        | Inr bridge \<Rightarrow> plan_after_bridge h deps b bridge (hist @ bridge_plan h b tap hist))"

definition prepare_plan ::
  "NetworkHandler \<Rightarrow> Deps \<Rightarrow> RouterPodNetworkConfigurator \<Rightarrow> call list \<Rightarrow> trace" where
  "prepare_plan h deps b hist =
     tagged StepPodNic (pod_nic_plan b)
     @ tagged StepTap (tap_plan h deps b (hist @ pod_nic_plan b))
     @ (case tap_link h deps b (hist @ pod_nic_plan b) of
          Inl e \<Rightarrow> []
        | Inr tap \<Rightarrow>
            plan_after_tap h deps b tap
              (hist @ pod_nic_plan b @ tap_plan h deps b (hist @ pod_nic_plan b)))"

section \<open>Router advertisements (package ndp)\<close>

text \<open>
  The messages and options of the NDP library, as far as the advertiser builds or
  distinguishes them. A duration is a number of seconds or the library's
  \<open>ndp.Infinity\<close>.
\<close>

datatype duration = Seconds nat | Infinity

datatype ndp_option =
    PrefixInformation nat bool bool duration duration ip
  | LinkLayerAddress HardwareAddr

record RouterAdvertisement =
  ManagedConfiguration :: bool
  OtherConfiguration :: bool
  RouterLifetime :: duration
  ReachableTime :: duration
  Options :: "ndp_option list"

datatype ndp_message =
    RouterSolicitation
  | RouterAdvertisementMsg RouterAdvertisement
  | NeighborSolicitation
  | NeighborAdvertisement













section \<open>Guest-agent replies (package agentpoller)\<close>

text \<open>
  \<open>stripRE\<close> is the compiled expression
  \<^verbatim>\<open>{\s*\"return\":\s*([{\[][\s\S]*[}\]])\s*}\<close>. Its \<open>FindStringSubmatch\<close> returns nil
  when nothing matches, and otherwise the leftmost match followed by its group. The
  matcher below follows Go's leftmost-first rule for this expression: the first opening
  brace from which the expression matches; white space is skipped greedily (what follows
  it is never white space); the group begins with a brace or bracket and, its middle
  being greedy, ends at the last closing brace or bracket that is followed by optional
  white space and a closing brace.
\<close>

definition re_space :: "char \<Rightarrow> bool" where
  "re_space c \<longleftrightarrow>
     c = CHR '' '' \<or> c = CHR 0x09 \<or> c = CHR 0x0A \<or> c = CHR 0x0C \<or> c = CHR 0x0D"

definition closes_wrapper :: "string \<Rightarrow> bool" where
  "closes_wrapper s = (case dropWhile re_space s of [] \<Rightarrow> False | c # _ \<Rightarrow> c = CHR ''}'')"

fun group_end :: "string \<Rightarrow> nat option" where
  "group_end [] = None"
| "group_end (c # cs) =
     (case group_end cs of
        Some j \<Rightarrow> Some (Suc j)
      | None \<Rightarrow> if (c = CHR ''}'' \<or> c = CHR '']'') \<and> closes_wrapper cs then Some 0 else None)"

definition return_key :: string where
  "return_key = [dquote] @ ''return'' @ [dquote] @ '':''"

definition match_here :: "string \<Rightarrow> string list option" where
  "match_here s =
     (case s of
        [] \<Rightarrow> None
      | c0 # r0 \<Rightarrow>
          if c0 \<noteq> CHR ''{'' then None
          else (let ws1 = takeWhile re_space r0; r1 = dropWhile re_space r0 in
                if \<not> HasPrefix r1 return_key then None
                else (let k = drop (length return_key) r1;
                          ws2 = takeWhile re_space k; r2 = dropWhile re_space k in
                      case r2 of
                        [] \<Rightarrow> None
                      | c # r3 \<Rightarrow>
                          if c \<noteq> CHR ''{'' \<and> c \<noteq> CHR ''['' then None
                          else (case group_end r3 of
                                  None \<Rightarrow> None
                                | Some j \<Rightarrow>
                                    (let grp = c # take (Suc j) r3;
                                         ws3 = takeWhile re_space (drop (Suc j) r3)
                                     in Some [[c0] @ ws1 @ return_key @ ws2 @ grp @ ws3 @ ''}'',
                                              grp])))))"

fun stripRE_FindStringSubmatch :: "string \<Rightarrow> string list" where
  "stripRE_FindStringSubmatch [] = []"
| "stripRE_FindStringSubmatch (c # cs) =
     (case match_here (c # cs) of
        Some m \<Rightarrow> m
      | None \<Rightarrow> stripRE_FindStringSubmatch cs)"

text \<open>Indexing a slice out of its range panics; \<open>stripAgentResponse\<close> indexes without a check.\<close>

definition stripAgentResponse :: "string \<Rightarrow> panic + string" where
  "stripAgentResponse agentReply =
     (let m = stripRE_FindStringSubmatch agentReply
      in if 1 < length m then Inr (m ! 1) else Inl IndexOutOfRange)"

text \<open>
  The parsing functions: strip the wrapping, unmarshal, convert. \<open>json.Unmarshal\<close> into
  the function's record type is a parameter; the conversions that copy the decoded record
  field by field into the \<open>api\<close> type of the same fields are left out, so that the decoded
  value is the result. The Go pair (value, error) is the sum, with the zero value going
  with the error.
\<close>

definition parseGuestOSInfo ::
  "(string \<Rightarrow> json_error + 'a) \<Rightarrow> string \<Rightarrow> panic + (json_error + 'a)" where
  "parseGuestOSInfo unmarshal agentReply =
     (case stripAgentResponse agentReply of
        Inl p \<Rightarrow> Inl p
      | Inr response \<Rightarrow>
          (case unmarshal response of
             Inl err \<Rightarrow> Inr (Inl err)
           | Inr guestOSInfo \<Rightarrow> Inr (Inr guestOSInfo)))"

definition parseInterfaces ::
  "(string \<Rightarrow> json_error + AgentInterface list) \<Rightarrow> string
     \<Rightarrow> panic + (json_error + InterfaceStatus list)" where
  "parseInterfaces unmarshal agentReply =
     (case stripAgentResponse agentReply of
        Inl p \<Rightarrow> Inl p
      | Inr response \<Rightarrow>
          (case unmarshal response of
             Inl err \<Rightarrow> Inr (Inl err)
           | Inr interfaces \<Rightarrow> Inr (Inr (convertInterfaceStatusesFromAgentJSON interfaces))))"

definition parseHostname ::
  "(string \<Rightarrow> json_error + string) \<Rightarrow> string \<Rightarrow> panic + (json_error + string)" where
  "parseHostname unmarshal agentReply =
     (case stripAgentResponse agentReply of
        Inl p \<Rightarrow> Inl p
      | Inr response \<Rightarrow>
          (case unmarshal response of
             Inl err \<Rightarrow> Inr (Inl err)
           | Inr hostname \<Rightarrow> Inr (Inr hostname)))"

definition parseTimezone ::
  "(string \<Rightarrow> json_error + 'a) \<Rightarrow> string \<Rightarrow> panic + (json_error + 'a)" where
  "parseTimezone unmarshal agentReply =
     (case stripAgentResponse agentReply of
        Inl p \<Rightarrow> Inl p
      | Inr response \<Rightarrow>
          (case unmarshal response of
             Inl err \<Rightarrow> Inr (Inl err)
           | Inr result \<Rightarrow> Inr (Inr result)))"

definition parseFilesystem ::
  "(string \<Rightarrow> json_error + 'a list) \<Rightarrow> string \<Rightarrow> panic + (json_error + 'a list)" where
  "parseFilesystem unmarshal agentReply =
     (case stripAgentResponse agentReply of
        Inl p \<Rightarrow> Inl p
      | Inr response \<Rightarrow>
          (case unmarshal response of
             Inl err \<Rightarrow> Inr (Inl err)
           | Inr result \<Rightarrow> Inr (Inr (map (\<lambda>fs. fs) result))))"

definition parseUsers ::
  "(string \<Rightarrow> json_error + 'a list) \<Rightarrow> string \<Rightarrow> panic + (json_error + 'a list)" where
  "parseUsers unmarshal agentReply =
     (case stripAgentResponse agentReply of
        Inl p \<Rightarrow> Inl p
      | Inr response \<Rightarrow>
          (case unmarshal response of
             Inl err \<Rightarrow> Inr (Inl err)
           | Inr result \<Rightarrow> Inr (Inr (map (\<lambda>user. user) result))))"

definition parseAgent ::
  "(string \<Rightarrow> json_error + 'a) \<Rightarrow> string \<Rightarrow> panic + (json_error + 'a)" where
  "parseAgent unmarshal agentReply =
     (case stripAgentResponse agentReply of
        Inl p \<Rightarrow> Inl p
      | Inr response \<Rightarrow>
          (case unmarshal response of
             Inl err \<Rightarrow> Inr (Inl err)
           | Inr gaInfo \<Rightarrow> Inr (Inr gaInfo)))"

text \<open>
  Two replies of a guest agent: the error reply
  \<^verbatim>\<open>{"error":{"class":"CommandNotFound","desc":"The command guest-get-osinfo has not been found"}}\<close>
  and the reply \<^verbatim>\<open>{"return":{"host-name":"vm1"}}\<close> to a host name query, with the object that it wraps.
\<close>

definition error_reply :: string where
  "error_reply = ''{'' @ [dquote] @ ''error'' @ [dquote] @ '':{'' @ [dquote] @ ''class'' @ [dquote] @ '':'' @ [dquote] @ ''CommandNotFound'' @ [dquote] @ '','' @ [dquote] @ ''desc'' @ [dquote] @ '':'' @ [dquote] @ ''The command guest-get-osinfo has not been found'' @ [dquote] @ ''}}''"

definition hostname_reply :: string where
  "hostname_reply = ''{'' @ [dquote] @ ''return'' @ [dquote] @ '':{'' @ [dquote] @ ''host-name'' @ [dquote] @ '':'' @ [dquote] @ ''vm1'' @ [dquote] @ ''}}''"

definition hostname_object :: string where
  "hostname_object = ''{'' @ [dquote] @ ''host-name'' @ [dquote] @ '':'' @ [dquote] @ ''vm1'' @ [dquote] @ ''}''"

section \<open>Properties of the DNS helpers\<close>

lemma HasPrefix_iff_prefix: "HasPrefix s p \<longleftrightarrow> prefix p s"
  by (induction s p rule: HasPrefix.induct) auto

lemma Contains_iff_substring: "Contains s sub \<longleftrightarrow> (\<exists>a b. s = a @ sub @ b)"
proof (induction s)
  case Nil
  then show ?case by auto
next
  case (Cons c cs)
  show ?case
  proof
    assume "Contains (c # cs) sub"
    then consider "prefix sub (c # cs)" | "Contains cs sub"
      by (auto simp: HasPrefix_iff_prefix)
    then show "\<exists>a b. c # cs = a @ sub @ b"
    proof cases
      case 1
      then obtain b where "c # cs = sub @ b" by (auto simp: prefix_def)
      then have "c # cs = [] @ sub @ b" by simp
      then show ?thesis by blast
    next
      case 2
      with Cons obtain a b where "cs = a @ sub @ b" by blast
      then have "c # cs = (c # a) @ sub @ b" by simp
      then show ?thesis by blast
    qed
  next
    assume "\<exists>a b. c # cs = a @ sub @ b"
    then obtain a b where ab: "c # cs = a @ sub @ b" by blast
    show "Contains (c # cs) sub"
    proof (cases a)
      case Nil
      with ab have "prefix sub (c # cs)" by (simp add: prefix_def)
      then show ?thesis by (simp add: HasPrefix_iff_prefix)
    next
      case (Cons x a')
      with ab have "cs = a' @ sub @ b" by simp
      with Cons.IH have "Contains cs sub" by blast
      then show ?thesis by simp
    qed
  qed
qed

lemma GetServiceDomainList_eq: "GetServiceDomainList ds = service_domains ds"
  by (simp add: GetServiceDomainList_def service_domains_def Contains_iff_substring k8sServiceInfix_def)

lemma GetDomainName_loop_cases:
  "GetDomainName_loop ds sel = sel \<and> (\<forall>d \<in> set ds. length d \<le> length sel)
   \<or> longest_first ds (GetDomainName_loop ds sel) \<and> length sel < length (GetDomainName_loop ds sel)"
proof (induction ds arbitrary: sel)
  case Nil
  then show ?case by simp
next
  case (Cons d ds)
  let ?sel' = "if length d > length sel then d else sel"
  let ?r = "GetDomainName_loop ds ?sel'"
  have r: "GetDomainName_loop (d # ds) sel = ?r" by simp
  from Cons.IH [of ?sel'] consider
      (keep) "?r = ?sel'" "\<forall>x \<in> set ds. length x \<le> length ?sel'"
    | (later) "longest_first ds ?r" "length ?sel' < length ?r"
    by blast
  then show ?case
  proof cases
    case keep
    show ?thesis
    proof (cases "length d > length sel")
      case True
      with keep have rd: "?r = d" and le: "\<forall>x \<in> set ds. length x \<le> length d" by auto
      have "longest_first (d # ds) d"
        unfolding longest_first_def
      proof (intro exI [of _ 0] conjI allI impI)
        fix j assume "j < length (d # ds)"
        then show "length ((d # ds) ! j) \<le> length d"
          using le by (cases j) auto
      qed auto
      with True rd show ?thesis unfolding r by simp
    next
      case False
      with keep show ?thesis unfolding r by auto
    qed
  next
    case later
    from later(1) obtain i where i: "i < length ds" "ds ! i = ?r"
      "\<forall>j < length ds. length (ds ! j) \<le> length ?r"
      "\<forall>j < i. length (ds ! j) < length ?r"
      unfolding longest_first_def by blast
    have dlt: "length d < length ?r" using later(2) by (auto split: if_splits)
    have "longest_first (d # ds) ?r"
      unfolding longest_first_def
    proof (intro exI [of _ "Suc i"] conjI allI impI)
      show "Suc i < length (d # ds)" using i(1) by simp
      show "(d # ds) ! Suc i = ?r" using i(2) by simp
    next
      fix j assume "j < length (d # ds)"
      then show "length ((d # ds) ! j) \<le> length ?r"
        using i(3) dlt by (cases j) auto
    next
      fix j assume "j < Suc i"
      then show "length ((d # ds) ! j) < length ?r"
        using i(4) dlt by (cases j) auto
    qed
    moreover have "length sel < length ?r" using later(2) by (auto split: if_splits)
    ultimately show ?thesis unfolding r by blast
  qed
qed

lemma GetDomainName_longest_first:
  assumes "\<exists>d \<in> set ds. d \<noteq> ''''"
  shows "longest_first ds (GetDomainName ds)"
proof -
  from assms have "\<not> (\<forall>d \<in> set ds. length d \<le> length '''')" by auto
  with GetDomainName_loop_cases [of ds "''''"] show ?thesis
    unfolding GetDomainName_def by blast
qed

lemma longest_first_unique: "longest_first xs L \<Longrightarrow> longest_first xs L' \<Longrightarrow> L = L'"
proof -
  assume a: "longest_first xs L" and b: "longest_first xs L'"
  from a obtain i where i: "i < length xs" "xs ! i = L"
    "\<forall>j < length xs. length (xs ! j) \<le> length L" "\<forall>j < i. length (xs ! j) < length L"
    unfolding longest_first_def by blast
  from b obtain k where k: "k < length xs" "xs ! k = L'"
    "\<forall>j < length xs. length (xs ! j) \<le> length L'" "\<forall>j < k. length (xs ! j) < length L'"
    unfolding longest_first_def by blast
  have "\<not> i < k" using i k by (metis leD)
  moreover have "\<not> k < i" using i k by (metis leD)
  ultimately have "i = k" by simp
  with i(2) k(2) show "L = L'" by simp
qed

lemma service_domain_nonempty: "d \<in> set (service_domains ds) \<Longrightarrow> d \<noteq> ''''"
  by (auto simp: service_domains_def)

text \<open>
  Claim C7. \<open>DomainNameWithSubdomain\<close> returns the empty string when the subdomain is
  empty, when no search domain contains the string \<open>.svc.\<close>, or when the longest
  service domain already begins with the subdomain followed by a dot; otherwise it returns
  the subdomain, a dot, and the longest service domain, "longest" counting the characters
  of the entry and a tie going to the entry that occurs first.
\<close>

theorem DomainNameWithSubdomain_spec:
  "(subdomain = '''' \<longrightarrow> DomainNameWithSubdomain ds subdomain = '''')
   \<and> (service_domains ds = [] \<longrightarrow> DomainNameWithSubdomain ds subdomain = '''')
   \<and> (\<forall>L. longest_first (service_domains ds) L \<longrightarrow>
         DomainNameWithSubdomain ds subdomain =
           (if subdomain = '''' \<or> prefix (subdomain @ ''.'') L then ''''
            else subdomain @ ''.'' @ L))"
proof (intro conjI allI impI)
  show "DomainNameWithSubdomain ds subdomain = ''''" if "subdomain = ''''"
    using that by (simp add: DomainNameWithSubdomain_def)
next
  assume "service_domains ds = []"
  then have "GetLongestServiceDomainName ds = ''''"
    by (simp add: GetLongestServiceDomainName_def GetServiceDomainList_eq GetDomainName_def)
  then show "DomainNameWithSubdomain ds subdomain = ''''"
    by (simp add: DomainNameWithSubdomain_def)
next
  fix L assume L: "longest_first (service_domains ds) L"
  then have "L \<in> set (service_domains ds)"
    unfolding longest_first_def by auto
  then have ne: "\<exists>d \<in> set (service_domains ds). d \<noteq> ''''" and Lne: "L \<noteq> ''''"
    using service_domain_nonempty by blast+
  have "longest_first (service_domains ds) (GetLongestServiceDomainName ds)"
    unfolding GetLongestServiceDomainName_def GetServiceDomainList_eq
    by (rule GetDomainName_longest_first [OF ne])
  with L have "GetLongestServiceDomainName ds = L"
    using longest_first_unique by blast
  with Lne show "DomainNameWithSubdomain ds subdomain =
      (if subdomain = '''' \<or> prefix (subdomain @ ''.'') L then ''''
       else subdomain @ ''.'' @ L)"
    by (simp add: DomainNameWithSubdomain_def HasPrefix_iff_prefix)
qed

theorem DomainNameWithSubdomain_spec_witness:
  "longest_first (service_domains [''default.svc.cluster.local'', ''svc.cluster.local'', ''cluster.local''])
     ''default.svc.cluster.local''
   \<and> DomainNameWithSubdomain [''default.svc.cluster.local'', ''svc.cluster.local'', ''cluster.local'']
       ''subdomain'' = ''subdomain.default.svc.cluster.local''
   \<and> DomainNameWithSubdomain [''default.svc.cluster.local'', ''svc.cluster.local'', ''cluster.local'']
       '''' = ''''
   \<and> service_domains [''cluster.local''] = []
   \<and> DomainNameWithSubdomain [''cluster.local''] ''subdomain'' = ''''"
proof -
  let ?ds = "[''default.svc.cluster.local'', ''svc.cluster.local'', ''cluster.local'']"
  have sd: "service_domains ?ds = [''default.svc.cluster.local'']"
    unfolding GetServiceDomainList_eq [symmetric]
    by (simp add: GetServiceDomainList_def k8sServiceInfix_def)
  have lf: "longest_first (service_domains ?ds) ''default.svc.cluster.local''"
    unfolding sd longest_first_def by simp
  have none: "service_domains [''cluster.local''] = []"
    unfolding GetServiceDomainList_eq [symmetric]
    by (simp add: GetServiceDomainList_def k8sServiceInfix_def)
  from DomainNameWithSubdomain_spec [of "''subdomain''" ?ds] lf
  have a: "DomainNameWithSubdomain ?ds ''subdomain'' = ''subdomain.default.svc.cluster.local''"
    by (auto simp: prefix_def)
  from DomainNameWithSubdomain_spec [of "''''" ?ds]
  have b: "DomainNameWithSubdomain ?ds '''' = ''''" by simp
  from DomainNameWithSubdomain_spec [of "''subdomain''" "[''cluster.local'']"] none
  have c: "DomainNameWithSubdomain [''cluster.local''] ''subdomain'' = ''''" by simp
  from lf a b none c show ?thesis by blast
qed

section \<open>Properties of the nameserver parser\<close>

lemma scanLines_Cons:
  "scanLines (c # cs) =
     (if MaxScanTokenSize \<le> length (takeWhile (\<lambda>c. c \<noteq> newline) (c # cs)) then ([], Some ErrTooLong)
      else (dropCR (takeWhile (\<lambda>c. c \<noteq> newline) (c # cs))
              # fst (scanLines (drop 1 (dropWhile (\<lambda>c. c \<noteq> newline) (c # cs)))),
            snd (scanLines (drop 1 (dropWhile (\<lambda>c. c \<noteq> newline) (c # cs))))))"
  unfolding scanLines.simps Let_def by (simp only: split_beta)

lemma scanLines_no_error: "no_long_line content \<Longrightarrow> snd (scanLines content) = None"
proof (induction content rule: scanLines.induct)
  case 1
  then show ?case by simp
next
  case (2 c cs)
  let ?content = "c # cs"
  let ?line = "takeWhile (\<lambda>c. c \<noteq> newline) ?content"
  let ?rest = "dropWhile (\<lambda>c. c \<noteq> newline) ?content"
  have split: "?content = [] @ ?line @ ?rest"
    by (simp only: append_Nil takeWhile_dropWhile_id)
  have "newline \<notin> set ?line"
    by (metis (mono_tags, lifting) set_takeWhileD)
  with 2(2) split have short: "length ?line < MaxScanTokenSize"
    unfolding no_long_line_def by blast
  have "no_long_line (drop 1 ?rest)"
    unfolding no_long_line_def
  proof (intro allI impI)
    fix a l b assume h: "drop 1 ?rest = a @ l @ b \<and> newline \<notin> set l"
    have "?content = (?line @ take 1 ?rest @ a) @ l @ b"
      using h by (metis append.assoc append_take_drop_id takeWhile_dropWhile_id)
    with 2(2) h show "length l < MaxScanTokenSize"
      unfolding no_long_line_def by blast
  qed
  with 2(1) [OF refl refl] short have "snd (scanLines (drop 1 ?rest)) = None"
    by simp
  with short show ?case
    unfolding scanLines_Cons by simp
qed

lemma scanLines_long:
  assumes "newline \<notin> set s" and "MaxScanTokenSize \<le> length s"
  shows "scanLines s = ([], Some ErrTooLong)"
proof -
  from assms obtain c cs where s: "s = c # cs"
    by (cases s) (auto simp: MaxScanTokenSize_def)
  from assms have "takeWhile (\<lambda>c. c \<noteq> newline) s = s"
    by (auto simp: takeWhile_eq_all_conv)
  with assms s show ?thesis
    unfolding s scanLines_Cons by simp
qed

lemma short_no_long_line: "length content < MaxScanTokenSize \<Longrightarrow> no_long_line content"
  unfolding no_long_line_def by auto

lemma nameserver_line_foldl:
  "foldl (nameserver_line lib) (v4, v6) ls =
     (v4 @ ipv4_found lib (filter (\<lambda>l. prefix ''nameserver'' l) ls),
      v6 @ ipv6_found lib (filter (\<lambda>l. prefix ''nameserver'' l) ls))"
proof (induction ls arbitrary: v4 v6)
  case Nil
  then show ?case by (simp add: ipv4_found_def ipv6_found_def)
next
  case (Cons l ls)
  show ?case
    by (simp add: Cons.IH nameserver_line_def [of lib "(v4, v6)" l] Let_def
        HasPrefix_iff_prefix nameserverPrefix_def ipv4_found_def ipv6_found_def)
qed

text \<open>
  Claim C6, as amended. For every input text without an over-long line (every run of
  bytes between newlines shorter than the scanner's 64 KiB buffer), \<open>ParseNameservers\<close>
  returns without error two lists that are not both empty: only lines starting with
  \<open>nameserver\<close> count, each is tried as IPv6 first and as IPv4 only when that fails,
  lines that parse as neither are skipped, and when nothing was found the IPv4 list is the
  single default nameserver 8.8.8.8.
\<close>

theorem ParseNameservers_short_lines:
  assumes "no_long_line content"
  shows "\<exists>v4 v6. ParseNameservers lib content = (v4, v6, None)
           \<and> (v4 \<noteq> [] \<or> v6 \<noteq> [])
           \<and> v6 = ipv6_found lib (nameserver_lines content)
           \<and> v4 = (if ipv4_found lib (nameserver_lines content) = []
                       \<and> ipv6_found lib (nameserver_lines content) = []
                    then [ParseIP lib ''8.8.8.8'']
                    else ipv4_found lib (nameserver_lines content))"
proof -
  obtain ls e where sc: "scanLines content = (ls, e)"
    by (cases "scanLines content")
  with scanLines_no_error [OF assms] have e: "e = None"
    by simp
  have nl: "nameserver_lines content = filter (\<lambda>l. prefix ''nameserver'' l) ls"
    by (simp add: nameserver_lines_def sc)
  have fold: "foldl (nameserver_line lib) ([], []) ls =
      (ipv4_found lib (nameserver_lines content), ipv6_found lib (nameserver_lines content))"
    by (simp add: nameserver_line_foldl nl)
  show ?thesis
    by (simp add: ParseNameservers_def sc e fold defaultIPv4DNS_def)
qed

theorem ParseNameservers_short_lines_witness:
  "no_long_line (''nameserver 8.8.8.8'' @ [newline])
   \<and> ParseNameservers sample_netfuns (''nameserver 8.8.8.8'' @ [newline])
       = ([[0,0,0,0,0,0,0,0,0,0,255,255,8,8,8,8]], [], None)"
proof -
  have h: "no_long_line (''nameserver 8.8.8.8'' @ [newline])"
    by (rule short_no_long_line) (simp add: MaxScanTokenSize_def)
  have ls: "nameserver_lines (''nameserver 8.8.8.8'' @ [newline]) = [''nameserver 8.8.8.8'']"
    by (simp add: nameserver_lines_def newline_def MaxScanTokenSize_def dropCR_def
        carriage_return_def)
  from ParseNameservers_short_lines [OF h, of sample_netfuns] h show ?thesis
    unfolding ls by (simp add: ipv4_found_def ipv6_found_def sample_netfuns_def)
qed

text \<open>
  Claim C6 as stated fails: a text that is one line of 65536 bytes makes the scanner stop
  with \<open>ErrTooLong\<close>, and the parser returns that error with both lists empty.
\<close>

theorem ParseNameservers_long_line_counterexample:
  "ParseNameservers sample_netfuns (replicate 65536 (CHR ''a'')) = ([], [], Some ErrTooLong)"
proof -
  have "scanLines (replicate 65536 (CHR ''a'')) = ([], Some ErrTooLong)"
    by (rule scanLines_long) (simp_all add: newline_def MaxScanTokenSize_def)
  then show ?thesis
    by (simp add: ParseNameservers_def)
qed

section \<open>Properties of the status merger\<close>

lemma extractIPs_loop_eq:
  "extractIPs_loop xs ip acc =
     (if ip \<noteq> '''' then ip
      else (case filter (\<lambda>a. IP_Type a = ''ipv4'' \<and> IP_IP a \<noteq> '''') xs of
              a # _ \<Rightarrow> IP_IP a | [] \<Rightarrow> ''''),
      acc @ map IP_IP xs)"
  by (induction xs arbitrary: ip acc) auto

lemma extractIPs_eq: "extractIPs ips = (summary_ip ips, map IP_IP ips)"
proof (cases "filter (\<lambda>a. IP_Type a = ''ipv4'' \<and> IP_IP a \<noteq> '''') ips")
  case Nil
  then show ?thesis
    by (cases ips) (simp_all add: extractIPs_def extractIPs_loop_eq summary_ip_def)
next
  case (Cons a as)
  then have "a \<in> set (filter (\<lambda>a. IP_Type a = ''ipv4'' \<and> IP_IP a \<noteq> '''') ips)"
    by simp
  then have "IP_IP a \<noteq> ''''"
    by simp
  with Cons show ?thesis
    by (simp add: extractIPs_def extractIPs_loop_eq summary_ip_def)
qed

lemma convert_eq:
  "convertInterfaceStatusesFromAgentJSON agentResult = map agent_status (agent_entries agentResult)"
  by (induction agentResult) (simp_all add: agent_entries_def extractIPs_eq agent_status_def)

lemma aliasByMac_loop_other:
  "mac \<notin> Dom_MAC ` set doms \<Longrightarrow> aliasByMac_loop doms m mac = m mac"
  by (induction doms arbitrary: m) auto

lemma aliasByMac_loop_distinct:
  "distinct (map Dom_MAC doms) \<Longrightarrow> d \<in> set doms \<Longrightarrow>
     aliasByMac_loop doms m (Dom_MAC d) = Some (Dom_Alias d)"
proof (induction doms arbitrary: m)
  case Nil
  then show ?case by simp
next
  case (Cons x doms)
  show ?case
  proof (cases "d = x")
    case True
    from Cons.prems(1) have "Dom_MAC x \<notin> Dom_MAC ` set doms" by simp
    with True show ?thesis by (simp add: aliasByMac_loop_other)
  next
    case False
    with Cons show ?thesis by simp
  qed
qed

lemma agent_loop_eq:
  "agent_loop m ss cov = (map (tag_status m) ss, cov @ List.map_filter (\<lambda>s. m (Mac s)) ss)"
  by (induction ss arbitrary: cov) (auto simp: tag_status_def map_filter_simps split: option.splits)

lemma domain_loop_set:
  "set (domain_loop m cov visit) =
     {\<lparr>Name = alias, Mac = mac, Ip = '''', IPs = [], InterfaceName = '''',
       InfoSource = InfoSourceDomain\<rparr> | mac alias.
       mac \<in> set visit \<and> m mac = Some alias \<and> alias \<notin> set cov}"
  by (induction visit) (auto simp: list_ex_iff split: option.splits)

lemma domain_loop_Mac: "s \<in> set (domain_loop m cov visit) \<Longrightarrow> Mac s \<in> set visit"
  by (induction visit) (auto split: option.splits if_splits)

lemma domain_loop_distinct: "distinct visit \<Longrightarrow> distinct (domain_loop m cov visit)"
  by (induction visit) (auto split: option.splits dest: domain_loop_Mac)
lemma set_map_filter: "set (List.map_filter f xs) = {y. \<exists>x \<in> set xs. f x = Some y}"
  by (induction xs) (auto simp: map_filter_simps split: option.splits)

lemma covered_aliases:
  assumes "distinct (map Dom_MAC doms)"
  shows "set (List.map_filter (\<lambda>s. aliasByMac_loop doms Map.empty (Mac s)) (map agent_status A)) =
           {Dom_Alias d | d. d \<in> set doms \<and> Dom_MAC d \<in> Interface_MAC ` set A}"
proof -
  let ?m = "aliasByMac_loop doms Map.empty"
  have some: "?m (Dom_MAC d) = Some (Dom_Alias d)" if "d \<in> set doms" for d
    using aliasByMac_loop_distinct [OF assms that] .
  have none: "?m mac = None" if "mac \<notin> Dom_MAC ` set doms" for mac
    using aliasByMac_loop_other [OF that] by simp
  have "set (List.map_filter (\<lambda>s. ?m (Mac s)) (map agent_status A)) =
          {al. \<exists>a \<in> set A. ?m (Interface_MAC a) = Some al}"
    by (simp add: set_map_filter agent_status_def)
  also have "\<dots> = {Dom_Alias d | d. d \<in> set doms \<and> Dom_MAC d \<in> Interface_MAC ` set A}"
  proof (intro set_eqI iffI; clarsimp)
    fix al a assume a: "a \<in> set A" and s: "?m (Interface_MAC a) = Some al"
    from s none have "Interface_MAC a \<in> Dom_MAC ` set doms" by force
    then obtain d where d: "d \<in> set doms" "Dom_MAC d = Interface_MAC a" by auto
    with some s have "al = Dom_Alias d" by force
    with a d show "\<exists>d. al = Dom_Alias d \<and> d \<in> set doms \<and> Dom_MAC d \<in> Interface_MAC ` set A"
      by force
  next
    fix d a assume "d \<in> set doms" "Dom_MAC d = Interface_MAC a" "a \<in> set A"
    with some show "\<exists>a \<in> set A. ?m (Interface_MAC a) = Some (Dom_Alias d)"
      by force
  qed
  finally show ?thesis .
qed

text \<open>
  Claim C5, as amended. When the hypervisor's interfaces have pairwise different MACs and
  pairwise different al names, the merged list is the agent's entries other than
  \<open>lo\<close>, in the agent's order, followed by appended records. Each agent entry keeps its
  MAC, its agent-reported interface name (never \<open>lo\<close>) and its addresses; its summary
  address is its first IPv4 address with a non-empty address string, or its first address
  of any family when it has none; when its MAC is the MAC of a hypervisor interface its
  name is that interface's al and its tag is DomainAndGuestAgent, otherwise its name
  stays unset and its tag is GuestAgent. The appended records are, once each and with no
  IP data and the tag Domain, the hypervisor interfaces whose MAC no such agent entry has.
\<close>

theorem merged_statuses_wellformed:
  assumes dm: "distinct (map Dom_MAC doms)"
    and da: "distinct (map Dom_Alias doms)"
    and v: "visits visit doms"
  shows "\<exists>tagged appended.
           merged_statuses visit doms agent = tagged @ appended
         \<and> length tagged = length (agent_entries agent)
         \<and> (\<forall>i < length tagged.
              Mac (tagged ! i) = Interface_MAC (agent_entries agent ! i)
            \<and> InterfaceName (tagged ! i) = Interface_Name (agent_entries agent ! i)
            \<and> InterfaceName (tagged ! i) \<noteq> ''lo''
            \<and> IPs (tagged ! i) = map IP_IP (Interface_IPs (agent_entries agent ! i))
            \<and> Ip (tagged ! i) = summary_ip (Interface_IPs (agent_entries agent ! i))
            \<and> (\<forall>d \<in> set doms. Dom_MAC d = Interface_MAC (agent_entries agent ! i) \<longrightarrow>
                  Name (tagged ! i) = Dom_Alias d
                  \<and> InfoSource (tagged ! i) = InfoSourceDomainAndGA)
            \<and> ((\<forall>d \<in> set doms. Dom_MAC d \<noteq> Interface_MAC (agent_entries agent ! i)) \<longrightarrow>
                  Name (tagged ! i) = ''''
                  \<and> InfoSource (tagged ! i) = InfoSourceGuestAgent))
         \<and> distinct appended
         \<and> set appended =
             {domain_status d | d. d \<in> set doms
                \<and> Dom_MAC d \<notin> Interface_MAC ` set (agent_entries agent)}"
proof -
  let ?A = "agent_entries agent"
  let ?m = "aliasByMac_loop doms Map.empty"
  let ?cov = "List.map_filter (\<lambda>s. ?m (Mac s)) (map agent_status ?A)"
  let ?tagged = "map (tag_status ?m) (map agent_status ?A)"
  let ?appended = "domain_loop ?m ?cov visit"
  have some: "?m (Dom_MAC d) = Some (Dom_Alias d)" if "d \<in> set doms" for d
    using aliasByMac_loop_distinct [OF dm that] .
  have none: "?m mac = None" if "mac \<notin> Dom_MAC ` set doms" for mac
    using aliasByMac_loop_other [OF that] by simp
  have inj: "inj_on Dom_Alias (set doms)"
    using da by (simp add: distinct_map)
  have eq: "merged_statuses visit doms agent = ?tagged @ ?appended"
    by (simp add: merged_statuses_def MergeAgentStatusesWithDomainData_def convert_eq
        agent_loop_eq Let_def)
  have len: "length ?tagged = length ?A"
    by simp
  have entry: "Mac (?tagged ! i) = Interface_MAC (?A ! i)
            \<and> InterfaceName (?tagged ! i) = Interface_Name (?A ! i)
            \<and> InterfaceName (?tagged ! i) \<noteq> ''lo''
            \<and> IPs (?tagged ! i) = map IP_IP (Interface_IPs (?A ! i))
            \<and> Ip (?tagged ! i) = summary_ip (Interface_IPs (?A ! i))
            \<and> (\<forall>d \<in> set doms. Dom_MAC d = Interface_MAC (?A ! i) \<longrightarrow>
                  Name (?tagged ! i) = Dom_Alias d
                  \<and> InfoSource (?tagged ! i) = InfoSourceDomainAndGA)
            \<and> ((\<forall>d \<in> set doms. Dom_MAC d \<noteq> Interface_MAC (?A ! i)) \<longrightarrow>
                  Name (?tagged ! i) = ''''
                  \<and> InfoSource (?tagged ! i) = InfoSourceGuestAgent)"
    if i: "i < length ?tagged" for i
  proof -
    from i have iA: "i < length ?A" by simp
    then have "?A ! i \<in> set ?A" by (rule nth_mem)
    then have notlo: "Interface_Name (?A ! i) \<noteq> ''lo''"
      by (simp add: agent_entries_def)
    have t: "?tagged ! i = tag_status ?m (agent_status (?A ! i))"
      using iA by simp
    have plain: "Mac (?tagged ! i) = Interface_MAC (?A ! i)"
      "InterfaceName (?tagged ! i) = Interface_Name (?A ! i)"
      "IPs (?tagged ! i) = map IP_IP (Interface_IPs (?A ! i))"
      "Ip (?tagged ! i) = summary_ip (Interface_IPs (?A ! i))"
      unfolding t by (simp_all add: tag_status_def agent_status_def split: option.split)
    show ?thesis
    proof (cases "Interface_MAC (?A ! i) \<in> Dom_MAC ` set doms")
      case True
      then obtain d where d: "d \<in> set doms" "Dom_MAC d = Interface_MAC (?A ! i)"
        by auto
      with some have m: "?m (Interface_MAC (?A ! i)) = Some (Dom_Alias d)"
        by force
      have uniq: "Dom_Alias d' = Dom_Alias d"
        if "d' \<in> set doms" "Dom_MAC d' = Interface_MAC (?A ! i)" for d'
        using some [OF that(1)] that(2) m by simp
      have tg: "Name (?tagged ! i) = Dom_Alias d"
        "InfoSource (?tagged ! i) = InfoSourceDomainAndGA"
        unfolding t by (simp_all add: tag_status_def agent_status_def m)
      have matched: "\<forall>d' \<in> set doms. Dom_MAC d' = Interface_MAC (?A ! i) \<longrightarrow>
          Name (?tagged ! i) = Dom_Alias d' \<and> InfoSource (?tagged ! i) = InfoSourceDomainAndGA"
        using uniq tg by simp
      have ne: "\<not> (\<forall>d \<in> set doms. Dom_MAC d \<noteq> Interface_MAC (?A ! i))"
        using d by blast
      show ?thesis
      proof (intro conjI)
        show "\<forall>d' \<in> set doms. Dom_MAC d' = Interface_MAC (?A ! i) \<longrightarrow>
            Name (?tagged ! i) = Dom_Alias d' \<and> InfoSource (?tagged ! i) = InfoSourceDomainAndGA"
          by (rule matched)
        show "(\<forall>d \<in> set doms. Dom_MAC d \<noteq> Interface_MAC (?A ! i)) \<longrightarrow>
            Name (?tagged ! i) = '''' \<and> InfoSource (?tagged ! i) = InfoSourceGuestAgent"
        proof (rule impI)
          assume "\<forall>d \<in> set doms. Dom_MAC d \<noteq> Interface_MAC (?A ! i)"
          with ne show "Name (?tagged ! i) = '''' \<and> InfoSource (?tagged ! i) = InfoSourceGuestAgent"
            by contradiction
        qed
        show "InterfaceName (?tagged ! i) \<noteq> ''lo''"
          unfolding plain(2) by (rule notlo)
      qed (rule plain)+
    next
      case False
      with none have m: "?m (Interface_MAC (?A ! i)) = None"
        by blast
      have tg: "Name (?tagged ! i) = ''''"
        "InfoSource (?tagged ! i) = InfoSourceGuestAgent"
        unfolding t by (simp_all add: tag_status_def agent_status_def m)
      have unmatched: "\<forall>d \<in> set doms. Dom_MAC d \<noteq> Interface_MAC (?A ! i)"
        using False by force
      show ?thesis
      proof (intro conjI)
        show "\<forall>d' \<in> set doms. Dom_MAC d' = Interface_MAC (?A ! i) \<longrightarrow>
            Name (?tagged ! i) = Dom_Alias d' \<and> InfoSource (?tagged ! i) = InfoSourceDomainAndGA"
          using unmatched by blast
        show "(\<forall>d \<in> set doms. Dom_MAC d \<noteq> Interface_MAC (?A ! i)) \<longrightarrow>
            Name (?tagged ! i) = '''' \<and> InfoSource (?tagged ! i) = InfoSourceGuestAgent"
          using tg by (intro impI conjI)
        show "InterfaceName (?tagged ! i) \<noteq> ''lo''"
          unfolding plain(2) by (rule notlo)
      qed (rule plain)+
    qed
  qed
  have dist: "distinct ?appended"
    using v by (simp add: visits_def domain_loop_distinct)
  have cov: "set ?cov = {Dom_Alias d | d. d \<in> set doms \<and> Dom_MAC d \<in> Interface_MAC ` set ?A}"
    by (rule covered_aliases [OF dm])
  have app: "set ?appended =
      {domain_status d | d. d \<in> set doms \<and> Dom_MAC d \<notin> Interface_MAC ` set ?A}"
  proof (intro set_eqI iffI)
    fix s assume "s \<in> set ?appended"
    then obtain mac al where s: "s = \<lparr>Name = al, Mac = mac, Ip = '''', IPs = [],
        InterfaceName = '''', InfoSource = InfoSourceDomain\<rparr>"
      and mac: "mac \<in> set visit" and m: "?m mac = Some al" and nc: "al \<notin> set ?cov"
      unfolding domain_loop_set by blast
    from mac v obtain d where d: "d \<in> set doms" "mac = Dom_MAC d"
      by (auto simp: visits_def)
    with some m have al: "al = Dom_Alias d"
      by force
    from nc al d(1) have "Dom_MAC d \<notin> Interface_MAC ` set ?A"
      unfolding cov by blast
    with s d al show "s \<in> {domain_status d | d. d \<in> set doms
        \<and> Dom_MAC d \<notin> Interface_MAC ` set ?A}"
      by (auto simp: domain_status_def)
  next
    fix s assume "s \<in> {domain_status d | d. d \<in> set doms
        \<and> Dom_MAC d \<notin> Interface_MAC ` set ?A}"
    then obtain d where d: "d \<in> set doms" "Dom_MAC d \<notin> Interface_MAC ` set ?A"
      and s: "s = domain_status d"
      by blast
    have "Dom_Alias d \<notin> set ?cov"
    proof
      assume "Dom_Alias d \<in> set ?cov"
      then obtain d' where d': "d' \<in> set doms" "Dom_Alias d' = Dom_Alias d"
        "Dom_MAC d' \<in> Interface_MAC ` set ?A"
        unfolding cov by force
      with inj d(1) have "d' = d"
        by (auto dest: inj_onD)
      with d' d(2) show False by simp
    qed
    moreover from d(1) v have "Dom_MAC d \<in> set visit"
      by (auto simp: visits_def)
    moreover note some [OF d(1)]
    ultimately show "s \<in> set ?appended"
      unfolding domain_loop_set s domain_status_def by blast
  qed
  have all: "\<forall>i < length ?tagged.
              Mac (?tagged ! i) = Interface_MAC (?A ! i)
            \<and> InterfaceName (?tagged ! i) = Interface_Name (?A ! i)
            \<and> InterfaceName (?tagged ! i) \<noteq> ''lo''
            \<and> IPs (?tagged ! i) = map IP_IP (Interface_IPs (?A ! i))
            \<and> Ip (?tagged ! i) = summary_ip (Interface_IPs (?A ! i))
            \<and> (\<forall>d \<in> set doms. Dom_MAC d = Interface_MAC (?A ! i) \<longrightarrow>
                  Name (?tagged ! i) = Dom_Alias d
                  \<and> InfoSource (?tagged ! i) = InfoSourceDomainAndGA)
            \<and> ((\<forall>d \<in> set doms. Dom_MAC d \<noteq> Interface_MAC (?A ! i)) \<longrightarrow>
                  Name (?tagged ! i) = ''''
                  \<and> InfoSource (?tagged ! i) = InfoSourceGuestAgent)"
    by (intro allI impI) (rule entry)
  show ?thesis
    by (rule exI [of _ ?tagged], rule exI [of _ ?appended]) (intro conjI eq len all dist app)
qed
theorem merged_statuses_wellformed_witness:
  "distinct (map Dom_MAC [\<lparr>Dom_MAC = ''aa:bb'', Dom_Alias = ''eth0''\<rparr>,
                          \<lparr>Dom_MAC = ''ee:ff'', Dom_Alias = ''net1''\<rparr>])
   \<and> distinct (map Dom_Alias [\<lparr>Dom_MAC = ''aa:bb'', Dom_Alias = ''eth0''\<rparr>,
                              \<lparr>Dom_MAC = ''ee:ff'', Dom_Alias = ''net1''\<rparr>])
   \<and> visits [''ee:ff'', ''aa:bb''] [\<lparr>Dom_MAC = ''aa:bb'', Dom_Alias = ''eth0''\<rparr>,
                                    \<lparr>Dom_MAC = ''ee:ff'', Dom_Alias = ''net1''\<rparr>]
   \<and> (\<exists>tagged appended.
         merged_statuses [''ee:ff'', ''aa:bb'']
           [\<lparr>Dom_MAC = ''aa:bb'', Dom_Alias = ''eth0''\<rparr>,
            \<lparr>Dom_MAC = ''ee:ff'', Dom_Alias = ''net1''\<rparr>]
           [\<lparr>Interface_MAC = ''00:00'', Interface_IPs = [], Interface_Name = ''lo''\<rparr>,
            \<lparr>Interface_MAC = ''aa:bb'',
             Interface_IPs = [\<lparr>IP_IP = ''fe80::5'', IP_Type = ''ipv6'', IP_Prefix = 64\<rparr>,
                              \<lparr>IP_IP = ''10.0.0.5'', IP_Type = ''ipv4'', IP_Prefix = 24\<rparr>],
             Interface_Name = ''ens3''\<rparr>,
            \<lparr>Interface_MAC = ''cc:dd'',
             Interface_IPs = [\<lparr>IP_IP = ''fe80::6'', IP_Type = ''ipv6'', IP_Prefix = 64\<rparr>],
             Interface_Name = ''ens4''\<rparr>]
         = tagged @ appended
       \<and> tagged =
           [\<lparr>Name = ''eth0'', Mac = ''aa:bb'', Ip = ''10.0.0.5'', IPs = [''fe80::5'', ''10.0.0.5''],
             InterfaceName = ''ens3'', InfoSource = InfoSourceDomainAndGA\<rparr>,
            \<lparr>Name = '''', Mac = ''cc:dd'', Ip = ''fe80::6'', IPs = [''fe80::6''],
             InterfaceName = ''ens4'', InfoSource = InfoSourceGuestAgent\<rparr>]
       \<and> set appended =
           {\<lparr>Name = ''net1'', Mac = ''ee:ff'', Ip = '''', IPs = [], InterfaceName = '''',
             InfoSource = InfoSourceDomain\<rparr>})"
proof -
  let ?D = "[\<lparr>Dom_MAC = ''aa:bb'', Dom_Alias = ''eth0''\<rparr>,
             \<lparr>Dom_MAC = ''ee:ff'', Dom_Alias = ''net1''\<rparr>]"
  let ?V = "[''ee:ff'', ''aa:bb'']"
  let ?A = "[\<lparr>Interface_MAC = ''00:00'', Interface_IPs = [], Interface_Name = ''lo''\<rparr>,
            \<lparr>Interface_MAC = ''aa:bb'',
             Interface_IPs = [\<lparr>IP_IP = ''fe80::5'', IP_Type = ''ipv6'', IP_Prefix = 64\<rparr>,
                              \<lparr>IP_IP = ''10.0.0.5'', IP_Type = ''ipv4'', IP_Prefix = 24\<rparr>],
             Interface_Name = ''ens3''\<rparr>,
            \<lparr>Interface_MAC = ''cc:dd'',
             Interface_IPs = [\<lparr>IP_IP = ''fe80::6'', IP_Type = ''ipv6'', IP_Prefix = 64\<rparr>],
             Interface_Name = ''ens4''\<rparr>]"
  have h1: "distinct (map Dom_MAC ?D)" by simp
  have h2: "distinct (map Dom_Alias ?D)" by simp
  have h3: "visits ?V ?D" by (auto simp: visits_def)
  have run: "merged_statuses ?V ?D ?A =
      [\<lparr>Name = ''eth0'', Mac = ''aa:bb'', Ip = ''10.0.0.5'', IPs = [''fe80::5'', ''10.0.0.5''],
        InterfaceName = ''ens3'', InfoSource = InfoSourceDomainAndGA\<rparr>,
       \<lparr>Name = '''', Mac = ''cc:dd'', Ip = ''fe80::6'', IPs = [''fe80::6''],
        InterfaceName = ''ens4'', InfoSource = InfoSourceGuestAgent\<rparr>]
      @ [\<lparr>Name = ''net1'', Mac = ''ee:ff'', Ip = '''', IPs = [], InterfaceName = '''',
          InfoSource = InfoSourceDomain\<rparr>]"
    by (simp add: merged_statuses_def MergeAgentStatusesWithDomainData_def extractIPs_def)
  from merged_statuses_wellformed [OF h1 h2 h3, of ?A]
  obtain tagged appended where m: "merged_statuses ?V ?D ?A = tagged @ appended"
    and l: "length tagged = length (agent_entries ?A)"
    by blast
  from l have l2: "length tagged = 2"
    by (simp add: agent_entries_def)
  from l2 have "tagged = take 2 (tagged @ appended)" "appended = drop 2 (tagged @ appended)"
    by simp_all
  then have "tagged = take 2 (merged_statuses ?V ?D ?A)"
    "appended = drop 2 (merged_statuses ?V ?D ?A)"
    unfolding m by blast+
  then have "tagged =
      [\<lparr>Name = ''eth0'', Mac = ''aa:bb'', Ip = ''10.0.0.5'', IPs = [''fe80::5'', ''10.0.0.5''],
        InterfaceName = ''ens3'', InfoSource = InfoSourceDomainAndGA\<rparr>,
       \<lparr>Name = [], Mac = ''cc:dd'', Ip = ''fe80::6'', IPs = [''fe80::6''],
        InterfaceName = ''ens4'', InfoSource = InfoSourceGuestAgent\<rparr>]
    \<and> appended = [\<lparr>Name = ''net1'', Mac = ''ee:ff'', Ip = [], IPs = [], InterfaceName = [],
          InfoSource = InfoSourceDomain\<rparr>]"
    unfolding run by simp
  with m h1 h2 h3 show ?thesis
    by auto
qed

text \<open>
  Claim C5 as stated fails: two hypervisor interfaces with different MACs and the same
  alias, and an agent entry for the first. The second interface is matched by no agent
  entry, yet no record is appended for it, whichever way the map is visited.
\<close>

theorem merged_statuses_alias_counterexample:
  "merged_statuses [''52:54:00:00:00:01'', ''52:54:00:00:00:02'']
     [\<lparr>Dom_MAC = ''52:54:00:00:00:01'', Dom_Alias = ''net0''\<rparr>,
      \<lparr>Dom_MAC = ''52:54:00:00:00:02'', Dom_Alias = ''net0''\<rparr>]
     [\<lparr>Interface_MAC = ''52:54:00:00:00:01'', Interface_IPs = [], Interface_Name = ''ens3''\<rparr>]
   = [\<lparr>Name = ''net0'', Mac = ''52:54:00:00:00:01'', Ip = '''', IPs = [],
       InterfaceName = ''ens3'', InfoSource = InfoSourceDomainAndGA\<rparr>]
   \<and> merged_statuses [''52:54:00:00:00:02'', ''52:54:00:00:00:01'']
     [\<lparr>Dom_MAC = ''52:54:00:00:00:01'', Dom_Alias = ''net0''\<rparr>,
      \<lparr>Dom_MAC = ''52:54:00:00:00:02'', Dom_Alias = ''net0''\<rparr>]
     [\<lparr>Interface_MAC = ''52:54:00:00:00:01'', Interface_IPs = [], Interface_Name = ''ens3''\<rparr>]
   = [\<lparr>Name = ''net0'', Mac = ''52:54:00:00:00:01'', Ip = '''', IPs = [],
       InterfaceName = ''ens3'', InfoSource = InfoSourceDomainAndGA\<rparr>]"
  by (simp add: merged_statuses_def MergeAgentStatusesWithDomainData_def extractIPs_def)

section \<open>Properties of the reserved ports\<close>




section \<open>Properties of the DHCP configuration\<close>

lemma dhcp_ipv4_fields:
  "dhcp_ipv4 deps b c = Inr c' \<Longrightarrow>
     DHCP_Gateway c' = [169, 254, 75, 1] \<and> DHCP_IPv6Gateway c' = DHCP_IPv6Gateway c"
  by (auto simp: dhcp_ipv4_def Let_def localIPv4Addr_def split: option.splits)

lemma dhcp_ipv6_fields:
  "dhcp_ipv6 deps b c = Inr c' \<Longrightarrow>
     DHCP_IPv6Gateway c' = defaultIPv6Gateway b \<and> DHCP_Gateway c' = DHCP_Gateway c"
  by (auto simp: dhcp_ipv6_def Let_def split: option.splits)

text \<open>
  Claim C4, as amended. In the DHCP configuration that
  \<open>GenerateNonRecoverableDHCPConfig\<close> produces, the IPv4 gateway is the fixed address
  169.254.75.1 whenever IPv4 is enabled, whatever default gateway was learned; the IPv6
  gateway is the learned default IPv6 gateway whenever IPv6 is enabled; and the gateway of
  a family that is not enabled stays unset.
\<close>

theorem GenerateNonRecoverableDHCPConfig_gateways:
  assumes "GenerateNonRecoverableDHCPConfig deps b = Inr c"
  shows "(ipv4Enabled b \<longrightarrow> DHCP_Gateway c = [169, 254, 75, 1])
       \<and> (ipv6Enabled b \<longrightarrow> DHCP_IPv6Gateway c = defaultIPv6Gateway b)
       \<and> (\<not> ipv4Enabled b \<longrightarrow> DHCP_Gateway c = [])
       \<and> (\<not> ipv6Enabled b \<longrightarrow> DHCP_IPv6Gateway c = [])"
proof (cases "ipv4Enabled b")
  case v4: True
  from assms v4 obtain mac c4 where
    c4: "dhcp_ipv4 deps b (zero_DHCPConfig\<lparr>DHCP_MAC := mac, DHCP_IPAMDisabled := False\<rparr>) = Inr c4"
    and rest: "(if ipv6Enabled b then dhcp_ipv6 deps b c4 else Inr c4) = Inr c"
    by (auto simp: GenerateNonRecoverableDHCPConfig_def Let_def split: sum.splits option.splits)
  from dhcp_ipv4_fields [OF c4] have g4: "DHCP_Gateway c4 = [169, 254, 75, 1]"
    and g6: "DHCP_IPv6Gateway c4 = []"
    by (simp_all add: zero_DHCPConfig_def)
  show ?thesis
  proof (cases "ipv6Enabled b")
    case True
    with rest have "dhcp_ipv6 deps b c4 = Inr c" by simp
    from dhcp_ipv6_fields [OF this] g4 v4 True show ?thesis by simp
  next
    case False
    with rest have "c = c4" by simp
    with g4 g6 v4 False show ?thesis by simp
  qed
next
  case v4: False
  show ?thesis
  proof (cases "ipv6Enabled b")
    case True
    with assms v4 obtain mac where
      "dhcp_ipv6 deps b (zero_DHCPConfig\<lparr>DHCP_MAC := mac, DHCP_IPAMDisabled := False\<rparr>) = Inr c"
      by (auto simp: GenerateNonRecoverableDHCPConfig_def Let_def split: option.splits)
    from dhcp_ipv6_fields [OF this] v4 True show ?thesis
      by (simp add: zero_DHCPConfig_def)
  next
    case False
    with assms v4 have "c = zero_DHCPConfig\<lparr>DHCP_IPAMDisabled := True\<rparr>"
      by (simp add: GenerateNonRecoverableDHCPConfig_def)
    with v4 False show ?thesis
      by (simp add: zero_DHCPConfig_def)
  qed
qed

theorem GenerateNonRecoverableDHCPConfig_gateways_witness:
  "(\<exists>c. GenerateNonRecoverableDHCPConfig sample_deps discovered = Inr c
        \<and> DHCP_Gateway c = [169, 254, 75, 1]
        \<and> DHCP_IPv6Gateway c = fe80_1)
   \<and> ipv4Enabled discovered \<and> ipv6Enabled discovered
   \<and> (\<exists>c. GenerateNonRecoverableDHCPConfig sample_deps
              (discovered\<lparr>ipv4Enabled := False, ipv6Enabled := False\<rparr>) = Inr c
        \<and> DHCP_Gateway c = [] \<and> DHCP_IPv6Gateway c = [])"
proof -
  obtain c where c: "GenerateNonRecoverableDHCPConfig sample_deps discovered = Inr c"
    by (simp add: GenerateNonRecoverableDHCPConfig_def dhcp_ipv4_def dhcp_ipv6_def
        sample_deps_def discovered_def Let_def)
  obtain c' where c': "GenerateNonRecoverableDHCPConfig sample_deps
      (discovered\<lparr>ipv4Enabled := False, ipv6Enabled := False\<rparr>) = Inr c'"
    by (simp add: GenerateNonRecoverableDHCPConfig_def)
  have e: "ipv4Enabled discovered" "ipv6Enabled discovered"
    "defaultIPv6Gateway discovered = fe80_1"
    by (simp_all add: discovered_def)
  from GenerateNonRecoverableDHCPConfig_gateways [OF c] e
  have "DHCP_Gateway c = [169, 254, 75, 1] \<and> DHCP_IPv6Gateway c = fe80_1"
    by simp
  moreover from GenerateNonRecoverableDHCPConfig_gateways [OF c']
  have "DHCP_Gateway c' = [] \<and> DHCP_IPv6Gateway c' = []"
    by simp
  ultimately show ?thesis
    using c c' e by blast
qed

text \<open>
  Claim C4 as stated fails for IPv6: for the dual-stack pod whose learned default IPv6
  gateway is fe80::1, the configuration carries fe80::1 as its IPv6 gateway, not the fixed
  address fc00:eeee:eeee:eeee:eeee:eeee:eeee:eeee of the bridge.
\<close>

theorem GenerateNonRecoverableDHCPConfig_ipv6_counterexample:
  "ipv6Enabled discovered
   \<and> map_sum id DHCP_IPv6Gateway (GenerateNonRecoverableDHCPConfig sample_deps discovered)
       = Inr (defaultIPv6Gateway discovered)
   \<and> defaultIPv6Gateway discovered \<noteq> IPNet_IP localIPv6Addr"
  by (simp add: GenerateNonRecoverableDHCPConfig_def dhcp_ipv4_def dhcp_ipv6_def
      sample_deps_def discovered_def Let_def localIPv6Addr_def fe80_1_def)

section \<open>Properties of the router-mode configurator\<close>

lemma history_append [simp]: "history (t @ es) = history t @ map snd es"
  by (simp add: history_def)

lemma history_Nil [simp]: "history [] = []"
  by (simp add: history_def)

lemma clean_append:
  "clean h hist (xs @ ys) = (clean h hist xs \<and> clean h (hist @ map snd xs) ys)"
  by (induction xs arbitrary: hist) auto

lemma aborted_nonempty: "aborted h hist evs e \<Longrightarrow> evs \<noteq> []"
  by (cases evs) auto

lemma aborted_append:
  "ys \<noteq> [] \<Longrightarrow>
     aborted h hist (xs @ ys) e = (clean h hist xs \<and> aborted h (hist @ map snd xs) ys e)"
proof (induction xs arbitrary: hist)
  case Nil
  then show ?case by simp
next
  case (Cons x xs)
  then obtain z zs where "xs @ ys = z # zs"
    by (cases "xs @ ys") auto
  with Cons show ?case by auto
qed

lemma faithful_append:
  assumes "clean h hist xs" and "faithful h (hist @ map snd xs) r ys"
  shows "faithful h hist r (xs @ ys)"
proof (cases r)
  case Success
  with assms show ?thesis by (simp add: faithful_def clean_append)
next
  case (Failure e)
  with assms have "aborted h (hist @ map snd xs) ys e" by (simp add: faithful_def)
  with assms(1) Failure show ?thesis
    by (simp add: faithful_def aborted_append aborted_nonempty)
next
  case Panic
  with assms show ?thesis by (simp add: faithful_def)
qed

lemma faithful_Success: "faithful h hist Success evs = clean h hist evs"
  by (simp add: faithful_def)

lemma faithful_not_Panic: "faithful h hist r evs \<Longrightarrow> r \<noteq> Panic"
  by (auto simp: faithful_def)

lemma faithful_failed_nonempty: "faithful h hist r evs \<Longrightarrow> r \<noteq> Success \<Longrightarrow> evs \<noteq> []"
  by (cases r) (auto simp: faithful_def dest: aborted_nonempty)

subsection \<open>The steps one by one\<close>

lemma configurePodNic_run:
  assumes "configurePodNic h b t = (r, t')"
  shows "\<exists>evs. t' = t @ evs \<and> evs \<noteq> [] \<and> (\<forall>ev \<in> set evs. fst ev = StepPodNic)
           \<and> faithful h (history t) r evs \<and> prefix (map snd evs) (pod_nic_plan b)"
  using assms
  by (auto simp: configurePodNic_def invoke_def Let_def faithful_def pod_nic_plan_def left_error_def
      split: option.splits sum.splits if_splits)

lemma createTapDevice_run:
  assumes "createTapDevice h deps b t = (r, b', t')"
  shows "\<exists>evs. t' = t @ evs \<and> evs \<noteq> [] \<and> (\<forall>ev \<in> set evs. fst ev = StepTap)
           \<and> faithful h (history t) r evs
           \<and> b'\<lparr>tapNicLink := None\<rparr> = b\<lparr>tapNicLink := None\<rparr>
           \<and> (r = Success \<longrightarrow> tapNicLink b' \<noteq> None)"
  using assms
  by (auto simp: createTapDevice_def invoke_def Let_def faithful_def left_error_def
      split: option.splits sum.splits if_splits)

lemma bridge_address_run:
  assumes "bridge_address h bridge text t = (r, t')"
  shows "\<exists>evs. t' = t @ evs \<and> evs \<noteq> [] \<and> (\<forall>ev \<in> set evs. fst ev = StepBridge)
           \<and> faithful h (history t) (case r of None \<Rightarrow> Success | Some e \<Rightarrow> Failure e) evs"
  using assms
  by (auto simp: bridge_address_def invoke_def faithful_def split: option.splits prod.splits)
lemma createBridge_run:
  assumes "createBridge h b t = (r, b', t')" and "tapNicLink b \<noteq> None"
  shows "\<exists>evs. t' = t @ evs \<and> evs \<noteq> [] \<and> (\<forall>ev \<in> set evs. fst ev = StepBridge)
           \<and> faithful h (history t) r evs
           \<and> b'\<lparr>bridgeLink := None\<rparr> = b\<lparr>bridgeLink := None\<rparr>
           \<and> (r = Success \<longrightarrow> bridgeLink b' \<noteq> None)"
  using assms
  by (auto simp: createBridge_def bridge_address_def invoke_def Let_def faithful_def left_error_def
      split: option.splits sum.splits if_splits prod.splits)

lemma nftables_rules_run:
  "nftables_rules h proto ifname localIP ports t = (r, t') \<Longrightarrow>
     \<exists>evs. t' = t @ evs \<and> (\<forall>ev \<in> set evs. fst ev = StepNAT proto) \<and> faithful h (history t) r evs"
proof (induction ports arbitrary: t)
  case Nil
  then show ?case by (simp add: faithful_def)
next
  case (Cons port ports)
  let ?c = "CNftablesAppendRule proto ''nat'' ''prerouting'' (nft_rule ifname localIP port)"
  let ?ev = "(StepNAT proto, ?c)"
  show ?case
  proof (cases "call_error h (history t) ?c")
    case None
    with Cons.prems have "nftables_rules h proto ifname localIP ports (t @ [?ev]) = (r, t')"
      by (simp add: invoke_def)
    from Cons.IH [OF this] obtain evs where evs: "t' = (t @ [?ev]) @ evs"
      "\<forall>ev \<in> set evs. fst ev = StepNAT proto" "faithful h (history (t @ [?ev])) r evs"
      by blast
    have "clean h (history t) [?ev]" using None by simp
    with evs(3) have "faithful h (history t) r ([?ev] @ evs)"
      by (intro faithful_append) simp_all
    with evs(1,2) show ?thesis
      by (intro exI [of _ "[?ev] @ evs"]) simp
  next
    case (Some e)
    with Cons.prems have "r = Failure e" "t' = t @ [?ev]"
      by (simp_all add: invoke_def)
    with Some show ?thesis
      by (intro exI [of _ "[?ev]"]) (simp add: faithful_def)
  qed
qed

lemma iptables_rules_run:
  "iptables_rules h proto localIP ports t = (r, t') \<Longrightarrow>
     \<exists>evs. t' = t @ evs \<and> (\<forall>ev \<in> set evs. fst ev = StepNAT proto) \<and> faithful h (history t) r evs"
proof (induction ports arbitrary: t)
  case Nil
  then show ?case by (simp add: faithful_def)
next
  case (Cons port ports)
  let ?c = "CIptablesAppendRule proto ''nat'' ''PREROUTING'' (ipt_rule localIP port)"
  let ?ev = "(StepNAT proto, ?c)"
  show ?case
  proof (cases "call_error h (history t) ?c")
    case None
    with Cons.prems have "iptables_rules h proto localIP ports (t @ [?ev]) = (r, t')"
      by (simp add: invoke_def)
    from Cons.IH [OF this] obtain evs where evs: "t' = (t @ [?ev]) @ evs"
      "\<forall>ev \<in> set evs. fst ev = StepNAT proto" "faithful h (history (t @ [?ev])) r evs"
      by blast
    have "clean h (history t) [?ev]" using None by simp
    with evs(3) have "faithful h (history t) r ([?ev] @ evs)"
      by (intro faithful_append) simp_all
    with evs(1,2) show ?thesis
      by (intro exI [of _ "[?ev] @ evs"]) simp
  next
    case (Some e)
    with Cons.prems have "r = Failure e" "t' = t @ [?ev]"
      by (simp_all add: invoke_def)
    with Some show ?thesis
      by (intro exI [of _ "[?ev]"]) (simp add: faithful_def)
  qed
qed
lemma dnat_rules_run:
  assumes "dnat_rules h b proto ports localAddr t = (r, t')"
  shows "\<exists>evs. t' = t @ evs \<and> evs \<noteq> [] \<and> (\<forall>ev \<in> set evs. fst ev = StepNAT proto)
           \<and> faithful h (history t) r evs"
proof (cases "h_NftablesLoad h (history t) proto")
  case None
  let ?ev = "(StepNAT proto, CNftablesLoad proto)"
  from assms None
  have "nftables_rules h proto (Link_Name (podNicLink b)) (IPNet_IP localAddr) ports (t @ [?ev]) = (r, t')"
    by (simp add: dnat_rules_def invoke_def)
  from nftables_rules_run [OF this] obtain evs where evs: "t' = (t @ [?ev]) @ evs"
    "\<forall>ev \<in> set evs. fst ev = StepNAT proto" "faithful h (history (t @ [?ev])) r evs"
    by blast
  have "faithful h (history t) r ([?ev] @ evs)"
    using evs(3) by (intro faithful_append) simp_all
  with evs(1,2) show ?thesis
    by (intro exI [of _ "[?ev] @ evs"]) simp
next
  case (Some loadErr)
  let ?ev = "(StepNAT proto, CNftablesLoad proto)"
  let ?ev' = "(StepNAT proto, CHasNatIptables proto)"
  show ?thesis
  proof (cases "h_HasNatIptables h (history (t @ [?ev])) proto")
    case True
    with assms Some
    have "iptables_rules h proto (IPNet_IP localAddr) ports (t @ [?ev, ?ev']) = (r, t')"
      by (simp add: dnat_rules_def invoke_def)
    from iptables_rules_run [OF this] obtain evs where evs: "t' = (t @ [?ev, ?ev']) @ evs"
      "\<forall>ev \<in> set evs. fst ev = StepNAT proto" "faithful h (history (t @ [?ev, ?ev'])) r evs"
      by blast
    have "faithful h (history t) r ([?ev, ?ev'] @ evs)"
      using evs(3) by (intro faithful_append) simp_all
    with evs(1,2) show ?thesis
      by (intro exI [of _ "[?ev, ?ev'] @ evs"]) simp
  next
    case False
    with assms Some have "r = Success" "t' = t @ [?ev, ?ev']"
      by (simp_all add: dnat_rules_def invoke_def)
    then show ?thesis
      by (intro exI [of _ "[?ev, ?ev']"]) (simp add: faithful_def)
  qed
qed

lemma routes_and_neigh_run:
  assumes "routes_and_neigh h b proto podIP defaultDst defaultGateway gatewayMacAddr t = (r, t')"
    and "bridgeLink b \<noteq> None"
  shows "\<exists>evs. t' = t @ evs \<and> evs \<noteq> [] \<and> (\<forall>ev \<in> set evs. fst ev = StepNAT proto)
           \<and> faithful h (history t) r evs"
  using assms
  by (auto simp: routes_and_neigh_def invoke_def faithful_def split: option.splits)

lemma createNATRulesForReservedPorts_run:
  assumes run: "createNATRulesForReservedPorts h b proto ports localAddr podIP defaultDst
      defaultGateway gatewayMacAddr t = (r, t')"
    and br: "bridgeLink b \<noteq> None"
  shows "\<exists>evs. t' = t @ evs \<and> evs \<noteq> [] \<and> (\<forall>ev \<in> set evs. fst ev = StepNAT proto)
           \<and> faithful h (history t) r evs"
proof (cases "h_ConfigureIpForwarding h (history t) proto")
  case (Some e)
  let ?ev = "(StepNAT proto, CConfigureIpForwarding proto)"
  from run Some have "r = Failure e" "t' = t @ [?ev]"
    by (simp_all add: createNATRulesForReservedPorts_def invoke_def)
  with Some show ?thesis
    by (intro exI [of _ "[?ev]"]) (simp add: faithful_def)
next
  case None
  let ?ev = "(StepNAT proto, CConfigureIpForwarding proto)"
  obtain r2 t2 where d: "dnat_rules h b proto ports localAddr (t @ [?ev]) = (r2, t2)"
    by (cases "dnat_rules h b proto ports localAddr (t @ [?ev])")
  from dnat_rules_run [OF d] obtain evs2 where evs2: "t2 = (t @ [?ev]) @ evs2"
    "\<forall>ev \<in> set evs2. fst ev = StepNAT proto" "faithful h (history (t @ [?ev])) r2 evs2"
    by blast
  have c1: "clean h (history t) [?ev]"
    using None by simp
  show ?thesis
  proof (cases "r2 = Success")
    case True
    with run None d
    have "routes_and_neigh h b proto podIP defaultDst defaultGateway gatewayMacAddr t2 = (r, t')"
      by (simp add: createNATRulesForReservedPorts_def invoke_def)
    from routes_and_neigh_run [OF this br] obtain evs3 where evs3: "t' = t2 @ evs3"
      "\<forall>ev \<in> set evs3. fst ev = StepNAT proto" "faithful h (history t2) r evs3"
      by blast
    from evs2(3) True have "clean h (history (t @ [?ev])) evs2"
      by (simp add: faithful_def)
    with c1 have "clean h (history t) ([?ev] @ evs2)"
      by (simp add: clean_append)
    moreover have "history t2 = history t @ map snd ([?ev] @ evs2)"
      using evs2(1) by simp
    ultimately have "faithful h (history t) r (([?ev] @ evs2) @ evs3)"
      using evs3(3) by (intro faithful_append) simp_all
    with evs2(1,2) evs3(1,2) show ?thesis
      by (intro exI [of _ "([?ev] @ evs2) @ evs3"]) auto
  next
    case False
    with run None d have "r = r2" "t' = t2"
      by (auto simp: createNATRulesForReservedPorts_def invoke_def split: outcome.splits)
    moreover have "faithful h (history t) r2 ([?ev] @ evs2)"
      using c1 evs2(3) by (intro faithful_append) simp_all
    ultimately show ?thesis
      using evs2(1,2) by (intro exI [of _ "[?ev] @ evs2"]) simp
  qed
qed

lemma configureNeighbourReply_run:
  assumes "configureNeighbourReply h b t = (r, t')"
  shows "\<exists>evs. t' = t @ evs \<and> (\<forall>ev \<in> set evs. fst ev = StepNeighbourReply)
           \<and> faithful h (history t) r evs
           \<and> (r = Success \<and> (ipv4Enabled b \<or> ipv6Enabled b) \<longrightarrow> evs \<noteq> [])"
  using assms
  by (auto simp: configureNeighbourReply_def invoke_def faithful_def
      split: option.splits if_splits)
subsection \<open>Prepare as a sequence of the steps\<close>

lemma tap_keeps:
  assumes "b2\<lparr>tapNicLink := None\<rparr> = b\<lparr>tapNicLink := None\<rparr>"
  shows "ipv4Enabled b2 = ipv4Enabled b" "ipv6Enabled b2 = ipv6Enabled b"
proof -
  have "ipv4Enabled (b2\<lparr>tapNicLink := None\<rparr>) = ipv4Enabled (b\<lparr>tapNicLink := None\<rparr>)"
    "ipv6Enabled (b2\<lparr>tapNicLink := None\<rparr>) = ipv6Enabled (b\<lparr>tapNicLink := None\<rparr>)"
    using assms by simp_all
  then show "ipv4Enabled b2 = ipv4Enabled b" "ipv6Enabled b2 = ipv6Enabled b"
    by simp_all
qed

lemma bridge_keeps:
  assumes "b3\<lparr>bridgeLink := None\<rparr> = b2\<lparr>bridgeLink := None\<rparr>"
  shows "ipv4Enabled b3 = ipv4Enabled b2" "ipv6Enabled b3 = ipv6Enabled b2"
proof -
  have "ipv4Enabled (b3\<lparr>bridgeLink := None\<rparr>) = ipv4Enabled (b2\<lparr>bridgeLink := None\<rparr>)"
    "ipv6Enabled (b3\<lparr>bridgeLink := None\<rparr>) = ipv6Enabled (b2\<lparr>bridgeLink := None\<rparr>)"
    using assms by simp_all
  then show "ipv4Enabled b3 = ipv4Enabled b2" "ipv6Enabled b3 = ipv6Enabled b2"
    by simp_all
qed

lemma Prepare_segments:
  assumes run: "PreparePodNetworkInterface h deps b t = (r, b', t')"
  shows "\<exists>e1 e2 e3 e4 e5 e6.
           t' = t @ e1 @ e2 @ e3 @ e4 @ e5 @ e6
         \<and> (\<forall>ev \<in> set e1. fst ev = StepPodNic)
         \<and> (\<forall>ev \<in> set e2. fst ev = StepTap)
         \<and> (\<forall>ev \<in> set e3. fst ev = StepBridge)
         \<and> (\<forall>ev \<in> set e4. fst ev = StepNAT ProtocolIPv4)
         \<and> (\<forall>ev \<in> set e5. fst ev = StepNAT ProtocolIPv6)
         \<and> (\<forall>ev \<in> set e6. fst ev = StepNeighbourReply)
         \<and> e1 \<noteq> [] \<and> prefix (map snd e1) (pod_nic_plan b)
         \<and> (\<not> ipv4Enabled b \<longrightarrow> e4 = []) \<and> (\<not> ipv6Enabled b \<longrightarrow> e5 = [])
         \<and> faithful h (history t) r (e1 @ e2 @ e3 @ e4 @ e5 @ e6)
         \<and> (r = Success \<longrightarrow> e2 \<noteq> [] \<and> e3 \<noteq> []
               \<and> (ipv4Enabled b \<longrightarrow> e4 \<noteq> [] \<and> e6 \<noteq> [])
               \<and> (ipv6Enabled b \<longrightarrow> e5 \<noteq> [] \<and> e6 \<noteq> []))"
proof -
  have final: "?thesis"
    if "t' = t @ e1 @ e2 @ e3 @ e4 @ e5 @ e6"
      "\<forall>ev \<in> set e1. fst ev = StepPodNic" "\<forall>ev \<in> set e2. fst ev = StepTap"
      "\<forall>ev \<in> set e3. fst ev = StepBridge" "\<forall>ev \<in> set e4. fst ev = StepNAT ProtocolIPv4"
      "\<forall>ev \<in> set e5. fst ev = StepNAT ProtocolIPv6" "\<forall>ev \<in> set e6. fst ev = StepNeighbourReply"
      "e1 \<noteq> []" "prefix (map snd e1) (pod_nic_plan b)"
      "\<not> ipv4Enabled b \<longrightarrow> e4 = []" "\<not> ipv6Enabled b \<longrightarrow> e5 = []"
      "faithful h (history t) r (e1 @ e2 @ e3 @ e4 @ e5 @ e6)"
      "r = Success \<longrightarrow> e2 \<noteq> [] \<and> e3 \<noteq> []
               \<and> (ipv4Enabled b \<longrightarrow> e4 \<noteq> [] \<and> e6 \<noteq> [])
               \<and> (ipv6Enabled b \<longrightarrow> e5 \<noteq> [] \<and> e6 \<noteq> [])"
    for e1 e2 e3 e4 e5 e6
    using that by blast
  obtain r1 t1 where s1: "configurePodNic h b t = (r1, t1)"
    by (cases "configurePodNic h b t")
  from configurePodNic_run [OF s1] obtain e1 where e1: "t1 = t @ e1" "e1 \<noteq> []"
    "\<forall>ev \<in> set e1. fst ev = StepPodNic" "faithful h (history t) r1 e1"
    "prefix (map snd e1) (pod_nic_plan b)"
    by blast
  show ?thesis
  proof (cases "r1 = Success")
    case False
    with run s1 have "r = r1" "t' = t1"
      by (auto simp: PreparePodNetworkInterface_def split: outcome.splits)
    with e1 False show ?thesis
      by (intro final [of e1 "[]" "[]" "[]" "[]" "[]"]) simp_all
  next
    case r1: True
    with e1 have c1: "clean h (history t) e1"
      by (simp add: faithful_def)
    obtain r2 b2 t2 where s2: "createTapDevice h deps b t1 = (r2, b2, t2)"
      by (cases "createTapDevice h deps b t1")
    from createTapDevice_run [OF s2] obtain e2 where e2: "t2 = t1 @ e2" "e2 \<noteq> []"
      "\<forall>ev \<in> set e2. fst ev = StepTap" "faithful h (history t1) r2 e2"
      "b2\<lparr>tapNicLink := None\<rparr> = b\<lparr>tapNicLink := None\<rparr>" "r2 = Success \<longrightarrow> tapNicLink b2 \<noteq> None"
      by blast
    have f2: "faithful h (history t) r2 (e1 @ e2)"
      using c1 e2(4) e1(1) by (intro faithful_append) simp_all
    show ?thesis
    proof (cases "r2 = Success")
      case False
      with run s1 r1 s2 have "r = r2" "t' = t2"
        by (auto simp: PreparePodNetworkInterface_def split: outcome.splits)
      with e1 e2 f2 False show ?thesis
        by (intro final [of e1 e2 "[]" "[]" "[]" "[]"]) simp_all
    next
      case r2: True
      with f2 have c2: "clean h (history t) (e1 @ e2)"
        by (simp add: faithful_def)
      from r2 e2(6) have tap: "tapNicLink b2 \<noteq> None"
        by simp
      obtain r3 b3 t3 where s3: "createBridge h b2 t2 = (r3, b3, t3)"
        by (cases "createBridge h b2 t2")
      from createBridge_run [OF s3 tap] obtain e3 where e3: "t3 = t2 @ e3" "e3 \<noteq> []"
        "\<forall>ev \<in> set e3. fst ev = StepBridge" "faithful h (history t2) r3 e3"
        "b3\<lparr>bridgeLink := None\<rparr> = b2\<lparr>bridgeLink := None\<rparr>" "r3 = Success \<longrightarrow> bridgeLink b3 \<noteq> None"
        by blast
      have h2: "history t2 = history t @ map snd (e1 @ e2)"
        using e1(1) e2(1) by simp
      have f3: "faithful h (history t) r3 ((e1 @ e2) @ e3)"
        using c2 e3(4) h2 by (intro faithful_append) simp_all
      have en: "ipv4Enabled b3 = ipv4Enabled b" "ipv6Enabled b3 = ipv6Enabled b"
        using tap_keeps [OF e2(5)] bridge_keeps [OF e3(5)] by simp_all
      show ?thesis
      proof (cases "r3 = Success")
        case False
        with run s1 r1 s2 r2 s3 have "r = r3" "t' = t3"
          by (auto simp: PreparePodNetworkInterface_def split: outcome.splits)
        with e1 e2 e3 f3 False show ?thesis
          by (intro final [of e1 e2 e3 "[]" "[]" "[]"]) simp_all
      next
        case r3: True
        with f3 have c3: "clean h (history t) ((e1 @ e2) @ e3)"
          by (simp add: faithful_def)
        from r3 e3(6) have br: "bridgeLink b3 \<noteq> None"
          by simp
        let ?ports = "reservedPortsInPod (decode_ports deps) (vmi b3)"
        let ?nat4 = "if ipv4Enabled b3
            then createNATRulesForReservedPorts h b3 ProtocolIPv4 ?ports localIPv4Addr
                   \<lparr>IPNet_IP = Addr_IP (podIPv4Addr b3), IPNet_Mask = CIDRMask 4\<rparr>
                   (DefaultIPv4Dst deps) (defaultIPv4Gateway b3) gatewayMacAddress t3
            else (Success, t3)"
        obtain r4 t4 where s4: "?nat4 = (r4, t4)"
          by (cases ?nat4)
        have "\<exists>e4. t4 = t3 @ e4 \<and> (\<forall>ev \<in> set e4. fst ev = StepNAT ProtocolIPv4)
            \<and> faithful h (history t3) r4 e4 \<and> (ipv4Enabled b \<longrightarrow> e4 \<noteq> [])
            \<and> (\<not> ipv4Enabled b \<longrightarrow> e4 = [])"
        proof (cases "ipv4Enabled b3")
          case True
          with s4 createNATRulesForReservedPorts_run [OF _ br] en show ?thesis
            by (metis (no_types, lifting))
        next
          case False
          with s4 en show ?thesis
            by (intro exI [of _ "[]"]) (auto simp: faithful_def)
        qed
        then obtain e4 where e4: "t4 = t3 @ e4" "\<forall>ev \<in> set e4. fst ev = StepNAT ProtocolIPv4"
          "faithful h (history t3) r4 e4" "ipv4Enabled b \<longrightarrow> e4 \<noteq> []" "\<not> ipv4Enabled b \<longrightarrow> e4 = []"
          by blast
        have h3: "history t3 = history t @ map snd ((e1 @ e2) @ e3)"
          using e1(1) e2(1) e3(1) by simp
        have f4: "faithful h (history t) r4 (((e1 @ e2) @ e3) @ e4)"
          using c3 e4(3) h3 by (intro faithful_append) simp_all
        show ?thesis
        proof (cases "r4 = Success")
          case False
          with run s1 r1 s2 r2 s3 r3 s4 have "r = r4" "t' = t4"
            by (auto simp: PreparePodNetworkInterface_def Let_def split: outcome.splits)
          with e1 e2 e3 e4 f4 False show ?thesis
            by (intro final [of e1 e2 e3 e4 "[]" "[]"]) simp_all
        next
          case r4: True
          with f4 have c4: "clean h (history t) (((e1 @ e2) @ e3) @ e4)"
            by (simp add: faithful_def)
          let ?nat6 = "if ipv6Enabled b3
              then createNATRulesForReservedPorts h b3 ProtocolIPv6 ?ports localIPv6Addr
                     \<lparr>IPNet_IP = Addr_IP (podIPv6Addr b3), IPNet_Mask = CIDRMask 16\<rparr>
                     (DefaultIPv6Dst deps) (defaultIPv6Gateway b3) gatewayMacAddress t4
              else (Success, t4)"
          obtain r5 t5 where s5: "?nat6 = (r5, t5)"
            by (cases ?nat6)
          have "\<exists>e5. t5 = t4 @ e5 \<and> (\<forall>ev \<in> set e5. fst ev = StepNAT ProtocolIPv6)
              \<and> faithful h (history t4) r5 e5 \<and> (ipv6Enabled b \<longrightarrow> e5 \<noteq> [])
              \<and> (\<not> ipv6Enabled b \<longrightarrow> e5 = [])"
          proof (cases "ipv6Enabled b3")
            case True
            with s5 createNATRulesForReservedPorts_run [OF _ br] en show ?thesis
              by (metis (no_types, lifting))
          next
            case False
            with s5 en show ?thesis
              by (intro exI [of _ "[]"]) (auto simp: faithful_def)
          qed
          then obtain e5 where e5: "t5 = t4 @ e5" "\<forall>ev \<in> set e5. fst ev = StepNAT ProtocolIPv6"
            "faithful h (history t4) r5 e5" "ipv6Enabled b \<longrightarrow> e5 \<noteq> []" "\<not> ipv6Enabled b \<longrightarrow> e5 = []"
            by blast
          have h4: "history t4 = history t @ map snd (((e1 @ e2) @ e3) @ e4)"
            using e1(1) e2(1) e3(1) e4(1) by simp
          have f5: "faithful h (history t) r5 ((((e1 @ e2) @ e3) @ e4) @ e5)"
            using c4 e5(3) h4 by (intro faithful_append) simp_all
          show ?thesis
          proof (cases "r5 = Success")
            case False
            with run s1 r1 s2 r2 s3 r3 s4 r4 s5 have "r = r5" "t' = t5"
              by (auto simp: PreparePodNetworkInterface_def Let_def split: outcome.splits)
            with e1 e2 e3 e4 e5 f5 False show ?thesis
              by (intro final [of e1 e2 e3 e4 e5 "[]"]) simp_all
          next
            case r5: True
            with f5 have c5: "clean h (history t) ((((e1 @ e2) @ e3) @ e4) @ e5)"
              by (simp add: faithful_def)
            obtain r6 t6 where s6: "configureNeighbourReply h b3 t5 = (r6, t6)"
              by (cases "configureNeighbourReply h b3 t5")
            from configureNeighbourReply_run [OF s6] obtain e6 where e6: "t6 = t5 @ e6"
              "\<forall>ev \<in> set e6. fst ev = StepNeighbourReply" "faithful h (history t5) r6 e6"
              "r6 = Success \<and> (ipv4Enabled b3 \<or> ipv6Enabled b3) \<longrightarrow> e6 \<noteq> []"
              by blast
            have h5: "history t5 = history t @ map snd ((((e1 @ e2) @ e3) @ e4) @ e5)"
              using e1(1) e2(1) e3(1) e4(1) e5(1) by simp
            have f6: "faithful h (history t) r6 (((((e1 @ e2) @ e3) @ e4) @ e5) @ e6)"
              using c5 e6(3) h5 by (intro faithful_append) simp_all
            from run s1 r1 s2 r2 s3 r3 s4 r4 s5 r5 s6 have "r = r6" "t' = t6"
              by (auto simp: PreparePodNetworkInterface_def Let_def split: outcome.splits)
            with e1 e2 e3 e4 e5 e6 f6 en show ?thesis
              by (intro final [of e1 e2 e3 e4 e5 e6]) simp_all
          qed
        qed
      qed
    qed
  qed
qed
lemma clean_nth:
  "clean h hist evs \<Longrightarrow> i < length evs \<Longrightarrow>
     tolerated (snd (evs ! i)) \<or> call_error h (hist @ map snd (take i evs)) (snd (evs ! i)) = None"
proof (induction evs arbitrary: hist i)
  case Nil
  then show ?case by simp
next
  case (Cons ev evs)
  show ?case
  proof (cases i)
    case 0
    with Cons.prems show ?thesis by simp
  next
    case (Suc j)
    with Cons.prems have "clean h (hist @ [snd ev]) evs" "j < length evs"
      by simp_all
    from Cons.IH [OF this] Suc show ?thesis by simp
  qed
qed

lemma aborted_last:
  "aborted h hist evs e \<Longrightarrow>
     clean h hist (butlast evs) \<and> \<not> tolerated (snd (last evs))
     \<and> call_error h (hist @ map snd (butlast evs)) (snd (last evs)) = Some e"
proof (induction h hist evs e rule: aborted.induct)
  case (1 h hist e)
  then show ?case by simp
next
  case (2 h hist ev e)
  then show ?case by simp
next
  case (3 h hist ev ev' evs e)
  then show ?case by simp
qed

lemma faithful_failing_call:
  assumes f: "faithful h hist r evs" and i: "i < length evs"
    and nt: "\<not> tolerated (snd (evs ! i))"
    and err: "call_error h (hist @ map snd (take i evs)) (snd (evs ! i)) = Some e"
  shows "Suc i = length evs \<and> r = Failure e"
proof (cases r)
  case Success
  with f have "clean h hist evs" by (simp add: faithful_def)
  from clean_nth [OF this i] nt err show ?thesis by simp
next
  case (Failure e')
  with f have a: "aborted h hist evs e'" by (simp add: faithful_def)
  note l = aborted_last [OF a]
  show ?thesis
  proof (cases "Suc i = length evs")
    case True
    then have len: "length evs = Suc i" by simp
    have "evs ! i = last evs" "take i evs = butlast evs"
      by (simp_all add: last_conv_nth butlast_conv_take aborted_nonempty [OF a] len)
    with l err Failure True show ?thesis by simp
  next
    case False
    with i have j: "i < length (butlast evs)" by simp
    then have "butlast evs ! i = evs ! i" "take i (butlast evs) = take i evs"
      by (simp_all add: nth_butlast take_butlast)
    with clean_nth [OF conjunct1 [OF l] j] nt err show ?thesis by simp
  qed
next
  case Panic
  with f show ?thesis by (simp add: faithful_def)
qed

lemma same_step_sorted:
  "\<forall>ev \<in> set xs. fst ev = s \<Longrightarrow> sorted (map (step_rank \<circ> fst) xs)"
  by (induction xs) auto

subsection \<open>The steps against their plans\<close>

lemma map_snd_tagged [simp]: "map snd (tagged s cs) = cs"
  by (simp add: tagged_def comp_def)

lemma map_fst_tagged: "ev \<in> set (tagged s cs) \<Longrightarrow> fst ev = s"
  by (auto simp: tagged_def)

lemma tagged_append: "tagged s (xs @ ys) = tagged s xs @ tagged s ys"
  by (simp add: tagged_def)

lemma tagged_Cons: "tagged s (x # xs) = (s, x) # tagged s xs"
  by (simp add: tagged_def)

lemma tagged_Nil: "tagged s [] = []"
  by (simp add: tagged_def)

lemma follows_append: "follows r evs plan \<Longrightarrow> follows r (xs @ evs) (xs @ plan)"
  by (simp add: follows_def)

lemma follows_stopped: "follows r evs plan \<Longrightarrow> r \<noteq> Success \<Longrightarrow> follows r evs (plan @ rest)"
  by (simp add: follows_def)

lemma follows_Success: "follows Success evs plan \<Longrightarrow> evs = plan"
  by (simp add: follows_def)

lemma follows_Nil: "follows Success [] []"
  by (simp add: follows_def)

lemma configurePodNic_plan:
  assumes "configurePodNic h b t = (r, t')"
  shows "\<exists>evs. t' = t @ evs \<and> follows r evs (tagged StepPodNic (pod_nic_plan b))"
  using assms
  by (auto simp: configurePodNic_def invoke_def Let_def follows_def tagged_def pod_nic_plan_def
      split: option.splits sum.splits if_splits)

lemma createTapDevice_plan:
  assumes "createTapDevice h deps b t = (r, b', t')"
  shows "\<exists>evs. t' = t @ evs \<and> follows r evs (tagged StepTap (tap_plan h deps b (history t)))
           \<and> (r = Success \<longrightarrow>
                (\<exists>tap. tap_link h deps b (history t) = Inr tap \<and> b' = b\<lparr>tapNicLink := Some tap\<rparr>))"
  using assms
  by (auto simp: createTapDevice_def invoke_def Let_def follows_def tagged_def tap_plan_def
      tap_link_def tap_create_def split: option.splits sum.splits if_splits)

lemma createBridge_plan:
  assumes "createBridge h b t = (r, b', t')" and "tapNicLink b = Some tap"
  shows "\<exists>evs. t' = t @ evs \<and> follows r evs (tagged StepBridge (bridge_plan h b tap (history t)))
           \<and> (r = Success \<longrightarrow>
                (\<exists>bridge. bridge_link h b tap (history t) = Inr bridge
                         \<and> b' = b\<lparr>bridgeLink := Some bridge\<rparr>))"
  using assms
  by (auto simp: createBridge_def bridge_address_def invoke_def Let_def follows_def tagged_def
      bridge_plan_def bridge_setup_def bridge_link_def bridge_address_plan_def
      split: option.splits sum.splits if_splits prod.splits)

lemma nftables_rules_plan:
  "nftables_rules h proto ifname localIP ports t = (r, t') \<Longrightarrow>
     \<exists>evs. t' = t @ evs
       \<and> follows r evs (tagged (StepNAT proto)
            (map (\<lambda>port. CNftablesAppendRule proto ''nat'' ''prerouting''
                           (nft_rule ifname localIP port)) ports))"
proof (induction ports arbitrary: t)
  case Nil
  then show ?case by (simp add: follows_def tagged_def)
next
  case (Cons port ports)
  let ?c = "CNftablesAppendRule proto ''nat'' ''prerouting'' (nft_rule ifname localIP port)"
  let ?ev = "(StepNAT proto, ?c)"
  show ?case
  proof (cases "call_error h (history t) ?c")
    case None
    with Cons.prems have "nftables_rules h proto ifname localIP ports (t @ [?ev]) = (r, t')"
      by (simp add: invoke_def)
    from Cons.IH [OF this] obtain evs where evs: "t' = (t @ [?ev]) @ evs"
      "follows r evs (tagged (StepNAT proto)
            (map (\<lambda>port. CNftablesAppendRule proto ''nat'' ''prerouting''
                           (nft_rule ifname localIP port)) ports))"
      by blast
    from follows_append [OF evs(2), of "[?ev]"] evs(1) show ?thesis
      by (intro exI [of _ "[?ev] @ evs"]) (simp add: tagged_def)
  next
    case (Some e)
    with Cons.prems have "r = Failure e" "t' = t @ [?ev]"
      by (simp_all add: invoke_def)
    then show ?thesis
      by (intro exI [of _ "[?ev]"]) (simp add: follows_def tagged_def)
  qed
qed

lemma iptables_rules_plan:
  "iptables_rules h proto localIP ports t = (r, t') \<Longrightarrow>
     \<exists>evs. t' = t @ evs
       \<and> follows r evs (tagged (StepNAT proto)
            (map (\<lambda>port. CIptablesAppendRule proto ''nat'' ''PREROUTING''
                           (ipt_rule localIP port)) ports))"
proof (induction ports arbitrary: t)
  case Nil
  then show ?case by (simp add: follows_def tagged_def)
next
  case (Cons port ports)
  let ?c = "CIptablesAppendRule proto ''nat'' ''PREROUTING'' (ipt_rule localIP port)"
  let ?ev = "(StepNAT proto, ?c)"
  show ?case
  proof (cases "call_error h (history t) ?c")
    case None
    with Cons.prems have "iptables_rules h proto localIP ports (t @ [?ev]) = (r, t')"
      by (simp add: invoke_def)
    from Cons.IH [OF this] obtain evs where evs: "t' = (t @ [?ev]) @ evs"
      "follows r evs (tagged (StepNAT proto)
            (map (\<lambda>port. CIptablesAppendRule proto ''nat'' ''PREROUTING''
                           (ipt_rule localIP port)) ports))"
      by blast
    from follows_append [OF evs(2), of "[?ev]"] evs(1) show ?thesis
      by (intro exI [of _ "[?ev] @ evs"]) (simp add: tagged_def)
  next
    case (Some e)
    with Cons.prems have "r = Failure e" "t' = t @ [?ev]"
      by (simp_all add: invoke_def)
    then show ?thesis
      by (intro exI [of _ "[?ev]"]) (simp add: follows_def tagged_def)
  qed
qed

lemma dnat_rules_plan:
  assumes "dnat_rules h b proto ports localAddr t = (r, t')"
  shows "\<exists>evs. t' = t @ evs
           \<and> follows r evs (tagged (StepNAT proto) (dnat_plan h b proto ports localAddr (history t)))"
proof (cases "h_NftablesLoad h (history t) proto")
  case None
  let ?ev = "(StepNAT proto, CNftablesLoad proto)"
  from assms None
  have "nftables_rules h proto (Link_Name (podNicLink b)) (IPNet_IP localAddr) ports (t @ [?ev]) = (r, t')"
    by (simp add: dnat_rules_def invoke_def)
  from nftables_rules_plan [OF this] obtain evs where evs: "t' = (t @ [?ev]) @ evs"
    "follows r evs (tagged (StepNAT proto)
            (map (\<lambda>port. CNftablesAppendRule proto ''nat'' ''prerouting''
                   (nft_rule (Link_Name (podNicLink b)) (IPNet_IP localAddr) port)) ports))"
    by blast
  from follows_append [OF evs(2), of "[?ev]"] evs(1) None show ?thesis
    by (intro exI [of _ "[?ev] @ evs"]) (simp add: dnat_plan_def tagged_def)
next
  case (Some loadErr)
  let ?ev = "(StepNAT proto, CNftablesLoad proto)"
  let ?ev' = "(StepNAT proto, CHasNatIptables proto)"
  show ?thesis
  proof (cases "h_HasNatIptables h (history (t @ [?ev])) proto")
    case True
    with assms Some
    have "iptables_rules h proto (IPNet_IP localAddr) ports (t @ [?ev, ?ev']) = (r, t')"
      by (simp add: dnat_rules_def invoke_def)
    from iptables_rules_plan [OF this] obtain evs where evs: "t' = (t @ [?ev, ?ev']) @ evs"
      "follows r evs (tagged (StepNAT proto)
            (map (\<lambda>port. CIptablesAppendRule proto ''nat'' ''PREROUTING''
                           (ipt_rule (IPNet_IP localAddr) port)) ports))"
      by blast
    from follows_append [OF evs(2), of "[?ev, ?ev']"] evs(1) Some True show ?thesis
      by (intro exI [of _ "[?ev, ?ev'] @ evs"]) (simp add: dnat_plan_def tagged_def)
  next
    case False
    with assms Some have "r = Success" "t' = t @ [?ev, ?ev']"
      by (simp_all add: dnat_rules_def invoke_def)
    with Some False show ?thesis
      by (intro exI [of _ "[?ev, ?ev']"]) (simp add: dnat_plan_def tagged_def follows_def)
  qed
qed

lemma routes_and_neigh_plan:
  assumes "routes_and_neigh h b proto podIP defaultDst defaultGateway gatewayMacAddr t = (r, t')"
    and "bridgeLink b = Some bridge"
  shows "\<exists>evs. t' = t @ evs
           \<and> follows r evs (tagged (StepNAT proto)
                (routes_plan b bridge proto podIP defaultDst defaultGateway gatewayMacAddr))"
  using assms
  by (auto simp: routes_and_neigh_def invoke_def follows_def tagged_def routes_plan_def
      split: option.splits)

lemma createNATRulesForReservedPorts_plan:
  assumes run: "createNATRulesForReservedPorts h b proto ports localAddr podIP defaultDst
      defaultGateway gatewayMacAddr t = (r, t')"
    and br: "bridgeLink b = Some bridge"
  shows "\<exists>evs. t' = t @ evs
           \<and> follows r evs (tagged (StepNAT proto)
                (nat_plan h b bridge proto ports localAddr podIP defaultDst defaultGateway
                   gatewayMacAddr (history t)))"
proof (cases "h_ConfigureIpForwarding h (history t) proto")
  case (Some e)
  let ?ev = "(StepNAT proto, CConfigureIpForwarding proto)"
  from run Some have "r = Failure e" "t' = t @ [?ev]"
    by (simp_all add: createNATRulesForReservedPorts_def invoke_def)
  then show ?thesis
    by (intro exI [of _ "[?ev]"]) (simp add: follows_def tagged_def nat_plan_def)
next
  case None
  let ?ev = "(StepNAT proto, CConfigureIpForwarding proto)"
  let ?dnat = "tagged (StepNAT proto)
      (dnat_plan h b proto ports localAddr (history t @ [CConfigureIpForwarding proto]))"
  let ?routes = "tagged (StepNAT proto)
      (routes_plan b bridge proto podIP defaultDst defaultGateway gatewayMacAddr)"
  have plan: "tagged (StepNAT proto)
      (nat_plan h b bridge proto ports localAddr podIP defaultDst defaultGateway
         gatewayMacAddr (history t)) = [?ev] @ ?dnat @ ?routes"
    by (simp add: nat_plan_def tagged_def)
  obtain r2 t2 where d: "dnat_rules h b proto ports localAddr (t @ [?ev]) = (r2, t2)"
    by (cases "dnat_rules h b proto ports localAddr (t @ [?ev])")
  from dnat_rules_plan [OF d] obtain evs2 where evs2: "t2 = (t @ [?ev]) @ evs2"
    "follows r2 evs2 ?dnat"
    by auto
  show ?thesis
  proof (cases "r2 = Success")
    case True
    with run None d
    have "routes_and_neigh h b proto podIP defaultDst defaultGateway gatewayMacAddr t2 = (r, t')"
      by (simp add: createNATRulesForReservedPorts_def invoke_def)
    from routes_and_neigh_plan [OF this br] obtain evs3 where evs3: "t' = t2 @ evs3"
      "follows r evs3 ?routes"
      by blast
    from evs2(2) True have "evs2 = ?dnat"
      by (simp add: follows_def)
    with follows_append [OF evs3(2), of "[?ev] @ ?dnat"] evs2(1) evs3(1) plan show ?thesis
      by (intro exI [of _ "([?ev] @ evs2) @ evs3"]) simp
  next
    case False
    with run None d have "r = r2" "t' = t2"
      by (auto simp: createNATRulesForReservedPorts_def invoke_def split: outcome.splits)
    moreover from follows_stopped [OF evs2(2) False, of ?routes]
    have "follows r2 ([?ev] @ evs2) ([?ev] @ ?dnat @ ?routes)"
      by (rule follows_append)
    ultimately show ?thesis
      using evs2(1) plan by (intro exI [of _ "[?ev] @ evs2"]) simp
  qed
qed

lemma configureNeighbourReply_plan:
  assumes "configureNeighbourReply h b t = (r, t')"
  shows "\<exists>evs. t' = t @ evs \<and> follows r evs (tagged StepNeighbourReply (neigh_plan b))"
  using assms
  by (auto simp: configureNeighbourReply_def invoke_def follows_def tagged_def neigh_plan_def
      split: option.splits if_splits)

lemma nat_step_plan:
  assumes "(if en then createNATRulesForReservedPorts h b proto ports localAddr podIP defaultDst
                 defaultGateway gatewayMacAddr t
            else (Success, t)) = (r, t')"
    and "bridgeLink b = Some bridge"
  shows "\<exists>evs. t' = t @ evs
           \<and> follows r evs (tagged (StepNAT proto)
                (if en then nat_plan h b bridge proto ports localAddr podIP defaultDst
                              defaultGateway gatewayMacAddr (history t)
                 else []))"
proof (cases en)
  case True
  with assms createNATRulesForReservedPorts_plan show ?thesis
    by simp
next
  case False
  with assms show ?thesis
    by (simp add: follows_def tagged_def)
qed

lemma nat_plan_links:
  "nat_plan h (b\<lparr>tapNicLink := x, bridgeLink := y\<rparr>) = nat_plan h b"
  by (simp add: fun_eq_iff nat_plan_def dnat_plan_def routes_plan_def gateway_route_def
      gateway_neigh_def)

lemma neigh_plan_links:
  "neigh_plan (b\<lparr>tapNicLink := x, bridgeLink := y\<rparr>) = neigh_plan b"
  by (simp add: neigh_plan_def proxy_neigh_def)

lemma bridge_plan_tap:
  "bridge_plan h (b\<lparr>tapNicLink := x\<rparr>) = bridge_plan h b"
  "bridge_link h (b\<lparr>tapNicLink := x\<rparr>) = bridge_link h b"
  by (simp_all add: fun_eq_iff bridge_plan_def bridge_link_def bridge_setup_def)

lemma Prepare_follows_plan:
  assumes run: "PreparePodNetworkInterface h deps b t = (r, b', t')"
  shows "\<exists>evs. t' = t @ evs \<and> follows r evs (prepare_plan h deps b (history t))"
proof -
  let ?h1 = "history t @ pod_nic_plan b"
  let ?P1 = "tagged StepPodNic (pod_nic_plan b)"
  let ?P2 = "tagged StepTap (tap_plan h deps b ?h1)"
  let ?R2 = "case tap_link h deps b ?h1 of
               Inl e \<Rightarrow> []
             | Inr tap \<Rightarrow> plan_after_tap h deps b tap (?h1 @ tap_plan h deps b ?h1)"
  have plan: "prepare_plan h deps b (history t) = ?P1 @ ?P2 @ ?R2"
    by (simp add: prepare_plan_def split: sum.splits)
  obtain r1 t1 where s1: "configurePodNic h b t = (r1, t1)"
    by (cases "configurePodNic h b t")
  from configurePodNic_plan [OF s1] obtain e1 where e1: "t1 = t @ e1" "follows r1 e1 ?P1"
    by blast
  show ?thesis
  proof (cases "r1 = Success")
    case False
    with run s1 have "r = r1" "t' = t1"
      by (auto simp: PreparePodNetworkInterface_def split: outcome.splits)
    moreover from follows_stopped [OF e1(2) False] have "follows r1 e1 (?P1 @ ?P2 @ ?R2)" .
    ultimately show ?thesis
      using e1(1) plan by (intro exI [of _ e1]) simp
  next
    case r1: True
    with e1(2) have q1: "e1 = ?P1"
      by (simp add: follows_def)
    with e1(1) have h1: "history t1 = ?h1"
      by simp
    obtain r2 b2 t2 where s2: "createTapDevice h deps b t1 = (r2, b2, t2)"
      by (cases "createTapDevice h deps b t1")
    from createTapDevice_plan [OF s2] h1 obtain e2 where e2: "t2 = t1 @ e2"
      "follows r2 e2 ?P2"
      "r2 = Success \<longrightarrow> (\<exists>tap. tap_link h deps b ?h1 = Inr tap \<and> b2 = b\<lparr>tapNicLink := Some tap\<rparr>)"
      by auto
    show ?thesis
    proof (cases "r2 = Success")
      case False
      with run s1 r1 s2 have "r = r2" "t' = t2"
        by (auto simp: PreparePodNetworkInterface_def split: outcome.splits)
      moreover from follows_stopped [OF e2(2) False] have "follows r2 e2 (?P2 @ ?R2)" .
      then have "follows r2 (?P1 @ e2) (?P1 @ ?P2 @ ?R2)"
        by (rule follows_append)
      ultimately show ?thesis
        using e1(1) q1 e2(1) plan by (intro exI [of _ "?P1 @ e2"]) simp
    next
      case r2: True
      with e2(2) have q2: "e2 = ?P2"
        by (simp add: follows_def)
      from r2 e2(3) obtain tap where tap: "tap_link h deps b ?h1 = Inr tap"
        and b2: "b2 = b\<lparr>tapNicLink := Some tap\<rparr>"
        by blast
      let ?h2 = "?h1 @ tap_plan h deps b ?h1"
      let ?P3 = "tagged StepBridge (bridge_plan h b tap ?h2)"
      let ?R3 = "case bridge_link h b tap ?h2 of
                   Inl e \<Rightarrow> []
                 | Inr bridge \<Rightarrow> plan_after_bridge h deps b bridge (?h2 @ bridge_plan h b tap ?h2)"
      have R2: "?R2 = ?P3 @ ?R3"
        using tap by (simp add: plan_after_tap_def split: sum.splits)
      have h2: "history t2 = ?h2"
        using e1(1) q1 e2(1) q2 by simp
      obtain r3 b3 t3 where s3: "createBridge h b2 t2 = (r3, b3, t3)"
        by (cases "createBridge h b2 t2")
      have "tapNicLink b2 = Some tap"
        using b2 by simp
      from createBridge_plan [OF s3 this] h2 obtain e3 where e3: "t3 = t2 @ e3"
        "follows r3 e3 (tagged StepBridge (bridge_plan h b2 tap ?h2))"
        "r3 = Success \<longrightarrow> (\<exists>bridge. bridge_link h b2 tap ?h2 = Inr bridge
                              \<and> b3 = b2\<lparr>bridgeLink := Some bridge\<rparr>)"
        by auto
      from e3(2) have f3: "follows r3 e3 ?P3"
        by (simp add: b2 bridge_plan_tap)
      show ?thesis
      proof (cases "r3 = Success")
        case False
        with run s1 r1 s2 r2 s3 have "r = r3" "t' = t3"
          by (auto simp: PreparePodNetworkInterface_def split: outcome.splits)
        moreover from follows_stopped [OF f3 False] have "follows r3 e3 (?P3 @ ?R3)" .
        then have "follows r3 (?P2 @ e3) (?P2 @ ?P3 @ ?R3)"
          by (rule follows_append)
        then have "follows r3 (?P1 @ ?P2 @ e3) (?P1 @ ?P2 @ ?P3 @ ?R3)"
          by (rule follows_append)
        ultimately show ?thesis
          using e1(1) q1 e2(1) q2 e3(1) plan R2 by (intro exI [of _ "?P1 @ ?P2 @ e3"]) simp
      next
        case r3: True
        with f3 have q3: "e3 = ?P3"
          by (simp add: follows_def)
        from r3 e3(3) obtain bridge where bridge: "bridge_link h b tap ?h2 = Inr bridge"
          and b3: "b3 = b\<lparr>tapNicLink := Some tap, bridgeLink := Some bridge\<rparr>"
          by (auto simp: b2 bridge_plan_tap)
        let ?h3 = "?h2 @ bridge_plan h b tap ?h2"
        let ?ports = "reservedPortsInPod (decode_ports deps) (vmi b)"
        let ?v4 = "if ipv4Enabled b
            then nat_plan h b bridge ProtocolIPv4 ?ports localIPv4Addr
                   \<lparr>IPNet_IP = Addr_IP (podIPv4Addr b), IPNet_Mask = CIDRMask 4\<rparr>
                   (DefaultIPv4Dst deps) (defaultIPv4Gateway b) gatewayMacAddress ?h3
            else []"
        let ?v6 = "if ipv6Enabled b
            then nat_plan h b bridge ProtocolIPv6 ?ports localIPv6Addr
                   \<lparr>IPNet_IP = Addr_IP (podIPv6Addr b), IPNet_Mask = CIDRMask 16\<rparr>
                   (DefaultIPv6Dst deps) (defaultIPv6Gateway b) gatewayMacAddress (?h3 @ ?v4)
            else []"
        let ?P4 = "tagged (StepNAT ProtocolIPv4) ?v4"
        let ?P5 = "tagged (StepNAT ProtocolIPv6) ?v6"
        let ?P6 = "tagged StepNeighbourReply (neigh_plan b)"
        have R3: "?R3 = ?P4 @ ?P5 @ ?P6"
          using bridge by (simp add: plan_after_bridge_def Let_def split: sum.splits)
        have h3: "history t3 = ?h3"
          using e1(1) q1 e2(1) q2 e3(1) q3 by simp
        have br: "bridgeLink b3 = Some bridge"
          using b3 by simp
        have t3: "t3 = t @ ?P1 @ ?P2 @ ?P3"
          using e1(1) q1 e2(1) q2 e3(1) q3 by simp
        let ?nat4 = "if ipv4Enabled b
            then createNATRulesForReservedPorts h b3 ProtocolIPv4 ?ports localIPv4Addr
                   \<lparr>IPNet_IP = Addr_IP (podIPv4Addr b), IPNet_Mask = CIDRMask 4\<rparr>
                   (DefaultIPv4Dst deps) (defaultIPv4Gateway b) gatewayMacAddress t3
            else (Success, t3)"
        have flds: "ipv4Enabled b3 = ipv4Enabled b" "ipv6Enabled b3 = ipv6Enabled b"
          "vmi b3 = vmi b" "podIPv4Addr b3 = podIPv4Addr b" "podIPv6Addr b3 = podIPv6Addr b"
          "defaultIPv4Gateway b3 = defaultIPv4Gateway b"
          "defaultIPv6Gateway b3 = defaultIPv6Gateway b"
          by (simp_all add: b3)
        let ?ports3 = "reservedPortsInPod (decode_ports deps) (vmi b3)"
        let ?run4 = "if ipv4Enabled b3
            then createNATRulesForReservedPorts h b3 ProtocolIPv4 ?ports3 localIPv4Addr
                   \<lparr>IPNet_IP = Addr_IP (podIPv4Addr b3), IPNet_Mask = CIDRMask 4\<rparr>
                   (DefaultIPv4Dst deps) (defaultIPv4Gateway b3) gatewayMacAddress t3
            else (Success, t3)"
        obtain r4 t4 where c4: "?run4 = (r4, t4)"
          by (cases ?run4)
        from c4 have s4: "?nat4 = (r4, t4)"
          unfolding flds .
        have npl: "nat_plan h b3 = nat_plan h b" "neigh_plan b3 = neigh_plan b"
          by (simp_all add: b3 nat_plan_links neigh_plan_links)
        from nat_step_plan [OF s4 br] obtain e4 where e4: "t4 = t3 @ e4"
          "follows r4 e4 (tagged (StepNAT ProtocolIPv4)
             (if ipv4Enabled b
              then nat_plan h b3 bridge ProtocolIPv4 ?ports localIPv4Addr
                     \<lparr>IPNet_IP = Addr_IP (podIPv4Addr b), IPNet_Mask = CIDRMask 4\<rparr>
                     (DefaultIPv4Dst deps) (defaultIPv4Gateway b) gatewayMacAddress (history t3)
              else []))"
          by blast
        from e4(2) have f4: "follows r4 e4 ?P4"
          unfolding h3 npl .
        show ?thesis
        proof (cases "r4 = Success")
          case False
          with run s1 r1 s2 r2 s3 r3 c4 have "r = r4" "t' = t4"
            by (auto simp: PreparePodNetworkInterface_def Let_def split: outcome.splits)
          moreover from follows_stopped [OF f4 False] have "follows r4 e4 (?P4 @ ?P5 @ ?P6)" .
          then have "follows r4 ((?P1 @ ?P2 @ ?P3) @ e4) ((?P1 @ ?P2 @ ?P3) @ ?P4 @ ?P5 @ ?P6)"
            by (rule follows_append)
          ultimately show ?thesis
            using t3 e4(1) plan R2 R3 by (intro exI [of _ "(?P1 @ ?P2 @ ?P3) @ e4"]) simp
        next
          case r4: True
          with f4 have q4: "e4 = ?P4"
            by (simp add: follows_def)
          have h4: "history t4 = ?h3 @ ?v4"
            using t3 e4(1) q4 by simp
          have t4: "t4 = t @ ?P1 @ ?P2 @ ?P3 @ ?P4"
            using t3 e4(1) q4 by simp
          let ?nat6 = "if ipv6Enabled b
              then createNATRulesForReservedPorts h b3 ProtocolIPv6 ?ports localIPv6Addr
                     \<lparr>IPNet_IP = Addr_IP (podIPv6Addr b), IPNet_Mask = CIDRMask 16\<rparr>
                     (DefaultIPv6Dst deps) (defaultIPv6Gateway b) gatewayMacAddress t4
              else (Success, t4)"
          let ?run6 = "if ipv6Enabled b3
              then createNATRulesForReservedPorts h b3 ProtocolIPv6 ?ports3 localIPv6Addr
                     \<lparr>IPNet_IP = Addr_IP (podIPv6Addr b3), IPNet_Mask = CIDRMask 16\<rparr>
                     (DefaultIPv6Dst deps) (defaultIPv6Gateway b3) gatewayMacAddress t4
              else (Success, t4)"
          obtain r5 t5 where c5: "?run6 = (r5, t5)"
            by (cases ?run6)
          from c5 have s5: "?nat6 = (r5, t5)"
            unfolding flds .
          from nat_step_plan [OF s5 br] obtain e5 where e5: "t5 = t4 @ e5"
            "follows r5 e5 (tagged (StepNAT ProtocolIPv6)
               (if ipv6Enabled b
                then nat_plan h b3 bridge ProtocolIPv6 ?ports localIPv6Addr
                       \<lparr>IPNet_IP = Addr_IP (podIPv6Addr b), IPNet_Mask = CIDRMask 16\<rparr>
                       (DefaultIPv6Dst deps) (defaultIPv6Gateway b) gatewayMacAddress (history t4)
                else []))"
            by blast
          from e5(2) have f5: "follows r5 e5 ?P5"
            unfolding h4 npl .
          show ?thesis
          proof (cases "r5 = Success")
            case False
            with run s1 r1 s2 r2 s3 r3 c4 r4 c5 have "r = r5" "t' = t5"
              by (auto simp: PreparePodNetworkInterface_def Let_def split: outcome.splits)
            moreover from follows_stopped [OF f5 False] have "follows r5 e5 (?P5 @ ?P6)" .
            then have "follows r5 ((?P1 @ ?P2 @ ?P3 @ ?P4) @ e5) ((?P1 @ ?P2 @ ?P3 @ ?P4) @ ?P5 @ ?P6)"
              by (rule follows_append)
            ultimately show ?thesis
              using t4 e5(1) plan R2 R3 by (intro exI [of _ "(?P1 @ ?P2 @ ?P3 @ ?P4) @ e5"]) simp
          next
            case r5: True
            with f5 have q5: "e5 = ?P5"
              by (simp add: follows_def)
            have t5: "t5 = t @ ?P1 @ ?P2 @ ?P3 @ ?P4 @ ?P5"
              using t4 e5(1) q5 by simp
            obtain r6 t6 where s6: "configureNeighbourReply h b3 t5 = (r6, t6)"
              by (cases "configureNeighbourReply h b3 t5")
            from configureNeighbourReply_plan [OF s6] obtain e6 where e6: "t6 = t5 @ e6"
              "follows r6 e6 (tagged StepNeighbourReply (neigh_plan b3))"
              by blast
            from e6(2) have f6: "follows r6 e6 ?P6"
              unfolding npl .
            from run s1 r1 s2 r2 s3 r3 c4 r4 c5 r5 s6 have "r = r6" "t' = t6"
              by (auto simp: PreparePodNetworkInterface_def Let_def split: outcome.splits)
            moreover from f6
            have "follows r6 ((?P1 @ ?P2 @ ?P3 @ ?P4 @ ?P5) @ e6) ((?P1 @ ?P2 @ ?P3 @ ?P4 @ ?P5) @ ?P6)"
              by (rule follows_append)
            ultimately show ?thesis
              using t5 e6(1) plan R2 R3
              by (intro exI [of _ "(?P1 @ ?P2 @ ?P3 @ ?P4 @ ?P5) @ e6"]) simp
          qed
        qed
      qed
    qed
  qed
qed

text \<open>
  Claim C1. In every run of \<open>PreparePodNetworkInterface\<close>, from any discovered
  configurator and against any handler, the handler calls are an initial part of
  \<open>prepare_plan\<close>, and all of it when Prepare returns success. So the calls are, in this
  order and with these arguments: for the pod NIC link down, delete the addresses of the
  enabled families, random MAC, link up; then create the tap device, look it up and link
  it up; then add the bridge, attach the tap to it, bring it up, give it the local address
  of each enabled family and look it up; then for IPv4 and then for IPv6, each only if the
  family is enabled, IP forwarding, the DNAT rules of the reserved ports, the gateway
  route, the gateway neighbour and the route of the pod address to the bridge; then the
  proxy settings and proxy neighbour entries of the neighbour reply. A call
  whose failure makes its step fail (every call but the tolerated \<open>AddrDel\<close>,
  \<open>ParseAddr\<close> and \<open>NftablesLoad\<close>) is the last call of the run when it fails, and its
  error is what Prepare returns: no call of a later step and no undoing call follows. An
  error that Prepare returns is the error of the last call made. A run that returns
  success has gone through every step of the enabled families, and no run panics.
\<close>

theorem PreparePodNetworkInterface_ordered_abort:
  assumes run: "PreparePodNetworkInterface h deps b t = (r, b', t')"
  shows "\<exists>evs. t' = t @ evs
         \<and> prefix evs (prepare_plan h deps b (history t))
         \<and> (r = Success \<longrightarrow> evs = prepare_plan h deps b (history t))
         \<and> sorted (map (step_rank \<circ> fst) evs)
         \<and> (\<forall>ev \<in> set evs. fst ev \<in> {StepPodNic, StepTap, StepBridge, StepNAT ProtocolIPv4,
                                        StepNAT ProtocolIPv6, StepNeighbourReply})
         \<and> prefix (map snd (filter (\<lambda>ev. fst ev = StepPodNic) evs)) (pod_nic_plan b)
         \<and> (\<forall>ev \<in> set evs. fst ev = StepNAT ProtocolIPv4 \<longrightarrow> ipv4Enabled b)
         \<and> (\<forall>ev \<in> set evs. fst ev = StepNAT ProtocolIPv6 \<longrightarrow> ipv6Enabled b)
         \<and> (\<forall>i e. i < length evs \<and> \<not> tolerated (snd (evs ! i))
                \<and> call_error h (history t @ map snd (take i evs)) (snd (evs ! i)) = Some e
              \<longrightarrow> Suc i = length evs \<and> r = Failure e)
         \<and> (\<forall>e. r = Failure e \<longrightarrow>
                evs \<noteq> [] \<and> \<not> tolerated (snd (last evs))
              \<and> call_error h (history t @ map snd (butlast evs)) (snd (last evs)) = Some e)
         \<and> r \<noteq> Panic
         \<and> (r = Success \<longrightarrow>
                (\<exists>ev \<in> set evs. fst ev = StepPodNic)
              \<and> (\<exists>ev \<in> set evs. fst ev = StepTap)
              \<and> (\<exists>ev \<in> set evs. fst ev = StepBridge)
              \<and> (ipv4Enabled b \<longrightarrow> (\<exists>ev \<in> set evs. fst ev = StepNAT ProtocolIPv4)
                                   \<and> (\<exists>ev \<in> set evs. fst ev = StepNeighbourReply))
              \<and> (ipv6Enabled b \<longrightarrow> (\<exists>ev \<in> set evs. fst ev = StepNAT ProtocolIPv6)
                                   \<and> (\<exists>ev \<in> set evs. fst ev = StepNeighbourReply)))"
proof -
  from Prepare_segments [OF run] obtain e1 e2 e3 e4 e5 e6 where
    t': "t' = t @ e1 @ e2 @ e3 @ e4 @ e5 @ e6"
    and s1: "\<forall>ev \<in> set e1. fst ev = StepPodNic"
    and s2: "\<forall>ev \<in> set e2. fst ev = StepTap"
    and s3: "\<forall>ev \<in> set e3. fst ev = StepBridge"
    and s4: "\<forall>ev \<in> set e4. fst ev = StepNAT ProtocolIPv4"
    and s5: "\<forall>ev \<in> set e5. fst ev = StepNAT ProtocolIPv6"
    and s6: "\<forall>ev \<in> set e6. fst ev = StepNeighbourReply"
    and n1: "e1 \<noteq> []" and plan: "prefix (map snd e1) (pod_nic_plan b)"
    and g4: "\<not> ipv4Enabled b \<longrightarrow> e4 = []" and g5: "\<not> ipv6Enabled b \<longrightarrow> e5 = []"
    and f: "faithful h (history t) r (e1 @ e2 @ e3 @ e4 @ e5 @ e6)"
    and ok: "r = Success \<longrightarrow> e2 \<noteq> [] \<and> e3 \<noteq> []
               \<and> (ipv4Enabled b \<longrightarrow> e4 \<noteq> [] \<and> e6 \<noteq> [])
               \<and> (ipv6Enabled b \<longrightarrow> e5 \<noteq> [] \<and> e6 \<noteq> [])"
    by blast
  let ?evs = "e1 @ e2 @ e3 @ e4 @ e5 @ e6"
  from Prepare_follows_plan [OF run] t'
  have "follows r ?evs (prepare_plan h deps b (history t))"
    by auto
  then have planned: "prefix ?evs (prepare_plan h deps b (history t))"
    and whole: "r = Success \<longrightarrow> ?evs = prepare_plan h deps b (history t)"
    by (simp_all add: follows_def)
  have "sorted (map (step_rank \<circ> fst) e1)" "sorted (map (step_rank \<circ> fst) e2)"
    "sorted (map (step_rank \<circ> fst) e3)" "sorted (map (step_rank \<circ> fst) e4)"
    "sorted (map (step_rank \<circ> fst) e5)" "sorted (map (step_rank \<circ> fst) e6)"
    using s1 s2 s3 s4 s5 s6 by (blast intro: same_step_sorted)+
  then have sorted: "sorted (map (step_rank \<circ> fst) ?evs)"
    using s1 s2 s3 s4 s5 s6
    by (auto simp: sorted_append)
  have tags: "\<forall>ev \<in> set ?evs. fst ev \<in> {StepPodNic, StepTap, StepBridge, StepNAT ProtocolIPv4,
      StepNAT ProtocolIPv6, StepNeighbourReply}"
    using s1 s2 s3 s4 s5 s6 by auto
  have "filter (\<lambda>ev. fst ev = StepPodNic) ?evs = e1"
    using s1 s2 s3 s4 s5 s6 by (auto simp: filter_empty_conv)
  with plan have podnic: "prefix (map snd (filter (\<lambda>ev. fst ev = StepPodNic) ?evs)) (pod_nic_plan b)"
    by simp
  have nat4: "\<forall>ev \<in> set ?evs. fst ev = StepNAT ProtocolIPv4 \<longrightarrow> ipv4Enabled b"
    using s1 s2 s3 s4 s5 s6 g4 by auto
  have nat6: "\<forall>ev \<in> set ?evs. fst ev = StepNAT ProtocolIPv6 \<longrightarrow> ipv6Enabled b"
    using s1 s2 s3 s4 s5 s6 g5 by auto
  have failing: "\<forall>i e. i < length ?evs \<and> \<not> tolerated (snd (?evs ! i))
        \<and> call_error h (history t @ map snd (take i ?evs)) (snd (?evs ! i)) = Some e
      \<longrightarrow> Suc i = length ?evs \<and> r = Failure e"
    using faithful_failing_call [OF f] by blast
  have returned: "\<forall>e. r = Failure e \<longrightarrow>
        ?evs \<noteq> [] \<and> \<not> tolerated (snd (last ?evs))
      \<and> call_error h (history t @ map snd (butlast ?evs)) (snd (last ?evs)) = Some e"
  proof (intro allI impI)
    fix e assume "r = Failure e"
    with f have a: "aborted h (history t) ?evs e"
      by (simp add: faithful_def)
    from aborted_nonempty [OF a] aborted_last [OF a]
    show "?evs \<noteq> [] \<and> \<not> tolerated (snd (last ?evs))
      \<and> call_error h (history t @ map snd (butlast ?evs)) (snd (last ?evs)) = Some e"
      by blast
  qed
  have nopanic: "r \<noteq> Panic"
    using faithful_not_Panic [OF f] .
  have complete: "r = Success \<longrightarrow>
        (\<exists>ev \<in> set ?evs. fst ev = StepPodNic)
      \<and> (\<exists>ev \<in> set ?evs. fst ev = StepTap)
      \<and> (\<exists>ev \<in> set ?evs. fst ev = StepBridge)
      \<and> (ipv4Enabled b \<longrightarrow> (\<exists>ev \<in> set ?evs. fst ev = StepNAT ProtocolIPv4)
                           \<and> (\<exists>ev \<in> set ?evs. fst ev = StepNeighbourReply))
      \<and> (ipv6Enabled b \<longrightarrow> (\<exists>ev \<in> set ?evs. fst ev = StepNAT ProtocolIPv6)
                           \<and> (\<exists>ev \<in> set ?evs. fst ev = StepNeighbourReply))"
  proof
    assume "r = Success"
    with ok have ne: "e2 \<noteq> []" "e3 \<noteq> []" "ipv4Enabled b \<longrightarrow> e4 \<noteq> [] \<and> e6 \<noteq> []"
      "ipv6Enabled b \<longrightarrow> e5 \<noteq> [] \<and> e6 \<noteq> []"
      by simp_all
    have some: "\<exists>ev \<in> set e. fst ev = s"
      if "e \<noteq> []" "\<forall>ev \<in> set e. fst ev = s" for e :: "(step \<times> call) list" and s
      using that by (cases e) auto
    have p1: "\<exists>ev \<in> set ?evs. fst ev = StepPodNic"
      using some [OF n1 s1] by auto
    have p2: "\<exists>ev \<in> set ?evs. fst ev = StepTap"
      using some [OF ne(1) s2] by auto
    have p3: "\<exists>ev \<in> set ?evs. fst ev = StepBridge"
      using some [OF ne(2) s3] by auto
    have p4: "\<exists>ev \<in> set ?evs. fst ev = StepNAT ProtocolIPv4" if "e4 \<noteq> []"
      using some [OF that s4] by auto
    have p5: "\<exists>ev \<in> set ?evs. fst ev = StepNAT ProtocolIPv6" if "e5 \<noteq> []"
      using some [OF that s5] by auto
    have p6: "\<exists>ev \<in> set ?evs. fst ev = StepNeighbourReply" if "e6 \<noteq> []"
      using some [OF that s6] by auto
    from p1 p2 p3 p4 p5 p6 ne(3,4)
    show "(\<exists>ev \<in> set ?evs. fst ev = StepPodNic)
      \<and> (\<exists>ev \<in> set ?evs. fst ev = StepTap)
      \<and> (\<exists>ev \<in> set ?evs. fst ev = StepBridge)
      \<and> (ipv4Enabled b \<longrightarrow> (\<exists>ev \<in> set ?evs. fst ev = StepNAT ProtocolIPv4)
                           \<and> (\<exists>ev \<in> set ?evs. fst ev = StepNeighbourReply))
      \<and> (ipv6Enabled b \<longrightarrow> (\<exists>ev \<in> set ?evs. fst ev = StepNAT ProtocolIPv6)
                           \<and> (\<exists>ev \<in> set ?evs. fst ev = StepNeighbourReply))"
      by blast
  qed
  show ?thesis
    by (rule exI [of _ ?evs])
      (intro conjI t' planned whole sorted tags podnic nat4 nat6 failing returned nopanic complete)
qed
theorem PreparePodNetworkInterface_ordered_abort_witness:
  "(\<exists>b' t'. PreparePodNetworkInterface sample_handler sample_deps discovered [] = (Success, b', t')
        \<and> t' = prepare_plan sample_handler sample_deps discovered []
        \<and> map snd t'
            = [CLinkSetDown eth0,
               CAddrDel eth0 \<lparr>Addr_IP = [10, 244, 0, 7], Addr_Mask = [255, 255, 255]\<rparr>,
               CAddrDel eth0 \<lparr>Addr_IP = [253, 0, 0, 0, 0, 0, 0, 0, 0, 0, 0, 0, 0, 0, 0, 7],
                               Addr_Mask = [255, 255, 255, 255, 255, 255, 255, 255]\<rparr>,
               CSetRandomMac ''eth0'',
               CLinkSetUp eth0,
               CCreateTapDevice ''tap0'' 0 42 1500 ''0'',
               CLinkByName ''tap0'',
               CLinkSetUp (zero_Link\<lparr>Link_Name := ''tap0'', Link_Index := 10\<rparr>),
               CLinkAdd (new_bridge ''k6t-eth0''),
               CLinkSetMaster (zero_Link\<lparr>Link_Name := ''tap0'', Link_Index := 10\<rparr>)
                 (new_bridge ''k6t-eth0''),
               CLinkSetUp (new_bridge ''k6t-eth0''),
               CParseAddr ''169.254.75.1/32'',
               CAddrAdd (new_bridge ''k6t-eth0'')
                 (Some \<lparr>Addr_IP = [169, 254, 75, 1], Addr_Mask = [255, 255, 255, 255]\<rparr>),
               CParseAddr ''fc00:eeee:eeee:eeee:eeee:eeee:eeee:eeee/128'',
               CAddrAdd (new_bridge ''k6t-eth0'')
                 (Some \<lparr>Addr_IP = [252, 0, 238, 238, 238, 238, 238, 238, 238, 238, 238, 238,
                                    238, 238, 238, 238],
                         Addr_Mask = [255, 255, 255, 255, 255, 255, 255, 255, 255, 255, 255, 255,
                                      255, 255, 255, 255]\<rparr>),
               CLinkByName ''k6t-eth0'',
               CConfigureIpForwarding ProtocolIPv4,
               CNftablesLoad ProtocolIPv4,
               CNftablesAppendRule ProtocolIPv4 ''nat'' ''prerouting''
                 [Lit ''iifname'', Lit ''eth0'', Lit ''tcp'', Lit ''dport'', Dec 5900,
                  Lit ''dnat'', IPString [169, 254, 75, 1]],
               CNftablesAppendRule ProtocolIPv4 ''nat'' ''prerouting''
                 [Lit ''iifname'', Lit ''eth0'', Lit ''tcp'', Lit ''dport'', Dec 5901,
                  Lit ''dnat'', IPString [169, 254, 75, 1]],
               CRouteAdd \<lparr>Route_LinkIndex = 3, Route_Scope = 0, Route_Flags = 4,
                          Route_Dst = Some \<lparr>IPNet_IP = [0, 0, 0, 0], IPNet_Mask = [0, 0, 0, 0]\<rparr>,
                          Route_Gw = [10, 244, 0, 1]\<rparr>,
               CNeighAdd \<lparr>Neigh_LinkIndex = 3, Neigh_Family = 2, Neigh_State = 128,
                          Neigh_Flags = 0, Neigh_IP = [10, 244, 0, 1],
                          Neigh_HardwareAddr = [238, 238, 238, 238, 238, 238]\<rparr>,
               CRouteAdd \<lparr>Route_LinkIndex = 19, Route_Scope = 254, Route_Flags = 0,
                          Route_Dst = Some \<lparr>IPNet_IP = [10, 244, 0, 7],
                                             IPNet_Mask = [255, 255, 255, 255]\<rparr>,
                          Route_Gw = []\<rparr>,
               CConfigureIpForwarding ProtocolIPv6,
               CNftablesLoad ProtocolIPv6,
               CNftablesAppendRule ProtocolIPv6 ''nat'' ''prerouting''
                 [Lit ''iifname'', Lit ''eth0'', Lit ''tcp'', Lit ''dport'', Dec 5900,
                  Lit ''dnat'',
                  IPString [252, 0, 238, 238, 238, 238, 238, 238, 238, 238, 238, 238,
                            238, 238, 238, 238]],
               CNftablesAppendRule ProtocolIPv6 ''nat'' ''prerouting''
                 [Lit ''iifname'', Lit ''eth0'', Lit ''tcp'', Lit ''dport'', Dec 5901,
                  Lit ''dnat'',
                  IPString [252, 0, 238, 238, 238, 238, 238, 238, 238, 238, 238, 238,
                            238, 238, 238, 238]],
               CRouteAdd \<lparr>Route_LinkIndex = 3, Route_Scope = 0, Route_Flags = 4,
                          Route_Dst = Some \<lparr>IPNet_IP = [0, 0, 0, 0, 0, 0, 0, 0, 0, 0, 0, 0, 0, 0, 0, 0],
                                             IPNet_Mask = [0, 0, 0, 0, 0, 0, 0, 0, 0, 0, 0, 0, 0, 0, 0, 0]\<rparr>,
                          Route_Gw = [254, 128, 0, 0, 0, 0, 0, 0, 0, 0, 0, 0, 0, 0, 0, 1]\<rparr>,
               CNeighAdd \<lparr>Neigh_LinkIndex = 3, Neigh_Family = 10, Neigh_State = 128,
                          Neigh_Flags = 0,
                          Neigh_IP = [254, 128, 0, 0, 0, 0, 0, 0, 0, 0, 0, 0, 0, 0, 0, 1],
                          Neigh_HardwareAddr = [238, 238, 238, 238, 238, 238]\<rparr>,
               CRouteAdd \<lparr>Route_LinkIndex = 19, Route_Scope = 254, Route_Flags = 0,
                          Route_Dst = Some \<lparr>IPNet_IP = [253, 0, 0, 0, 0, 0, 0, 0, 0, 0, 0, 0, 0, 0, 0, 7],
                                             IPNet_Mask = [255, 255, 255, 255, 255, 255, 255, 255,
                                                           255, 255, 255, 255, 255, 255, 255, 255]\<rparr>,
                          Route_Gw = []\<rparr>,
               CEnableIpv4ArpProxyOnIface ''eth0'',
               CNeighAdd \<lparr>Neigh_LinkIndex = 3, Neigh_Family = 2, Neigh_State = 0, Neigh_Flags = 8,
                          Neigh_IP = [10, 244, 0, 7], Neigh_HardwareAddr = []\<rparr>,
               CEnableIpv6NdpProxyForAll,
               CEnableIpv6NdpProxyOnIface ''eth0'',
               CNeighAdd \<lparr>Neigh_LinkIndex = 3, Neigh_Family = 10, Neigh_State = 0, Neigh_Flags = 8,
                          Neigh_IP = [253, 0, 0, 0, 0, 0, 0, 0, 0, 0, 0, 0, 0, 0, 0, 7],
                          Neigh_HardwareAddr = []\<rparr>]
        \<and> sorted (map (step_rank \<circ> fst) t')
        \<and> (\<exists>ev \<in> set t'. fst ev = StepNeighbourReply)
        \<and> map (step_rank \<circ> fst) t'
            = [2, 2, 2, 2, 2, 3, 3, 3, 4, 4, 4, 4, 4, 4, 4, 4, 5, 5, 5, 5, 5, 5, 5,
               6, 6, 6, 6, 6, 6, 6, 7, 7, 7, 7, 7])
   \<and> (\<exists>b' t'. PreparePodNetworkInterface tap_failing_handler sample_deps discovered []
               = (Failure ''tap: device or resource busy'', b', t')
        \<and> prefix t' (prepare_plan tap_failing_handler sample_deps discovered [])
        \<and> map snd t'
            = [CLinkSetDown eth0,
               CAddrDel eth0 \<lparr>Addr_IP = [10, 244, 0, 7], Addr_Mask = [255, 255, 255]\<rparr>,
               CAddrDel eth0 \<lparr>Addr_IP = [253, 0, 0, 0, 0, 0, 0, 0, 0, 0, 0, 0, 0, 0, 0, 7],
                               Addr_Mask = [255, 255, 255, 255, 255, 255, 255, 255]\<rparr>,
               CSetRandomMac ''eth0'',
               CLinkSetUp eth0,
               CCreateTapDevice ''tap0'' 0 42 1500 ''0'']
        \<and> t' \<noteq> []
        \<and> \<not> tolerated (snd (last t'))
        \<and> call_error tap_failing_handler (history [] @ map snd (butlast t')) (snd (last t'))
            = Some ''tap: device or resource busy''
        \<and> map fst t' = [StepPodNic, StepPodNic, StepPodNic, StepPodNic, StepPodNic, StepTap])"
proof -
  let ?sample = "[CLinkSetDown eth0,
                  CAddrDel eth0 \<lparr>Addr_IP = [10, 244, 0, 7], Addr_Mask = [255, 255, 255]\<rparr>,
                  CAddrDel eth0 \<lparr>Addr_IP = [253, 0, 0, 0, 0, 0, 0, 0, 0, 0, 0, 0, 0, 0, 0, 7],
                                  Addr_Mask = [255, 255, 255, 255, 255, 255, 255, 255]\<rparr>,
                  CSetRandomMac ''eth0'',
                  CLinkSetUp eth0,
                  CCreateTapDevice ''tap0'' 0 42 1500 ''0'',
                  CLinkByName ''tap0'',
                  CLinkSetUp (zero_Link\<lparr>Link_Name := ''tap0'', Link_Index := 10\<rparr>),
                  CLinkAdd (new_bridge ''k6t-eth0''),
                  CLinkSetMaster (zero_Link\<lparr>Link_Name := ''tap0'', Link_Index := 10\<rparr>)
                    (new_bridge ''k6t-eth0''),
                  CLinkSetUp (new_bridge ''k6t-eth0''),
                  CParseAddr ''169.254.75.1/32'',
                  CAddrAdd (new_bridge ''k6t-eth0'')
                    (Some \<lparr>Addr_IP = [169, 254, 75, 1], Addr_Mask = [255, 255, 255, 255]\<rparr>),
                  CParseAddr ''fc00:eeee:eeee:eeee:eeee:eeee:eeee:eeee/128'',
                  CAddrAdd (new_bridge ''k6t-eth0'')
                    (Some \<lparr>Addr_IP = [252, 0, 238, 238, 238, 238, 238, 238, 238, 238, 238, 238,
                                       238, 238, 238, 238],
                            Addr_Mask = [255, 255, 255, 255, 255, 255, 255, 255, 255, 255, 255, 255,
                                         255, 255, 255, 255]\<rparr>),
                  CLinkByName ''k6t-eth0'',
                  CConfigureIpForwarding ProtocolIPv4,
                  CNftablesLoad ProtocolIPv4,
                  CNftablesAppendRule ProtocolIPv4 ''nat'' ''prerouting''
                    [Lit ''iifname'', Lit ''eth0'', Lit ''tcp'', Lit ''dport'', Dec 5900,
                     Lit ''dnat'', IPString [169, 254, 75, 1]],
                  CNftablesAppendRule ProtocolIPv4 ''nat'' ''prerouting''
                    [Lit ''iifname'', Lit ''eth0'', Lit ''tcp'', Lit ''dport'', Dec 5901,
                     Lit ''dnat'', IPString [169, 254, 75, 1]],
                  CRouteAdd \<lparr>Route_LinkIndex = 3, Route_Scope = 0, Route_Flags = 4,
                             Route_Dst = Some \<lparr>IPNet_IP = [0, 0, 0, 0], IPNet_Mask = [0, 0, 0, 0]\<rparr>,
                             Route_Gw = [10, 244, 0, 1]\<rparr>,
                  CNeighAdd \<lparr>Neigh_LinkIndex = 3, Neigh_Family = 2, Neigh_State = 128,
                             Neigh_Flags = 0, Neigh_IP = [10, 244, 0, 1],
                             Neigh_HardwareAddr = [238, 238, 238, 238, 238, 238]\<rparr>,
                  CRouteAdd \<lparr>Route_LinkIndex = 19, Route_Scope = 254, Route_Flags = 0,
                             Route_Dst = Some \<lparr>IPNet_IP = [10, 244, 0, 7],
                                                IPNet_Mask = [255, 255, 255, 255]\<rparr>,
                             Route_Gw = []\<rparr>,
                  CConfigureIpForwarding ProtocolIPv6,
                  CNftablesLoad ProtocolIPv6,
                  CNftablesAppendRule ProtocolIPv6 ''nat'' ''prerouting''
                    [Lit ''iifname'', Lit ''eth0'', Lit ''tcp'', Lit ''dport'', Dec 5900,
                     Lit ''dnat'',
                     IPString [252, 0, 238, 238, 238, 238, 238, 238, 238, 238, 238, 238,
                               238, 238, 238, 238]],
                  CNftablesAppendRule ProtocolIPv6 ''nat'' ''prerouting''
                    [Lit ''iifname'', Lit ''eth0'', Lit ''tcp'', Lit ''dport'', Dec 5901,
                     Lit ''dnat'',
                     IPString [252, 0, 238, 238, 238, 238, 238, 238, 238, 238, 238, 238,
                               238, 238, 238, 238]],
                  CRouteAdd \<lparr>Route_LinkIndex = 3, Route_Scope = 0, Route_Flags = 4,
                             Route_Dst = Some \<lparr>IPNet_IP = [0, 0, 0, 0, 0, 0, 0, 0, 0, 0, 0, 0, 0, 0, 0, 0],
                                                IPNet_Mask = [0, 0, 0, 0, 0, 0, 0, 0, 0, 0, 0, 0, 0, 0, 0, 0]\<rparr>,
                             Route_Gw = [254, 128, 0, 0, 0, 0, 0, 0, 0, 0, 0, 0, 0, 0, 0, 1]\<rparr>,
                  CNeighAdd \<lparr>Neigh_LinkIndex = 3, Neigh_Family = 10, Neigh_State = 128,
                             Neigh_Flags = 0,
                             Neigh_IP = [254, 128, 0, 0, 0, 0, 0, 0, 0, 0, 0, 0, 0, 0, 0, 1],
                             Neigh_HardwareAddr = [238, 238, 238, 238, 238, 238]\<rparr>,
                  CRouteAdd \<lparr>Route_LinkIndex = 19, Route_Scope = 254, Route_Flags = 0,
                             Route_Dst = Some \<lparr>IPNet_IP = [253, 0, 0, 0, 0, 0, 0, 0, 0, 0, 0, 0, 0, 0, 0, 7],
                                                IPNet_Mask = [255, 255, 255, 255, 255, 255, 255, 255,
                                                              255, 255, 255, 255, 255, 255, 255, 255]\<rparr>,
                             Route_Gw = []\<rparr>,
                  CEnableIpv4ArpProxyOnIface ''eth0'',
                  CNeighAdd \<lparr>Neigh_LinkIndex = 3, Neigh_Family = 2, Neigh_State = 0, Neigh_Flags = 8,
                             Neigh_IP = [10, 244, 0, 7], Neigh_HardwareAddr = []\<rparr>,
                  CEnableIpv6NdpProxyForAll,
                  CEnableIpv6NdpProxyOnIface ''eth0'',
                  CNeighAdd \<lparr>Neigh_LinkIndex = 3, Neigh_Family = 10, Neigh_State = 0, Neigh_Flags = 8,
                             Neigh_IP = [253, 0, 0, 0, 0, 0, 0, 0, 0, 0, 0, 0, 0, 0, 0, 7],
                             Neigh_HardwareAddr = []\<rparr>]"
  let ?failed = "[CLinkSetDown eth0,
                  CAddrDel eth0 \<lparr>Addr_IP = [10, 244, 0, 7], Addr_Mask = [255, 255, 255]\<rparr>,
                  CAddrDel eth0 \<lparr>Addr_IP = [253, 0, 0, 0, 0, 0, 0, 0, 0, 0, 0, 0, 0, 0, 0, 7],
                                  Addr_Mask = [255, 255, 255, 255, 255, 255, 255, 255]\<rparr>,
                  CSetRandomMac ''eth0'',
                  CLinkSetUp eth0,
                  CCreateTapDevice ''tap0'' 0 42 1500 ''0'']"
  obtain r b' t' where run:
    "PreparePodNetworkInterface sample_handler sample_deps discovered [] = (r, b', t')"
    by (cases "PreparePodNetworkInterface sample_handler sample_deps discovered []")
  have "fst (PreparePodNetworkInterface sample_handler sample_deps discovered []) = Success"
    by code_simp
  with run have r: "r = Success"
    by simp
  have "map (step_rank \<circ> fst)
      (snd (snd (PreparePodNetworkInterface sample_handler sample_deps discovered [])))
      = [2, 2, 2, 2, 2, 3, 3, 3, 4, 4, 4, 4, 4, 4, 4, 4, 5, 5, 5, 5, 5, 5, 5,
         6, 6, 6, 6, 6, 6, 6, 7, 7, 7, 7, 7]"
    by code_simp
  with run have ranks: "map (step_rank \<circ> fst) t'
      = [2, 2, 2, 2, 2, 3, 3, 3, 4, 4, 4, 4, 4, 4, 4, 4, 5, 5, 5, 5, 5, 5, 5,
         6, 6, 6, 6, 6, 6, 6, 7, 7, 7, 7, 7]"
    by simp
  have "map snd (snd (snd (PreparePodNetworkInterface sample_handler sample_deps discovered [])))
      = ?sample"
    by code_simp
  with run have calls: "map snd t' = ?sample"
    by simp
  have en: "ipv4Enabled discovered"
    by (simp add: discovered_def)
  from PreparePodNetworkInterface_ordered_abort [OF run] r en
  have "t' = prepare_plan sample_handler sample_deps discovered []
      \<and> sorted (map (step_rank \<circ> fst) t') \<and> (\<exists>ev \<in> set t'. fst ev = StepNeighbourReply)"
    by auto
  with run r ranks calls have first:
    "\<exists>b' t'. PreparePodNetworkInterface sample_handler sample_deps discovered [] = (Success, b', t')
        \<and> t' = prepare_plan sample_handler sample_deps discovered []
        \<and> map snd t' = ?sample
        \<and> sorted (map (step_rank \<circ> fst) t')
        \<and> (\<exists>ev \<in> set t'. fst ev = StepNeighbourReply)
        \<and> map (step_rank \<circ> fst) t'
            = [2, 2, 2, 2, 2, 3, 3, 3, 4, 4, 4, 4, 4, 4, 4, 4, 5, 5, 5, 5, 5, 5, 5,
               6, 6, 6, 6, 6, 6, 6, 7, 7, 7, 7, 7]"
    by (rule_tac x = b' in exI, rule_tac x = t' in exI) simp
  obtain q c' u' where fail:
    "PreparePodNetworkInterface tap_failing_handler sample_deps discovered [] = (q, c', u')"
    by (cases "PreparePodNetworkInterface tap_failing_handler sample_deps discovered []")
  have "fst (PreparePodNetworkInterface tap_failing_handler sample_deps discovered [])
      = Failure ''tap: device or resource busy''"
    by code_simp
  with fail have q: "q = Failure ''tap: device or resource busy''"
    by simp
  have "map fst (snd (snd (PreparePodNetworkInterface tap_failing_handler sample_deps discovered [])))
      = [StepPodNic, StepPodNic, StepPodNic, StepPodNic, StepPodNic, StepTap]"
    by code_simp
  with fail have tags: "map fst u' = [StepPodNic, StepPodNic, StepPodNic, StepPodNic, StepPodNic, StepTap]"
    by simp
  have "map snd (snd (snd (PreparePodNetworkInterface tap_failing_handler sample_deps discovered [])))
      = ?failed"
    by code_simp
  with fail have made: "map snd u' = ?failed"
    by simp
  from PreparePodNetworkInterface_ordered_abort [OF fail] q
  have "prefix u' (prepare_plan tap_failing_handler sample_deps discovered [])
      \<and> u' \<noteq> [] \<and> \<not> tolerated (snd (last u'))
      \<and> call_error tap_failing_handler (history [] @ map snd (butlast u')) (snd (last u'))
          = Some ''tap: device or resource busy''"
    by auto
  with fail q tags made have second:
    "\<exists>b' t'. PreparePodNetworkInterface tap_failing_handler sample_deps discovered []
               = (Failure ''tap: device or resource busy'', b', t')
        \<and> prefix t' (prepare_plan tap_failing_handler sample_deps discovered [])
        \<and> map snd t' = ?failed
        \<and> t' \<noteq> []
        \<and> \<not> tolerated (snd (last t'))
        \<and> call_error tap_failing_handler (history [] @ map snd (butlast t')) (snd (last t'))
            = Some ''tap: device or resource busy''
        \<and> map fst t' = [StepPodNic, StepPodNic, StepPodNic, StepPodNic, StepPodNic, StepTap]"
    by (rule_tac x = c' in exI, rule_tac x = u' in exI) simp
  from first second show ?thesis
    by (rule conjI)
qed

subsection \<open>NAT rules without a NAT backend\<close>



subsection \<open>Discovery and its failure on a family without routes\<close>








section \<open>Properties of the router advertiser\<close>








section \<open>Properties of the guest-agent reply parsers\<close>

lemma stripAgentResponse_hostname: "stripAgentResponse hostname_reply = Inr hostname_object"
  by (simp add: stripAgentResponse_def hostname_reply_def hostname_object_def match_here_def
      return_key_def dquote_def re_space_def closes_wrapper_def Let_def)

lemma no_match_panics:
  assumes "stripRE_FindStringSubmatch agentReply = []"
  shows "stripAgentResponse agentReply = Inl IndexOutOfRange"
  using assms by (simp add: stripAgentResponse_def)

text \<open>
  Claim C9 on the error reply of a guest agent, which has no \<open>"return"\<close> key: the
  expression does not match, \<open>FindStringSubmatch\<close> returns nil, the unchecked index
  panics, and so does each of the seven parsing functions, whatever the decoder is.
\<close>

theorem parsers_panic_on_error_reply:
  "stripRE_FindStringSubmatch error_reply = []
   \<and> stripAgentResponse error_reply = Inl IndexOutOfRange
   \<and> parseGuestOSInfo d1 error_reply = Inl IndexOutOfRange
   \<and> parseInterfaces d2 error_reply = Inl IndexOutOfRange
   \<and> parseHostname d3 error_reply = Inl IndexOutOfRange
   \<and> parseTimezone d4 error_reply = Inl IndexOutOfRange
   \<and> parseFilesystem d5 error_reply = Inl IndexOutOfRange
   \<and> parseUsers d6 error_reply = Inl IndexOutOfRange
   \<and> parseAgent d7 error_reply = Inl IndexOutOfRange"
proof -
  have nil: "stripRE_FindStringSubmatch error_reply = []"
    by (simp add: error_reply_def match_here_def return_key_def dquote_def re_space_def Let_def)
  note p = no_match_panics [OF nil]
  from nil p show ?thesis
    by (simp add: parseGuestOSInfo_def parseInterfaces_def parseHostname_def parseTimezone_def
        parseFilesystem_def parseUsers_def parseAgent_def)
qed

end
